(* ===== verification/Prelude.thy ===== *)
theory Prelude
  imports Complex_Main "HOL-Library.Word"
begin

text \<open>
  Types and lemmas that every component of the development shares.
  Go's \<open>int\<close> and \<open>int64\<close> are 64-bit words; \<open>time.Time\<close> and
  \<open>time.Duration\<close> are integers counting nanoseconds; \<open>uuid.UUID\<close> (an array of
  16 bytes) is a 128-bit word; \<open>decimal.Decimal\<close> is identified with the rational
  number it denotes; a Go \<open>string\<close> is the list of its bytes.
\<close>

type_synonym gint = "64 word"
type_synonym instant = int
type_synonym duration = int
type_synonym uuid = "128 word"
type_synonym decimal = rat

named_theorems sql_defs "definitions of the SQL statements"
named_theorems row_simps "how a table update shows in its rows"

section \<open>Sums\<close>

text \<open>A Go function returning \<open>(T, error)\<close> returns \<open>Inl\<close> the error or \<open>Inr\<close> the value.\<close>

lemma sum_case_Inr_iff:
  "(case r of Inl e \<Rightarrow> Inl (f e) | Inr a \<Rightarrow> g a) = Inr b \<longleftrightarrow> (\<exists>a. r = Inr a \<and> g a = Inr b)"
  by (cases r) auto

section \<open>Updating and selecting rows\<close>

definition update_where :: "('r \<Rightarrow> bool) \<Rightarrow> ('r \<Rightarrow> 'r) \<Rightarrow> 'r list \<Rightarrow> 'r list" where
  "update_where P f rs = map (\<lambda>r. if P r then f r else r) rs"

lemma update_where_Nil [simp]: "update_where P f [] = []"
  by (simp add: update_where_def)

lemma update_where_Cons [simp]:
  "update_where P f (r # rs) = (if P r then f r else r) # update_where P f rs"
  by (simp add: update_where_def)

lemma length_update_where [simp]: "length (update_where P f rs) = length rs"
  by (simp add: update_where_def)

lemma set_update_where:
  "set (update_where P f rs) = {f r | r. r \<in> set rs \<and> P r} \<union> {r \<in> set rs. \<not> P r}"
  by (auto simp: update_where_def)

lemma map_update_where:
  "(\<And>r. P r \<Longrightarrow> g (f r) = g r) \<Longrightarrow> map g (update_where P f rs) = map g rs"
  by (auto simp: update_where_def)

lemma update_where_none: "\<forall>r \<in> set rs. \<not> P r \<Longrightarrow> update_where P f rs = rs"
  by (induction rs) auto

lemma ball_update_where:
  "\<forall>r \<in> set rs. Q r \<Longrightarrow> (\<And>r. r \<in> set rs \<Longrightarrow> P r \<Longrightarrow> Q r \<Longrightarrow> Q (f r)) \<Longrightarrow>
   \<forall>r \<in> set (update_where P f rs). Q r"
  by (auto simp: set_update_where)

section \<open>Tables with a key\<close>

definition lookup_by :: "('r \<Rightarrow> 'k) \<Rightarrow> 'r list \<Rightarrow> 'k \<Rightarrow> 'r option" where
  "lookup_by key rs k = find (\<lambda>r. key r = k) rs"

lemma lookup_by_Nil [simp]: "lookup_by key [] k = None"
  by (simp add: lookup_by_def)

lemma lookup_by_Cons [simp]:
  "lookup_by key (r # rs) k = (if key r = k then Some r else lookup_by key rs k)"
  by (simp add: lookup_by_def)

lemma lookup_by_SomeD: "lookup_by key rs k = Some r \<Longrightarrow> r \<in> set rs \<and> key r = k"
  by (induction rs) (auto split: if_splits)

lemma lookup_by_None_iff: "lookup_by key rs k = None \<longleftrightarrow> k \<notin> key ` set rs"
  by (induction rs) auto

lemma lookup_by_Some_iff:
  "distinct (map key rs) \<Longrightarrow> lookup_by key rs k = Some r \<longleftrightarrow> r \<in> set rs \<and> key r = k"
  by (induction rs) (auto simp: rev_image_eqI)

lemma lookup_by_append:
  "lookup_by key (rs @ qs) k =
     (case lookup_by key rs k of None \<Rightarrow> lookup_by key qs k | Some r \<Rightarrow> Some r)"
  by (induction rs) auto

lemma filter_key:
  "distinct (map key rs) \<Longrightarrow>
   filter (\<lambda>r. key r = k \<and> Q r) rs =
     (case lookup_by key rs k of Some r \<Rightarrow> if Q r then [r] else [] | None \<Rightarrow> [])"
proof (induction rs)
  case (Cons r rs)
  then show ?case
    by (auto simp: filter_empty_conv rev_image_eqI lookup_by_None_iff split: option.splits
        dest: lookup_by_SomeD)
qed simp

lemma filter_key_only:
  "distinct (map key rs) \<Longrightarrow>
   filter (\<lambda>r. key r = k) rs = (case lookup_by key rs k of Some r \<Rightarrow> [r] | None \<Rightarrow> [])"
  using filter_key [of key rs k "\<lambda>_. True"] by (simp split: option.splits)

lemma lookup_by_update:
  assumes "distinct (map key rs)" and "\<And>r. key (f r) = key r"
  shows "lookup_by key (update_where (\<lambda>r. key r = k \<and> Q r) f rs) j =
    (if j = k then map_option (\<lambda>r. if Q r then f r else r) (lookup_by key rs k)
     else lookup_by key rs j)"
  using assms by (induction rs) auto

lemma lookup_by_filter_other:
  "distinct (map key rs) \<Longrightarrow>
   lookup_by key (filter (\<lambda>r. key r \<noteq> k) rs) = (lookup_by key rs)(k := None)"
  by (induction rs) (auto simp: lookup_by_None_iff)

lemma lookup_by_add:
  "key r \<notin> key ` set rs \<Longrightarrow> lookup_by key (rs @ [r]) = (lookup_by key rs)(key r \<mapsto> r)"
  by (induction rs) auto

lemma image_update_where: "(\<And>r. P r \<Longrightarrow> g (f r) = g r) \<Longrightarrow> g ` set (update_where P f rs) = g ` set rs"
  by (metis map_update_where set_map)

lemma lookup_by_update_all: 
  assumes "\<And>r. key (f r) = key r"
  shows "lookup_by key (update_where P f rs) j = map_option (\<lambda>r. if P r then f r else r) (lookup_by key rs j)"
  using assms by (induction rs) auto

lemma count_by_key:
  "distinct (map key rs) \<Longrightarrow>
   card {i. \<exists>r. lookup_by key rs i = Some r \<and> P r} = length (filter P rs)"
proof -
  assume dist: "distinct (map key rs)"
  then have "{i. \<exists>r. lookup_by key rs i = Some r \<and> P r} = key ` set (filter P rs)"
    by (auto simp: lookup_by_Some_iff)
  moreover have "card (key ` set (filter P rs)) = length (filter P rs)"
    using dist by (metis distinct_card distinct_map_filter length_map list.set_map)
  ultimately show ?thesis by simp
qed

section \<open>Grouping and paging\<close>

lemma sum_list_one: 
  "distinct ks \<Longrightarrow> k0 \<in> set ks \<Longrightarrow> 
   (\<Sum>k\<leftarrow>ks. if k0 = k then (x :: 'b :: comm_monoid_add) else 0) = x"
proof (induction ks)
  case (Cons k ks)
  have "(\<Sum>j\<leftarrow>ks. if k0 = j then x else 0) = (\<Sum>j\<leftarrow>ks. 0)" if "k0 \<notin> set ks"
    using that by (intro arg_cong [where f = sum_list] map_cong) auto
  with Cons show ?case by auto
qed simp

lemma sum_list_groups:
  fixes f :: "'r \<Rightarrow> 'b :: comm_monoid_add"
  assumes "distinct ks" and "key ` set rs \<subseteq> set ks"
  shows "(\<Sum>k\<leftarrow>ks. \<Sum>r\<leftarrow>filter (\<lambda>r. key r = k) rs. f r) = (\<Sum>r\<leftarrow>rs. f r)"
  using assms(2)
proof (induction rs)
  case (Cons r rs)
  have "(\<Sum>k\<leftarrow>ks. \<Sum>r\<leftarrow>filter (\<lambda>r. key r = k) (r # rs). f r) =
      (\<Sum>k\<leftarrow>ks. (if key r = k then f r else 0) + (\<Sum>r\<leftarrow>filter (\<lambda>r. key r = k) rs. f r))"
    by (intro arg_cong [where f = sum_list] map_cong) auto
  also have "\<dots> = f r + (\<Sum>r\<leftarrow>rs. f r)"
    using Cons assms(1) by (simp add: sum_list_addf sum_list_one)
  finally show ?case by simp
qed simp

lemma concat_pages:
  "0 < n \<Longrightarrow> concat (map (\<lambda>k. take n (drop (k * n) xs)) [0..<m]) = take (m * n) xs"
  by (induction m) (simp_all add: take_add [symmetric] add.commute)

end
