(* ===== verification/GoErrors.thy ===== *)
theory GoErrors
  imports Prelude
begin

text \<open>
  Package \<open>internal/pkg/apperr\<close> and the Go error values the program inspects.
  \<open>go_error\<close> holds the dynamic types the program tells apart with \<open>errors.Is\<close> and
  \<open>errors.As\<close>; every other error is \<open>Opaque\<close>. \<open>nil\<close> is \<open>None\<close> (or the \<open>Inr\<close> side
  of a result). The text of a driver error is not in the program, so the functions that print
  one take it as an argument.
\<close>

section \<open>Kinds\<close>

datatype Kind =
    KindInternal
  | KindValidation
  | KindNotFound
  | KindConflict
  | KindUnprocessable
  | KindUnavailable
  | KindRateLimited

fun Kind_Status :: "Kind \<Rightarrow> int" where
  "Kind_Status KindValidation = 400"
| "Kind_Status KindNotFound = 404"
| "Kind_Status KindConflict = 409"
| "Kind_Status KindUnprocessable = 422"
| "Kind_Status KindRateLimited = 429"
| "Kind_Status KindUnavailable = 503"
| "Kind_Status _ = 500"

definition Kind_IsServerError :: "Kind \<Rightarrow> bool" where
  "Kind_IsServerError k \<longleftrightarrow> Kind_Status k \<ge> 500"

lemma Kind_IsServerError_iff: "Kind_IsServerError k \<longleftrightarrow> k = KindInternal \<or> k = KindUnavailable"
  by (cases k) (auto simp: Kind_IsServerError_def)

section \<open>Errors\<close>

record FieldError =
  Field :: string
  Reason :: string

datatype app_error =
  AppError (Kind: Kind) (Code: string) (Message: string) (Details: "FieldError list")
    (cause: "go_error option")
and go_error =
    App app_error
  | PgError string
  | ConnectError go_error
  | DeadlineExceeded
  | Canceled
  | NetError
  | FiberError int string
  | Wrapped string go_error
  | Opaque string

text \<open>The type of an operation on a state \<open>'w\<close> that returns \<open>(T, error)\<close>.\<close>

type_synonym ('w, 'a) act = "'w \<Rightarrow> (go_error + 'a) \<times> 'w"

text \<open>
  \<open>chain err\<close> is \<open>err\<close> followed by its successive \<open>Unwrap()\<close>s: the sequence
  \<open>errors.Is\<close> and \<open>errors.As\<close> walk.
\<close>

fun chain :: "go_error \<Rightarrow> go_error list" where
  "chain (App (AppError k c m d None)) = [App (AppError k c m d None)]"
| "chain (App (AppError k c m d (Some e))) = App (AppError k c m d (Some e)) # chain e"
| "chain (ConnectError e) = ConnectError e # chain e"
| "chain (Wrapped s e) = Wrapped s e # chain e"
| "chain (PgError c) = [PgError c]"
| "chain DeadlineExceeded = [DeadlineExceeded]"
| "chain Canceled = [Canceled]"
| "chain NetError = [NetError]"
| "chain (FiberError n s) = [FiberError n s]"
| "chain (Opaque s) = [Opaque s]"

fun first_some :: "('a \<Rightarrow> 'b option) \<Rightarrow> 'a list \<Rightarrow> 'b option" where
  "first_some f [] = None"
| "first_some f (x # xs) = (case f x of Some y \<Rightarrow> Some y | None \<Rightarrow> first_some f xs)"

definition errors_Is :: "go_error \<Rightarrow> go_error \<Rightarrow> bool" where
  "errors_Is err target \<longleftrightarrow> target \<in> set (chain err)"

definition errors_As :: "(go_error \<Rightarrow> 'b option) \<Rightarrow> go_error \<Rightarrow> 'b option" where
  "errors_As f err = first_some f (chain err)"

fun as_App :: "go_error \<Rightarrow> app_error option" where
  "as_App (App ae) = Some ae"
| "as_App _ = None"

fun as_PgError :: "go_error \<Rightarrow> string option" where
  "as_PgError (PgError c) = Some c"
| "as_PgError _ = None"

fun as_ConnectError :: "go_error \<Rightarrow> go_error option" where
  "as_ConnectError (ConnectError e) = Some e"
| "as_ConnectError _ = None"

text \<open>\<open>context.DeadlineExceeded\<close> implements \<open>net.Error\<close> too.\<close>

fun as_NetError :: "go_error \<Rightarrow> unit option" where
  "as_NetError NetError = Some ()"
| "as_NetError DeadlineExceeded = Some ()"
| "as_NetError _ = None"

fun as_FiberError :: "go_error \<Rightarrow> (int \<times> string) option" where
  "as_FiberError (FiberError n s) = Some (n, s)"
| "as_FiberError _ = None"

definition From :: "go_error \<Rightarrow> app_error option" where
  "From err = errors_As as_App err"

section \<open>Methods and constructors of \<open>*Error\<close>\<close>

definition Err_Unwrap :: "app_error \<Rightarrow> go_error option" where
  "Err_Unwrap e = cause e"

definition Err_Cause :: "app_error \<Rightarrow> go_error option" where
  "Err_Cause e = cause e"

definition Err_Status :: "app_error \<Rightarrow> int" where
  "Err_Status e = Kind_Status (Kind e)"

definition Err_IsServerError :: "app_error \<Rightarrow> bool" where
  "Err_IsServerError e \<longleftrightarrow> Kind_IsServerError (Kind e)"

definition WithCause :: "app_error \<Rightarrow> go_error \<Rightarrow> app_error" where
  "WithCause e err = AppError (Kind e) (Code e) (Message e) (Details e) (Some err)"

definition WithDetails :: "app_error \<Rightarrow> FieldError list \<Rightarrow> app_error" where
  "WithDetails e details = AppError (Kind e) (Code e) (Message e) details (cause e)"

definition New :: "Kind \<Rightarrow> string \<Rightarrow> string \<Rightarrow> app_error" where
  "New kind code message = AppError kind code message [] None"

definition Validation :: "string \<Rightarrow> string \<Rightarrow> app_error" where
  "Validation code message = New KindValidation code message"

definition NotFound :: "string \<Rightarrow> string \<Rightarrow> app_error" where
  "NotFound code message = New KindNotFound code message"

definition Conflict :: "string \<Rightarrow> string \<Rightarrow> app_error" where
  "Conflict code message = New KindConflict code message"

definition Unprocessable :: "string \<Rightarrow> string \<Rightarrow> app_error" where
  "Unprocessable code message = New KindUnprocessable code message"

definition Unavailable :: "string \<Rightarrow> string \<Rightarrow> app_error" where
  "Unavailable code message = New KindUnavailable code message"

definition RateLimited :: "string \<Rightarrow> string \<Rightarrow> app_error" where
  "RateLimited code message = New KindRateLimited code message"

definition Internal :: "string \<Rightarrow> string \<Rightarrow> app_error" where
  "Internal code message = New KindInternal code message"

lemmas error_constructors =
  New_def Validation_def NotFound_def Conflict_def Unprocessable_def Unavailable_def
  RateLimited_def Internal_def

text \<open>\<open>Error()\<close>: \<open>txt\<close> prints the errors that are not \<open>*apperr.Error\<close>.\<close>

fun Err_Error :: "(go_error \<Rightarrow> string) \<Rightarrow> app_error \<Rightarrow> string" where
  "Err_Error txt (AppError k c m d None) = m"
| "Err_Error txt (AppError k c m d (Some (App ae))) = m @ '': '' @ Err_Error txt ae"
| "Err_Error txt (AppError k c m d (Some e)) = m @ '': '' @ txt e"

section \<open>The catalogue\<close>

definition CodeValidation :: string where "CodeValidation = ''VALIDATION_ERROR''"
definition CodeInternal :: string where "CodeInternal = ''INTERNAL_ERROR''"
definition CodeServiceUnavailable :: string where "CodeServiceUnavailable = ''SERVICE_UNAVAILABLE''"
definition CodeRateLimited :: string where "CodeRateLimited = ''RATE_LIMITED''"
definition CodeNotFound :: string where "CodeNotFound = ''NOT_FOUND''"
definition CodeMethodNotAllowed :: string where "CodeMethodNotAllowed = ''METHOD_NOT_ALLOWED''"
definition CodeRequestError :: string where "CodeRequestError = ''REQUEST_ERROR''"

lemmas code_defs =
  CodeValidation_def CodeInternal_def CodeServiceUnavailable_def CodeRateLimited_def
  CodeNotFound_def CodeMethodNotAllowed_def CodeRequestError_def

definition defaultMessages :: "(string \<times> string) list" where
  "defaultMessages =
    [(CodeValidation, ''validation failed''),
     (CodeInternal, ''an unexpected error occurred, please try again later''),
     (CodeServiceUnavailable, ''service temporarily unavailable''),
     (CodeRateLimited, ''too many requests''),
     (CodeNotFound, ''resource not found''),
     (CodeMethodNotAllowed, ''method not allowed''),
     (CodeRequestError, ''request could not be processed'')]"

definition MessageFor :: "string \<Rightarrow> string" where
  "MessageFor code =
    (case map_of defaultMessages code of
       Some msg \<Rightarrow> msg
     | None \<Rightarrow> (case map_of defaultMessages CodeInternal of Some msg \<Rightarrow> msg | None \<Rightarrow> []))"

definition ClientCode :: "app_error \<Rightarrow> string" where
  "ClientCode e = (if Kind e = KindInternal then CodeInternal else Code e)"

definition ClientMessage :: "app_error \<Rightarrow> string" where
  "ClientMessage e = (if Kind e = KindInternal then MessageFor CodeInternal else Message e)"

section \<open>Lemmas\<close>

lemma first_some_append:
  "first_some f (xs @ ys) = (case first_some f xs of Some y \<Rightarrow> Some y | None \<Rightarrow> first_some f ys)"
  by (induction xs) (auto split: option.splits)

lemma chain_App: "chain (App ae) = App ae # (case cause ae of None \<Rightarrow> [] | Some e \<Rightarrow> chain e)"
  by (cases ae; cases "cause ae") auto

lemma From_App [simp]: "From (App ae) = Some ae"
  by (simp add: From_def errors_As_def chain_App)

lemma From_Wrapped [simp]: "From (Wrapped s e) = From e"
  by (simp add: From_def errors_As_def)

lemma From_ConnectError [simp]: "From (ConnectError e) = From e"
  by (simp add: From_def errors_As_def)

lemma From_leaf [simp]:
  "From (PgError c) = None" "From DeadlineExceeded = None" "From Canceled = None"
  "From NetError = None" "From (FiberError n s) = None" "From (Opaque s) = None"
  by (simp_all add: From_def errors_As_def)

lemma AppError_collapse: "AppError (Kind e) (Code e) (Message e) (Details e) (cause e) = e"
  by (cases e) simp

lemma WithCause_sel [simp]:
  "Kind (WithCause e x) = Kind e" "Code (WithCause e x) = Code e"
  "Message (WithCause e x) = Message e" "Details (WithCause e x) = Details e"
  "cause (WithCause e x) = Some x"
  by (simp_all add: WithCause_def)

lemma WithDetails_sel [simp]:
  "Kind (WithDetails e x) = Kind e" "Code (WithDetails e x) = Code e"
  "Message (WithDetails e x) = Message e" "Details (WithDetails e x) = x"
  "cause (WithDetails e x) = cause e"
  by (simp_all add: WithDetails_def)

lemma New_sel [simp]:
  "Kind (New k c m) = k" "Code (New k c m) = c" "Message (New k c m) = m"
  "Details (New k c m) = []" "cause (New k c m) = None"
  by (simp_all add: New_def)

text \<open>A server error of the program: what an infrastructure failure must turn into.\<close>

definition infra :: "go_error \<Rightarrow> bool" where
  "infra e \<longleftrightarrow> (case e of App ae \<Rightarrow> Err_IsServerError ae | _ \<Rightarrow> False)"

lemma infra_App [simp]: "infra (App ae) \<longleftrightarrow> Kind ae = KindInternal \<or> Kind ae = KindUnavailable"
  by (simp add: infra_def Err_IsServerError_def Kind_IsServerError_iff)

lemma infraE:
  assumes "infra e"
  obtains ae where "e = App ae" and "Kind ae = KindInternal \<or> Kind ae = KindUnavailable"
  using assms by (cases e) (auto simp: infra_def Err_IsServerError_def Kind_IsServerError_iff)

end
