(* ===== verification/Domain.thy ===== *)
theory Domain
  imports GoErrors
begin

text \<open>
  Package \<open>internal/core/domain\<close>: the entities, their string-typed enumerations, the
  domain errors, the scheduling rule and the price list. \<open>PickupType\<close>,
  \<open>PickupStatus\<close> and \<open>PaymentStatus\<close> are Go string types, so any string inhabits them;
  the constants are opaque here and told apart by \<open>domain_distinct\<close>. A pointer field is an
  option.
\<close>

section \<open>Pickups\<close>

type_synonym PickupType = string

definition PickupOrganic :: PickupType where "PickupOrganic = ''organic''"
definition PickupPlastic :: PickupType where "PickupPlastic = ''plastic''"
definition PickupPaper :: PickupType where "PickupPaper = ''paper''"
definition PickupElectronic :: PickupType where "PickupElectronic = ''electronic''"

definition PickupType_Valid :: "PickupType \<Rightarrow> bool" where
  "PickupType_Valid t \<longleftrightarrow>
     t = PickupOrganic \<or> t = PickupPlastic \<or> t = PickupPaper \<or> t = PickupElectronic"

type_synonym PickupStatus = string

definition PickupPending :: PickupStatus where "PickupPending = ''pending''"
definition PickupScheduled :: PickupStatus where "PickupScheduled = ''scheduled''"
definition PickupCompleted :: PickupStatus where "PickupCompleted = ''completed''"
definition PickupCanceled :: PickupStatus where "PickupCanceled = ''canceled''"

record Pickup =
  pk_ID :: uuid
  pk_HouseholdID :: uuid
  pk_Type :: PickupType
  pk_Status :: PickupStatus
  pk_PickupDate :: "instant option"
  pk_SafetyCheck :: bool
  pk_CreatedAt :: instant
  pk_UpdatedAt :: instant

section \<open>Households and payments\<close>

record Household =
  hh_ID :: uuid
  hh_OwnerName :: string
  hh_Address :: string
  hh_CreatedAt :: instant
  hh_UpdatedAt :: instant

type_synonym PaymentStatus = string

definition PaymentPending :: PaymentStatus where "PaymentPending = ''pending''"
definition PaymentPaid :: PaymentStatus where "PaymentPaid = ''paid''"
definition PaymentFailed :: PaymentStatus where "PaymentFailed = ''failed''"

record Payment =
  pm_ID :: uuid
  pm_HouseholdID :: uuid
  pm_WasteID :: uuid
  pm_Amount :: decimal
  pm_PaymentDate :: "instant option"
  pm_Status :: PaymentStatus
  pm_ProofFileURL :: "string option"
  pm_CreatedAt :: instant
  pm_UpdatedAt :: instant

record Pricing =
  Standard :: decimal
  Electronic :: decimal

definition AmountFor :: "Pricing \<Rightarrow> PickupType \<Rightarrow> decimal" where
  "AmountFor p t = (if t = PickupElectronic then Electronic p else Standard p)"

section \<open>Reports\<close>

record WasteCount =
  wc_Type :: PickupType
  wc_Status :: PickupStatus
  wc_Count :: nat

record WasteSummary =
  ws_Counts :: "WasteCount list"
  ws_Total :: nat

record PaymentStatusTotal =
  pt_Status :: PaymentStatus
  pt_Count :: nat
  pt_Amount :: decimal

record PaymentSummary =
  py_Totals :: "PaymentStatusTotal list"
  py_TotalRevenue :: decimal

record HouseholdHistory =
  hy_Household :: Household
  hy_Pickups :: "Pickup list"
  hy_Payments :: "Payment list"

section \<open>Domain errors\<close>

definition ErrHouseholdNotFound :: app_error where
  "ErrHouseholdNotFound = NotFound ''HOUSEHOLD_NOT_FOUND'' ''household not found''"

definition ErrHouseholdHasPendingPayment :: app_error where
  "ErrHouseholdHasPendingPayment =
     Conflict ''HOUSEHOLD_HAS_PENDING_PAYMENT'' ''household has a pending payment''"

definition ErrHouseholdHasDependents :: app_error where
  "ErrHouseholdHasDependents =
     Conflict ''HOUSEHOLD_HAS_DEPENDENTS'' ''household has pickups or payments and cannot be deleted''"

definition ErrPickupNotFound :: app_error where
  "ErrPickupNotFound = NotFound ''PICKUP_NOT_FOUND'' ''pickup not found''"

definition ErrPickupNotPending :: app_error where
  "ErrPickupNotPending = Conflict ''PICKUP_NOT_PENDING'' ''pickup must be pending for this action''"

definition ErrPickupNotScheduled :: app_error where
  "ErrPickupNotScheduled =
     Conflict ''PICKUP_NOT_SCHEDULED'' ''pickup must be scheduled to complete''"

definition ErrSafetyCheckRequired :: app_error where
  "ErrSafetyCheckRequired =
     Unprocessable ''SAFETY_CHECK_REQUIRED'' ''electronic pickup requires a passed safety check''"

definition ErrPickupNotCancelable :: app_error where
  "ErrPickupNotCancelable =
     Conflict ''PICKUP_NOT_CANCELABLE'' ''pickup cannot be canceled in its current status''"

definition ErrPaymentNotFound :: app_error where
  "ErrPaymentNotFound = NotFound ''PAYMENT_NOT_FOUND'' ''payment not found''"

definition ErrPaymentNotPending :: app_error where
  "ErrPaymentNotPending =
     Conflict ''PAYMENT_NOT_PENDING'' ''payment must be pending to confirm''"

definition ErrPaymentAlreadyExists :: app_error where
  "ErrPaymentAlreadyExists =
     Conflict ''PAYMENT_ALREADY_EXISTS'' ''a payment already exists for this pickup''"

definition ErrPaymentHouseholdMismatch :: app_error where
  "ErrPaymentHouseholdMismatch =
     Unprocessable ''PAYMENT_HOUSEHOLD_MISMATCH'' ''household does not match the pickup''"

definition ErrStorageUnavailable :: app_error where
  "ErrStorageUnavailable =
     Unavailable ''STORAGE_UNAVAILABLE'' ''file storage temporarily unavailable''"

lemmas domain_error_defs =
  ErrHouseholdNotFound_def ErrHouseholdHasPendingPayment_def ErrHouseholdHasDependents_def
  ErrPickupNotFound_def ErrPickupNotPending_def ErrPickupNotScheduled_def
  ErrSafetyCheckRequired_def ErrPickupNotCancelable_def ErrPaymentNotFound_def
  ErrPaymentNotPending_def ErrPaymentAlreadyExists_def ErrPaymentHouseholdMismatch_def
  ErrStorageUnavailable_def

section \<open>The scheduling rule\<close>

definition CanSchedule :: "Pickup \<Rightarrow> app_error option" where
  "CanSchedule p =
    (if pk_Status p \<noteq> PickupPending then Some ErrPickupNotPending
     else if pk_Type p = PickupElectronic \<and> \<not> pk_SafetyCheck p then Some ErrSafetyCheckRequired
     else None)"

section \<open>Lemmas\<close>

lemmas status_defs =
  PickupPending_def PickupScheduled_def PickupCompleted_def PickupCanceled_def
  PaymentPending_def PaymentPaid_def PaymentFailed_def

lemmas type_defs =
  PickupOrganic_def PickupPlastic_def PickupPaper_def PickupElectronic_def

lemma pickup_status_distinct:
  "distinct [PickupPending, PickupScheduled, PickupCompleted, PickupCanceled]"
  by (simp add: status_defs)

lemma payment_status_distinct: "distinct [PaymentPending, PaymentPaid, PaymentFailed]"
  by (simp add: status_defs)

lemma pickup_type_distinct:
  "distinct [PickupOrganic, PickupPlastic, PickupPaper, PickupElectronic]"
  by (simp add: type_defs)

lemma domain_distinct [simp]:
  "PickupPending \<noteq> PickupScheduled" "PickupScheduled \<noteq> PickupPending"
  "PickupPending \<noteq> PickupCompleted" "PickupCompleted \<noteq> PickupPending"
  "PickupPending \<noteq> PickupCanceled" "PickupCanceled \<noteq> PickupPending"
  "PickupScheduled \<noteq> PickupCompleted" "PickupCompleted \<noteq> PickupScheduled"
  "PickupScheduled \<noteq> PickupCanceled" "PickupCanceled \<noteq> PickupScheduled"
  "PickupCompleted \<noteq> PickupCanceled" "PickupCanceled \<noteq> PickupCompleted"
  "PaymentPending \<noteq> PaymentPaid" "PaymentPaid \<noteq> PaymentPending"
  "PaymentPending \<noteq> PaymentFailed" "PaymentFailed \<noteq> PaymentPending"
  "PaymentPaid \<noteq> PaymentFailed" "PaymentFailed \<noteq> PaymentPaid"
  "PickupOrganic \<noteq> PickupElectronic" "PickupElectronic \<noteq> PickupOrganic"
  "PickupPlastic \<noteq> PickupElectronic" "PickupElectronic \<noteq> PickupPlastic"
  "PickupPaper \<noteq> PickupElectronic" "PickupElectronic \<noteq> PickupPaper"
  "PickupOrganic \<noteq> PickupPlastic" "PickupPlastic \<noteq> PickupOrganic"
  "PickupOrganic \<noteq> PickupPaper" "PickupPaper \<noteq> PickupOrganic"
  "PickupPlastic \<noteq> PickupPaper" "PickupPaper \<noteq> PickupPlastic"
  using pickup_status_distinct payment_status_distinct pickup_type_distinct by auto

lemma CanSchedule_None_iff:
  "CanSchedule p = None \<longleftrightarrow>
     pk_Status p = PickupPending \<and> (pk_Type p \<noteq> PickupElectronic \<or> pk_SafetyCheck p)"
  by (simp add: CanSchedule_def)

lemma domain_error_Kind [simp]:
  "Kind ErrHouseholdNotFound = KindNotFound"
  "Kind ErrHouseholdHasPendingPayment = KindConflict"
  "Kind ErrHouseholdHasDependents = KindConflict"
  "Kind ErrPickupNotFound = KindNotFound"
  "Kind ErrPickupNotPending = KindConflict"
  "Kind ErrPickupNotScheduled = KindConflict"
  "Kind ErrSafetyCheckRequired = KindUnprocessable"
  "Kind ErrPickupNotCancelable = KindConflict"
  "Kind ErrPaymentNotFound = KindNotFound"
  "Kind ErrPaymentNotPending = KindConflict"
  "Kind ErrPaymentAlreadyExists = KindConflict"
  "Kind ErrPaymentHouseholdMismatch = KindUnprocessable"
  "Kind ErrStorageUnavailable = KindUnavailable"
  by (simp_all add: domain_error_defs error_constructors)

lemma domain_error_distinct [simp]:
  "ErrPickupNotPending \<noteq> ErrSafetyCheckRequired" "ErrSafetyCheckRequired \<noteq> ErrPickupNotPending"
  "ErrPickupNotPending \<noteq> ErrPickupNotFound" "ErrPickupNotFound \<noteq> ErrPickupNotPending"
  "ErrPickupNotScheduled \<noteq> ErrPaymentAlreadyExists" "ErrPaymentAlreadyExists \<noteq> ErrPickupNotScheduled"
  "ErrPickupNotFound \<noteq> ErrPaymentAlreadyExists" "ErrPaymentAlreadyExists \<noteq> ErrPickupNotFound"
  "ErrPickupNotFound \<noteq> ErrPickupNotScheduled" "ErrPickupNotScheduled \<noteq> ErrPickupNotFound"
  "ErrHouseholdHasPendingPayment \<noteq> ErrHouseholdNotFound"
  "ErrHouseholdNotFound \<noteq> ErrHouseholdHasPendingPayment"
  by (simp_all add: domain_error_defs error_constructors)

end
