(* ===== verification/Pagination.thy ===== *)
theory Pagination
  imports GoErrors
begin

text \<open>
  Package \<open>internal/pkg/pagination\<close>, on Go's 64-bit \<open>int\<close>, with the part of
  \<open>strconv.Atoi\<close> it uses: an optional sign, then decimal digits only, and an error when the
  number does not fit in 64 bits. All Go-level comparisons are signed (\<open>sint\<close>, \<open><s\<close>).
\<close>

section \<open>strconv.Atoi\<close>

definition digit_of :: "char \<Rightarrow> int option" where
  "digit_of c = (let n = of_char c :: int in if 48 \<le> n \<and> n \<le> 57 then Some (n - 48) else None)"

fun digits_value :: "int \<Rightarrow> string \<Rightarrow> int option" where
  "digits_value acc [] = Some acc"
| "digits_value acc (c # cs) =
     (case digit_of c of None \<Rightarrow> None | Some d \<Rightarrow> digits_value (10 * acc + d) cs)"

definition Atoi_int :: "string \<Rightarrow> int option" where
  "Atoi_int s =
    (case s of
       [] \<Rightarrow> None
     | c # cs \<Rightarrow>
         (if c = CHR ''-'' then (if cs = [] then None else map_option uminus (digits_value 0 cs))
          else if c = CHR ''+'' then (if cs = [] then None else digits_value 0 cs)
          else digits_value 0 s))"

definition Atoi :: "string \<Rightarrow> gint option" where
  "Atoi s =
    (case Atoi_int s of
       None \<Rightarrow> None
     | Some n \<Rightarrow> if - (2 ^ 63) \<le> n \<and> n < 2 ^ 63 then Some (word_of_int n) else None)"

section \<open>Params\<close>

definition defaultPage :: gint where "defaultPage = 1"
definition defaultPerPage :: gint where "defaultPerPage = 10"
definition maxPerPage :: gint where "maxPerPage = 100"

record Params =
  Page :: gint
  PerPage :: gint

record Meta =
  mt_Page :: gint
  mt_PerPage :: gint
  mt_Total :: nat

definition Parse :: "string \<Rightarrow> string \<Rightarrow> Params" where
  "Parse pageStr perPageStr =
    (let page = (case Atoi pageStr of Some n \<Rightarrow> if 0 <s n then n else defaultPage | None \<Rightarrow> defaultPage);
         perPage = (case Atoi perPageStr of Some n \<Rightarrow> if 0 <s n then n else defaultPerPage
                    | None \<Rightarrow> defaultPerPage);
         perPage = (if maxPerPage <s perPage then maxPerPage else perPage)
     in \<lparr>Page = page, PerPage = perPage\<rparr>)"

definition Offset :: "Params \<Rightarrow> gint" where
  "Offset p = (Page p - 1) * PerPage p"

definition Limit :: "Params \<Rightarrow> gint" where
  "Limit p = PerPage p"

definition NewMeta :: "Params \<Rightarrow> nat \<Rightarrow> Meta" where
  "NewMeta p n = \<lparr>mt_Page = Page p, mt_PerPage = PerPage p, mt_Total = n\<rparr>"

section \<open>Lemmas\<close>

lemma digits_value_nonneg: "digits_value acc s = Some n \<Longrightarrow> 0 \<le> acc \<Longrightarrow> 0 \<le> n"
proof (induction s arbitrary: acc)
  case (Cons c cs)
  then show ?case
    by (auto simp: digit_of_def Let_def split: option.splits if_splits)
qed simp

lemma sint_word_of_int_64:
  "- (2 ^ 63) \<le> n \<Longrightarrow> n < 2 ^ 63 \<Longrightarrow> sint (word_of_int n :: gint) = n"
  by (simp add: sint_sbintrunc' signed_take_bit_int_eq_self)

lemma Parse_sel:
  "PerPage (Parse a b) =
     (let n = (case Atoi b of Some n \<Rightarrow> if 0 <s n then n else defaultPerPage | None \<Rightarrow> defaultPerPage)
      in if maxPerPage <s n then maxPerPage else n)"
  "Page (Parse a b) =
     (case Atoi a of Some n \<Rightarrow> if 0 <s n then n else defaultPage | None \<Rightarrow> defaultPage)"
  by (simp_all add: Parse_def Let_def)

lemma sint_consts [simp]:
  "sint maxPerPage = 100" "sint defaultPerPage = 10" "sint defaultPage = 1"
  by (simp_all add: maxPerPage_def defaultPerPage_def defaultPage_def)

lemma Parse_Page_pos: "0 < sint (Page (Parse a b))"
  by (auto simp: Parse_sel word_sless_alt split: option.splits)

lemma Parse_PerPage_range: "0 < sint (PerPage (Parse a b)) \<and> sint (PerPage (Parse a b)) \<le> 100"
  by (auto simp: Parse_sel Let_def word_sless_alt not_less split: option.splits)

lemma sint_prod_64:
  fixes x y :: gint
  assumes "- (2 ^ 63) \<le> sint x * sint y" and "sint x * sint y < 2 ^ 63"
  shows "sint (x * y) = sint x * sint y"
proof -
  have "x * y = word_of_int (sint x * sint y)"
    by simp
  then show ?thesis
    using sint_word_of_int_64 [OF assms] by metis
qed

lemma sint_pred_64: "0 < sint (x :: gint) \<Longrightarrow> sint (x - 1) = sint x - 1"
proof -
  assume pos: "0 < sint x"
  have eq: "x - 1 = word_of_int (sint x - 1)"
    by simp
  have "sint x < 2 ^ 63"
    using sint_less [of x] by simp
  with pos show ?thesis unfolding eq by (subst sint_word_of_int_64) auto
qed

text \<open>The offset, as long as it fits.\<close>

lemma sint_Offset:
  assumes "0 < sint (Page p)" and "0 < sint (PerPage p)"
    and "(sint (Page p) - 1) * sint (PerPage p) < 2 ^ 63"
  shows "sint (Offset p) = (sint (Page p) - 1) * sint (PerPage p) \<and> 0 \<le> sint (Offset p)"
proof -
  note pos = assms(1,2)
  have pred: "sint (Page p - 1) = sint (Page p) - 1"
    by (rule sint_pred_64 [OF pos(1)])
  have nonneg: "0 \<le> (sint (Page p) - 1) * sint (PerPage p)"
    using pos by simp
  have "sint (Offset p) = sint (Page p - 1) * sint (PerPage p)"
    unfolding Offset_def using assms(3) nonneg pred
    by (intro sint_prod_64) (simp_all add: Limit_def)
  with nonneg pred show ?thesis by (simp add: Limit_def)
qed

section \<open>Properties\<close>

text \<open>
  Claim C39. Whatever the query strings are, the page number is at least 1 and the page size is
  between 1 and 100: absent, malformed, out-of-range and non-positive values fall back to the
  defaults, and sizes above the maximum are cut to it.
\<close>

theorem Parse_bounds:
  "1 \<le> sint (Page (Parse a b)) \<and> 1 \<le> sint (Limit (Parse a b)) \<and> sint (Limit (Parse a b)) \<le> 100"
  using Parse_Page_pos [of a b] Parse_PerPage_range [of a b] by (simp add: Limit_def)

text \<open>
  The offset of a parsed page is the number of rows on the pages before it, and not
  negative, as long as that number fits in 63 bits.
\<close>

theorem Offset_exact:
  assumes "p = Parse a b" and "(sint (Page p) - 1) * sint (Limit p) < 2 ^ 63"
  shows "sint (Offset p) = (sint (Page p) - 1) * sint (Limit p) \<and> 0 \<le> sint (Offset p)"
  using assms sint_Offset [of p] Parse_Page_pos Parse_PerPage_range by (simp add: Limit_def)

theorem Offset_exact_witness:
  "sint (Offset (Parse ''3'' ''25'')) = 50 \<and> 0 \<le> sint (Offset (Parse ''3'' ''25''))"
proof -
  have p: "Parse ''3'' ''25'' = \<lparr>Page = 3, PerPage = 25\<rparr>"
    by code_simp
  show ?thesis
    using Offset_exact [of "Parse ''3'' ''25''" "''3''" "''25''"] by (simp add: p Limit_def)
qed

end
