(* ===== verification/Ports.thy ===== *)
theory Ports
  imports Domain Pagination
begin

text \<open>
  Packages \<open>internal/core/port/in\<close> and \<open>internal/core/port/out\<close>. A Go interface is a
  record of functions over an arbitrary state \<open>'w\<close>: what the driven side keeps. A method
  returning \<open>(T, error)\<close> is an \<open>act\<close>; one returning \<open>(T, bool, error)\<close> is an \<open>act\<close> with
  an optional value (\<open>None\<close> for \<open>false\<close>); one returning \<open>error\<close> has the unit value.
  Of \<open>context.Context\<close> the program reads the transaction stored under \<open>txKey\<close> only; its
  deadline shows as errors of the driven side.
\<close>

section \<open>Context\<close>

text \<open>A request opens one transaction at most, so a handle carries no identity.\<close>

datatype tx = OpenTx

type_synonym ctx = "tx option"

section \<open>port/in: commands and filters\<close>

record CreateHouseholdCommand =
  ch_OwnerName :: string
  ch_Address :: string

record CreatePickupCommand =
  cp_HouseholdID :: uuid
  cp_Type :: PickupType
  cp_SafetyCheck :: bool

record PickupFilter =
  pf_Status :: "PickupStatus option"
  pf_HouseholdID :: "uuid option"

record SchedulePickupCommand =
  sp_PickupDate :: instant

record CreatePaymentCommand =
  cy_HouseholdID :: uuid
  cy_WasteID :: uuid

record ConfirmPaymentInput =
  ci_Reader :: string
  ci_Size :: gint
  ci_ContentType :: string

record PaymentFilter =
  yf_Status :: "PaymentStatus option"
  yf_HouseholdID :: "uuid option"
  yf_DateFrom :: "instant option"
  yf_DateTo :: "instant option"

section \<open>port/out\<close>

record 'w HouseholdRepository =
  hr_List :: "ctx \<Rightarrow> gint \<Rightarrow> gint \<Rightarrow> ('w, Household list) act"
  hr_Count :: "ctx \<Rightarrow> ('w, nat) act"
  hr_FindByID :: "ctx \<Rightarrow> uuid \<Rightarrow> ('w, Household) act"
  hr_Insert :: "ctx \<Rightarrow> Household \<Rightarrow> ('w, unit) act"
  hr_Delete :: "ctx \<Rightarrow> uuid \<Rightarrow> ('w, unit) act"

record 'w PickupRepository =
  pr_List :: "ctx \<Rightarrow> PickupStatus option \<Rightarrow> uuid option \<Rightarrow> gint \<Rightarrow> gint \<Rightarrow> ('w, Pickup list) act"
  pr_Count :: "ctx \<Rightarrow> PickupStatus option \<Rightarrow> uuid option \<Rightarrow> ('w, nat) act"
  pr_FindByID :: "ctx \<Rightarrow> uuid \<Rightarrow> ('w, Pickup) act"
  pr_Insert :: "ctx \<Rightarrow> Pickup \<Rightarrow> ('w, unit) act"
  pr_Schedule :: "ctx \<Rightarrow> uuid \<Rightarrow> instant \<Rightarrow> instant \<Rightarrow> ('w, Pickup option) act"
  pr_Complete :: "ctx \<Rightarrow> uuid \<Rightarrow> instant \<Rightarrow> ('w, Pickup option) act"
  pr_Cancel :: "ctx \<Rightarrow> uuid \<Rightarrow> instant \<Rightarrow> ('w, Pickup option) act"
  pr_CancelStaleOrganic :: "ctx \<Rightarrow> instant \<Rightarrow> instant \<Rightarrow> ('w, nat) act"

record 'w PaymentRepository =
  yr_HasPendingByHousehold :: "ctx \<Rightarrow> uuid \<Rightarrow> ('w, bool) act"
  yr_List :: "ctx \<Rightarrow> PaymentStatus option \<Rightarrow> uuid option \<Rightarrow> instant option \<Rightarrow> instant option \<Rightarrow>
    gint \<Rightarrow> gint \<Rightarrow> ('w, Payment list) act"
  yr_Count :: "ctx \<Rightarrow> PaymentStatus option \<Rightarrow> uuid option \<Rightarrow> instant option \<Rightarrow> instant option \<Rightarrow>
    ('w, nat) act"
  yr_FindByID :: "ctx \<Rightarrow> uuid \<Rightarrow> ('w, Payment) act"
  yr_Insert :: "ctx \<Rightarrow> Payment \<Rightarrow> ('w, unit) act"
  yr_Confirm :: "ctx \<Rightarrow> uuid \<Rightarrow> string \<Rightarrow> instant \<Rightarrow> ('w, Payment option) act"

record 'w ReportReader =
  rr_WasteSummary :: "ctx \<Rightarrow> ('w, WasteCount list) act"
  rr_PaymentSummary :: "ctx \<Rightarrow> ('w, PaymentStatusTotal list) act"
  rr_HouseholdPickups :: "ctx \<Rightarrow> uuid \<Rightarrow> ('w, Pickup list) act"
  rr_HouseholdPayments :: "ctx \<Rightarrow> uuid \<Rightarrow> ('w, Payment list) act"

record 'w FileStorage =
  fs_Put :: "ctx \<Rightarrow> string \<Rightarrow> string \<Rightarrow> gint \<Rightarrow> string \<Rightarrow> ('w, string) act"

text \<open>
  \<open>Do\<close> runs a closure. The closures of the program return an error and leave their result in
  a captured variable of type \<open>Pickup\<close>; the model returns both.
\<close>

record 'w TxManager =
  tx_Do :: "ctx \<Rightarrow> (ctx \<Rightarrow> ('w, Pickup) act) \<Rightarrow> ('w, Pickup) act"

record 'w Clock =
  ck_Now :: "'w \<Rightarrow> instant"

end
