(* ===== verification/HouseholdService.thy ===== *)
theory HouseholdService
  imports Ports
begin

text \<open>
  Package \<open>internal/core/service/household\<close>. \<open>uuid.New()\<close> is the argument \<open>newID\<close>.
\<close>

record 'w HouseholdService =
  hs_repo :: "'w HouseholdRepository"
  hs_clock :: "'w Clock"

definition household_NewService ::
  "'w HouseholdRepository \<Rightarrow> 'w Clock \<Rightarrow> 'w HouseholdService" where
  "household_NewService repo clock = \<lparr>hs_repo = repo, hs_clock = clock\<rparr>"

definition household_Create ::
  "'w HouseholdService \<Rightarrow> ctx \<Rightarrow> CreateHouseholdCommand \<Rightarrow> uuid \<Rightarrow> ('w, Household) act" where
  "household_Create s ctx cmd newID w =
    (let now = ck_Now (hs_clock s) w;
         h = \<lparr>hh_ID = newID, hh_OwnerName = ch_OwnerName cmd, hh_Address = ch_Address cmd,
              hh_CreatedAt = now, hh_UpdatedAt = now\<rparr>
     in case hr_Insert (hs_repo s) ctx h w of
          (Inl err, w) \<Rightarrow> (Inl err, w)
        | (Inr _, w) \<Rightarrow> (Inr h, w))"

definition household_List ::
  "'w HouseholdService \<Rightarrow> ctx \<Rightarrow> Params \<Rightarrow> ('w, Household list \<times> nat) act" where
  "household_List s ctx params w =
    (case hr_List (hs_repo s) ctx (Limit params) (Offset params) w of
       (Inl err, w) \<Rightarrow> (Inl err, w)
     | (Inr items, w) \<Rightarrow>
         (case hr_Count (hs_repo s) ctx w of
            (Inl err, w) \<Rightarrow> (Inl err, w)
          | (Inr cnt, w) \<Rightarrow> (Inr (items, cnt), w)))"

definition household_Get :: "'w HouseholdService \<Rightarrow> ctx \<Rightarrow> uuid \<Rightarrow> ('w, Household) act" where
  "household_Get s ctx i w = hr_FindByID (hs_repo s) ctx i w"

definition household_Delete :: "'w HouseholdService \<Rightarrow> ctx \<Rightarrow> uuid \<Rightarrow> ('w, unit) act" where
  "household_Delete s ctx i w = hr_Delete (hs_repo s) ctx i w"

end
