(* ===== verification/PickupService.thy ===== *)
theory PickupService
  imports Ports
begin

text \<open>
  Package \<open>internal/core/service/pickup\<close>: one definition per use case, over the ports.
  \<open>uuid.New()\<close> is the argument \<open>newID\<close>.
\<close>

record 'w PickupService =
  ps_pickups :: "'w PickupRepository"
  ps_payments :: "'w PaymentRepository"
  ps_tx :: "'w TxManager"
  ps_clock :: "'w Clock"
  ps_pricing :: Pricing
  ps_organicTTL :: duration

definition pickup_NewService ::
  "'w PickupRepository \<Rightarrow> 'w PaymentRepository \<Rightarrow> 'w TxManager \<Rightarrow> 'w Clock \<Rightarrow> Pricing \<Rightarrow> duration \<Rightarrow>
   'w PickupService" where
  "pickup_NewService pickups payments tx clock pricing organicTTL =
    \<lparr>ps_pickups = pickups, ps_payments = payments, ps_tx = tx, ps_clock = clock,
     ps_pricing = pricing, ps_organicTTL = organicTTL\<rparr>"

definition pickup_Create ::
  "'w PickupService \<Rightarrow> ctx \<Rightarrow> CreatePickupCommand \<Rightarrow> uuid \<Rightarrow> ('w, Pickup) act" where
  "pickup_Create s ctx cmd newID w =
    (let now = ck_Now (ps_clock s) w;
         pickup = \<lparr>pk_ID = newID, pk_HouseholdID = cp_HouseholdID cmd, pk_Type = cp_Type cmd,
                   pk_Status = PickupPending, pk_PickupDate = None,
                   pk_SafetyCheck = cp_SafetyCheck cmd, pk_CreatedAt = now, pk_UpdatedAt = now\<rparr>
     in tx_Do (ps_tx s) ctx
          (\<lambda>ctx w. case yr_HasPendingByHousehold (ps_payments s) ctx (cp_HouseholdID cmd) w of
             (Inl err, w) \<Rightarrow> (Inl err, w)
           | (Inr pending, w) \<Rightarrow>
               if pending then (Inl (App ErrHouseholdHasPendingPayment), w)
               else (case pr_Insert (ps_pickups s) ctx pickup w of
                       (Inl err, w) \<Rightarrow> (Inl err, w)
                     | (Inr _, w) \<Rightarrow> (Inr pickup, w))) w)"

definition pickup_List ::
  "'w PickupService \<Rightarrow> ctx \<Rightarrow> PickupFilter \<Rightarrow> Params \<Rightarrow> ('w, Pickup list \<times> nat) act" where
  "pickup_List s ctx flt params w =
    (case pr_List (ps_pickups s) ctx (pf_Status flt) (pf_HouseholdID flt)
            (Limit params) (Offset params) w of
       (Inl err, w) \<Rightarrow> (Inl err, w)
     | (Inr items, w) \<Rightarrow>
         (case pr_Count (ps_pickups s) ctx (pf_Status flt) (pf_HouseholdID flt) w of
            (Inl err, w) \<Rightarrow> (Inl err, w)
          | (Inr cnt, w) \<Rightarrow> (Inr (items, cnt), w)))"

definition pickup_Schedule ::
  "'w PickupService \<Rightarrow> ctx \<Rightarrow> uuid \<Rightarrow> SchedulePickupCommand \<Rightarrow> ('w, Pickup) act" where
  "pickup_Schedule s ctx i cmd w =
    (case pr_Schedule (ps_pickups s) ctx i (sp_PickupDate cmd) (ck_Now (ps_clock s) w) w of
       (Inl err, w) \<Rightarrow> (Inl err, w)
     | (Inr (Some pickup), w) \<Rightarrow> (Inr pickup, w)
     | (Inr None, w) \<Rightarrow>
         (case pr_FindByID (ps_pickups s) ctx i w of
            (Inl ferr, w) \<Rightarrow> (Inl ferr, w)
          | (Inr current, w) \<Rightarrow>
              (case CanSchedule current of
                 Some cerr \<Rightarrow> (Inl (App cerr), w)
               | None \<Rightarrow> (Inl (App ErrPickupNotPending), w))))"

definition pickup_Complete :: "'w PickupService \<Rightarrow> ctx \<Rightarrow> uuid \<Rightarrow> uuid \<Rightarrow> ('w, Pickup) act" where
  "pickup_Complete s ctx i newID w =
    (let now = ck_Now (ps_clock s) w
     in tx_Do (ps_tx s) ctx
          (\<lambda>ctx w. case pr_Complete (ps_pickups s) ctx i now w of
             (Inl err, w) \<Rightarrow> (Inl err, w)
           | (Inr None, w) \<Rightarrow>
               (case pr_FindByID (ps_pickups s) ctx i w of
                  (Inl ferr, w) \<Rightarrow> (Inl ferr, w)
                | (Inr _, w) \<Rightarrow> (Inl (App ErrPickupNotScheduled), w))
           | (Inr (Some pickup), w) \<Rightarrow>
               (let payment = \<lparr>pm_ID = newID, pm_HouseholdID = pk_HouseholdID pickup,
                      pm_WasteID = pk_ID pickup,
                      pm_Amount = AmountFor (ps_pricing s) (pk_Type pickup),
                      pm_PaymentDate = None, pm_Status = PaymentPending, pm_ProofFileURL = None,
                      pm_CreatedAt = now, pm_UpdatedAt = now\<rparr>
                in case yr_Insert (ps_payments s) ctx payment w of
                     (Inl err, w) \<Rightarrow> (Inl err, w)
                   | (Inr _, w) \<Rightarrow> (Inr pickup, w))) w)"

definition pickup_Cancel :: "'w PickupService \<Rightarrow> ctx \<Rightarrow> uuid \<Rightarrow> ('w, Pickup) act" where
  "pickup_Cancel s ctx i w =
    (case pr_Cancel (ps_pickups s) ctx i (ck_Now (ps_clock s) w) w of
       (Inl err, w) \<Rightarrow> (Inl err, w)
     | (Inr (Some pickup), w) \<Rightarrow> (Inr pickup, w)
     | (Inr None, w) \<Rightarrow>
         (case pr_FindByID (ps_pickups s) ctx i w of
            (Inl ferr, w) \<Rightarrow> (Inl ferr, w)
          | (Inr _, w) \<Rightarrow> (Inl (App ErrPickupNotCancelable), w)))"

definition pickup_CancelStaleOrganic :: "'w PickupService \<Rightarrow> ctx \<Rightarrow> ('w, nat) act" where
  "pickup_CancelStaleOrganic s ctx w =
    (let now = ck_Now (ps_clock s) w;
         cutoff = now + (- ps_organicTTL s)
     in pr_CancelStaleOrganic (ps_pickups s) ctx cutoff now w)"

end
