(* ===== verification/PaymentService.thy ===== *)
theory PaymentService
  imports Ports
begin

text \<open>
  Package \<open>internal/core/service/payment\<close>. \<open>uuid.New()\<close> is the argument \<open>newID\<close>, and
  \<open>UUID.String()\<close> the argument \<open>show_uuid\<close>.
\<close>

record 'w PaymentService =
  ys_payments :: "'w PaymentRepository"
  ys_pickups :: "'w PickupRepository"
  ys_storage :: "'w FileStorage"
  ys_clock :: "'w Clock"
  ys_pricing :: Pricing

definition payment_NewService ::
  "'w PaymentRepository \<Rightarrow> 'w PickupRepository \<Rightarrow> 'w FileStorage \<Rightarrow> 'w Clock \<Rightarrow> Pricing \<Rightarrow>
   'w PaymentService" where
  "payment_NewService payments pickups storage clock pricing =
    \<lparr>ys_payments = payments, ys_pickups = pickups, ys_storage = storage, ys_clock = clock,
     ys_pricing = pricing\<rparr>"

definition payment_Create ::
  "'w PaymentService \<Rightarrow> ctx \<Rightarrow> CreatePaymentCommand \<Rightarrow> uuid \<Rightarrow> ('w, Payment) act" where
  "payment_Create s ctx cmd newID w =
    (case pr_FindByID (ys_pickups s) ctx (cy_WasteID cmd) w of
       (Inl err, w) \<Rightarrow> (Inl err, w)
     | (Inr pickup, w) \<Rightarrow>
         if pk_HouseholdID pickup \<noteq> cy_HouseholdID cmd
         then (Inl (App ErrPaymentHouseholdMismatch), w)
         else
           (let now = ck_Now (ys_clock s) w;
                payment = \<lparr>pm_ID = newID, pm_HouseholdID = cy_HouseholdID cmd,
                  pm_WasteID = cy_WasteID cmd,
                  pm_Amount = AmountFor (ys_pricing s) (pk_Type pickup),
                  pm_PaymentDate = None, pm_Status = PaymentPending, pm_ProofFileURL = None,
                  pm_CreatedAt = now, pm_UpdatedAt = now\<rparr>
            in case yr_Insert (ys_payments s) ctx payment w of
                 (Inl err, w) \<Rightarrow> (Inl err, w)
               | (Inr _, w) \<Rightarrow> (Inr payment, w)))"

definition payment_List ::
  "'w PaymentService \<Rightarrow> ctx \<Rightarrow> PaymentFilter \<Rightarrow> Params \<Rightarrow> ('w, Payment list \<times> nat) act" where
  "payment_List s ctx flt params w =
    (case yr_List (ys_payments s) ctx (yf_Status flt) (yf_HouseholdID flt)
            (yf_DateFrom flt) (yf_DateTo flt) (Limit params) (Offset params) w of
       (Inl err, w) \<Rightarrow> (Inl err, w)
     | (Inr items, w) \<Rightarrow>
         (case yr_Count (ys_payments s) ctx (yf_Status flt) (yf_HouseholdID flt)
                 (yf_DateFrom flt) (yf_DateTo flt) w of
            (Inl err, w) \<Rightarrow> (Inl err, w)
          | (Inr cnt, w) \<Rightarrow> (Inr (items, cnt), w)))"

definition extensionFor :: "string \<Rightarrow> string" where
  "extensionFor contentType =
    (if contentType = ''image/jpeg'' then ''.jpg''
     else if contentType = ''image/png'' then ''.png''
     else if contentType = ''application/pdf'' then ''.pdf''
     else '''')"

definition payment_Confirm ::
  "(uuid \<Rightarrow> string) \<Rightarrow> 'w PaymentService \<Rightarrow> ctx \<Rightarrow> uuid \<Rightarrow> ConfirmPaymentInput \<Rightarrow> uuid \<Rightarrow>
   ('w, Payment) act" where
  "payment_Confirm show_uuid s ctx i input newID w =
    (case yr_FindByID (ys_payments s) ctx i w of
       (Inl err, w) \<Rightarrow> (Inl err, w)
     | (Inr existing, w) \<Rightarrow>
         if pm_Status existing \<noteq> PaymentPending then (Inl (App ErrPaymentNotPending), w)
         else
           (let key = ''payments/'' @ show_uuid i @ ''/'' @ show_uuid newID
                        @ extensionFor (ci_ContentType input)
            in case fs_Put (ys_storage s) ctx key (ci_Reader input) (ci_Size input)
                      (ci_ContentType input) w of
                 (Inl err, w) \<Rightarrow> (Inl (App (WithCause ErrStorageUnavailable err)), w)
               | (Inr url, w) \<Rightarrow>
                   (case yr_Confirm (ys_payments s) ctx i url (ck_Now (ys_clock s) w) w of
                      (Inl err, w) \<Rightarrow> (Inl err, w)
                    | (Inr None, w) \<Rightarrow> (Inl (App ErrPaymentNotPending), w)
                    | (Inr (Some paid), w) \<Rightarrow> (Inr paid, w))))"

end
