(* ===== verification/ReportService.thy ===== *)
theory ReportService
  imports Ports
begin

text \<open>Package \<open>internal/core/service/report\<close>.\<close>

record 'w ReportService =
  rs_reports :: "'w ReportReader"
  rs_households :: "'w HouseholdRepository"

definition report_NewService ::
  "'w ReportReader \<Rightarrow> 'w HouseholdRepository \<Rightarrow> 'w ReportService" where
  "report_NewService reports households =
    \<lparr>rs_reports = reports, rs_households = households\<rparr>"

definition report_WasteSummary :: "'w ReportService \<Rightarrow> ctx \<Rightarrow> ('w, WasteSummary) act" where
  "report_WasteSummary s ctx w =
    (case rr_WasteSummary (rs_reports s) ctx w of
       (Inl err, w) \<Rightarrow> (Inl err, w)
     | (Inr counts, w) \<Rightarrow>
         (Inr \<lparr>ws_Counts = counts, ws_Total = foldl (\<lambda>n c. n + wc_Count c) 0 counts\<rparr>, w))"

definition report_PaymentSummary :: "'w ReportService \<Rightarrow> ctx \<Rightarrow> ('w, PaymentSummary) act" where
  "report_PaymentSummary s ctx w =
    (case rr_PaymentSummary (rs_reports s) ctx w of
       (Inl err, w) \<Rightarrow> (Inl err, w)
     | (Inr totals, w) \<Rightarrow>
         (let revenue = foldl (\<lambda>revenue t. if pt_Status t = PaymentPaid
                                           then revenue + pt_Amount t else revenue) 0 totals
          in (Inr \<lparr>py_Totals = totals, py_TotalRevenue = revenue\<rparr>, w)))"

definition report_HouseholdHistory ::
  "'w ReportService \<Rightarrow> ctx \<Rightarrow> uuid \<Rightarrow> ('w, HouseholdHistory) act" where
  "report_HouseholdHistory s ctx householdID w =
    (case hr_FindByID (rs_households s) ctx householdID w of
       (Inl err, w) \<Rightarrow> (Inl err, w)
     | (Inr household, w) \<Rightarrow>
         (case rr_HouseholdPickups (rs_reports s) ctx householdID w of
            (Inl err, w) \<Rightarrow> (Inl err, w)
          | (Inr pickups, w) \<Rightarrow>
              (case rr_HouseholdPayments (rs_reports s) ctx householdID w of
                 (Inl err, w) \<Rightarrow> (Inl err, w)
               | (Inr payments, w) \<Rightarrow>
                   (Inr \<lparr>hy_Household = household, hy_Pickups = pickups,
                         hy_Payments = payments\<rparr>, w))))"

end
