(* ===== verification/Text.thy ===== *)
theory Text
  imports Prelude
begin

text \<open>
  Go strings are bytes; \<open>range\<close>, \<open>strings.Map\<close> and \<open>strings.Fields\<close> read them as
  UTF-8. This theory has the decoder of \<open>unicode/utf8\<close> (an ill-formed byte decodes to
  U+FFFD with width 1), the encoder, the two character classes of package \<open>unicode\<close> that
  \<open>sanitizeText\<close> (\<open>internal/adapter/in/http/dto/helper.go\<close>) uses, and that function.
  Runes are natural numbers.
\<close>

section \<open>UTF-8\<close>

definition RuneError :: nat where "RuneError = 65533"

definition cont :: "nat \<Rightarrow> bool" where
  "cont b \<longleftrightarrow> 128 \<le> b \<and> b \<le> 191"

text \<open>The rune a byte sequence starts with and its width; the accepted ranges of the second byte
  depend on the first.\<close>

definition second_ok :: "nat \<Rightarrow> nat \<Rightarrow> bool" where
  "second_ok b0 b1 \<longleftrightarrow>
    (if b0 = 224 then 160 \<le> b1 \<and> b1 \<le> 191
     else if b0 = 237 then 128 \<le> b1 \<and> b1 \<le> 159
     else if b0 = 240 then 144 \<le> b1 \<and> b1 \<le> 191
     else if b0 = 244 then 128 \<le> b1 \<and> b1 \<le> 143
     else cont b1)"

fun decode_bytes :: "nat list \<Rightarrow> nat \<times> nat" where
  "decode_bytes [] = (RuneError, 0)"
| "decode_bytes (b0 # bs) =
    (if b0 < 128 then (b0, 1)
     else if 194 \<le> b0 \<and> b0 \<le> 223 then
       (case bs of
          b1 # _ \<Rightarrow> if cont b1 then ((b0 - 192) * 64 + (b1 - 128), 2) else (RuneError, 1)
        | _ \<Rightarrow> (RuneError, 1))
     else if 224 \<le> b0 \<and> b0 \<le> 239 then
       (case bs of
          b1 # b2 # _ \<Rightarrow>
            if second_ok b0 b1 \<and> cont b2
            then ((b0 - 224) * 4096 + (b1 - 128) * 64 + (b2 - 128), 3) else (RuneError, 1)
        | _ \<Rightarrow> (RuneError, 1))
     else if 240 \<le> b0 \<and> b0 \<le> 244 then
       (case bs of
          b1 # b2 # b3 # _ \<Rightarrow>
            if second_ok b0 b1 \<and> cont b2 \<and> cont b3
            then ((b0 - 240) * 262144 + (b1 - 128) * 4096 + (b2 - 128) * 64 + (b3 - 128), 4)
            else (RuneError, 1)
        | _ \<Rightarrow> (RuneError, 1))
     else (RuneError, 1))"

definition bytes :: "string \<Rightarrow> nat list" where
  "bytes s = map of_char s"

lemma decode_bytes_width_pos: "bs \<noteq> [] \<Longrightarrow> 0 < snd (decode_bytes bs)"
  by (cases bs) (auto split: list.splits)

text \<open>The runes of a string, each with its width.\<close>

function rune_widths :: "nat list \<Rightarrow> (nat \<times> nat) list" where
  "rune_widths bs =
    (if bs = [] then []
     else decode_bytes bs # rune_widths (drop (snd (decode_bytes bs)) bs))"
  by pat_completeness auto
termination
  by (relation "measure length") (simp_all add: decode_bytes_width_pos)

declare rune_widths.simps [simp del]

lemma rune_widths_Nil [simp]: "rune_widths [] = []"
  by (simp add: rune_widths.simps)

definition runes :: "string \<Rightarrow> nat list" where
  "runes s = map fst (rune_widths (bytes s))"

text \<open>Runes a string can hold: code points other than surrogates.\<close>

definition valid_rune :: "nat \<Rightarrow> bool" where
  "valid_rune r \<longleftrightarrow> r < 55296 \<or> (57344 \<le> r \<and> r < 1114112)"

definition encode_rune :: "nat \<Rightarrow> nat list" where
  "encode_rune r =
    (if r < 128 then [r]
     else if r < 2048 then [192 + r div 64, 128 + r mod 64]
     else if r < 65536 then [224 + r div 4096, 128 + r div 64 mod 64, 128 + r mod 64]
     else [240 + r div 262144, 128 + r div 4096 mod 64, 128 + r div 64 mod 64, 128 + r mod 64])"

definition utf8 :: "nat list \<Rightarrow> string" where
  "utf8 rs = map char_of (concat (map encode_rune rs))"

text \<open>\<open>utf8.ValidString\<close>: no byte decodes to the width-1 error.\<close>

definition ValidString :: "string \<Rightarrow> bool" where
  "ValidString s \<longleftrightarrow> (RuneError, 1) \<notin> set (rune_widths (bytes s))"

section \<open>Character classes\<close>

definition IsControl :: "nat \<Rightarrow> bool" where
  "IsControl r \<longleftrightarrow> r \<le> 31 \<or> (127 \<le> r \<and> r \<le> 159)"

definition IsSpace :: "nat \<Rightarrow> bool" where
  "IsSpace r \<longleftrightarrow>
     (9 \<le> r \<and> r \<le> 13) \<or> r = 32 \<or> r = 133 \<or> r = 160 \<or> r = 5760 \<or> (8192 \<le> r \<and> r \<le> 8202) \<or>
     r = 8232 \<or> r = 8233 \<or> r = 8239 \<or> r = 8287 \<or> r = 12288"

section \<open>strings.Map, strings.Fields, strings.Join\<close>

definition strings_Map :: "(nat \<Rightarrow> nat) \<Rightarrow> string \<Rightarrow> string" where
  "strings_Map f s = utf8 (map f (runes s))"

fun fields_aux :: "nat list \<Rightarrow> nat list \<Rightarrow> nat list list" where
  "fields_aux acc [] = (if acc = [] then [] else [rev acc])"
| "fields_aux acc (r # rs) =
     (if IsSpace r then (if acc = [] then fields_aux [] rs else rev acc # fields_aux [] rs)
      else fields_aux (r # acc) rs)"

definition Fields :: "string \<Rightarrow> string list" where
  "Fields s = map utf8 (fields_aux [] (runes s))"

fun Join :: "string list \<Rightarrow> string \<Rightarrow> string" where
  "Join [] sep = []"
| "Join [x] sep = x"
| "Join (x # y # ys) sep = x @ sep @ Join (y # ys) sep"

section \<open>sanitizeText\<close>

definition sanitizeText :: "string \<Rightarrow> string" where
  "sanitizeText s =
    (let s = strings_Map (\<lambda>r. if IsControl r then 32 else r) s
     in Join (Fields s) '' '')"

section \<open>ASCII\<close>

lemma rune_widths_ascii: "\<forall>b \<in> set bs. b < 128 \<Longrightarrow> rune_widths bs = map (\<lambda>b. (b, 1)) bs"
proof (induction bs)
  case (Cons b bs)
  then show ?case by (subst rune_widths.simps) simp
qed simp

definition ascii :: "string \<Rightarrow> bool" where
  "ascii s \<longleftrightarrow> (\<forall>b \<in> set (bytes s). 0 < b \<and> b < 128)"

lemma ascii_append [simp]: "ascii (s @ t) \<longleftrightarrow> ascii s \<and> ascii t"
  by (auto simp: ascii_def bytes_def)

lemma ascii_Nil [simp]: "ascii []"
  by (simp add: ascii_def bytes_def)

lemma ascii_Cons [simp]: "ascii (c # s) \<longleftrightarrow> 0 < (of_char c :: nat) \<and> (of_char c :: nat) < 128 \<and> ascii s"
  by (auto simp: ascii_def bytes_def)

lemma ascii_valid: "ascii s \<Longrightarrow> ValidString s"
  by (auto simp: ascii_def ValidString_def rune_widths_ascii RuneError_def)

section \<open>Decoding undoes encoding\<close>

lemma cont_mod [simp]: "cont (128 + r mod 64)"
proof -
  have "r mod 64 < 64" by simp
  then show ?thesis unfolding cont_def by linarith
qed

lemma second_ok_3:
  "q < 16 \<Longrightarrow> m < 64 \<Longrightarrow> (q = 0 \<Longrightarrow> 32 \<le> m) \<Longrightarrow> (q = 13 \<Longrightarrow> m < 32) \<Longrightarrow> second_ok (224 + q) (128 + m)"
  unfolding second_ok_def cont_def by auto

lemma second_ok_4:
  "q < 5 \<Longrightarrow> m < 64 \<Longrightarrow> (q = 0 \<Longrightarrow> 16 \<le> m) \<Longrightarrow> (q = 4 \<Longrightarrow> m < 16) \<Longrightarrow> second_ok (240 + q) (128 + m)"
  unfolding second_ok_def cont_def by auto

lemma decode_encode:
  assumes "valid_rune r"
  shows "decode_bytes (encode_rune r @ bs) = (r, length (encode_rune r))"
proof -
  consider "r < 128" | "128 \<le> r" "r < 2048" | "2048 \<le> r" "r < 65536" | "65536 \<le> r" "r < 1114112"
    using assms unfolding valid_rune_def by linarith
  then show ?thesis
  proof cases
    case 1
    then show ?thesis by (simp add: encode_rune_def)
  next
    case 2
    then have "192 + r div 64 \<le> 223" "194 \<le> 192 + r div 64" by auto
    with 2 show ?thesis by (simp add: encode_rune_def)
  next
    case 3
    then have b: "224 + r div 4096 \<le> 239" by auto
    have "64 * (r div 4096) + r div 64 mod 64 = r div 64"
      using mult_div_mod_eq [of 64 "r div 64"] by (simp add: div_mult2_eq [symmetric])
    then have "r div 4096 = 0 \<Longrightarrow> 32 \<le> r div 64 mod 64" "r div 4096 = 13 \<Longrightarrow> r div 64 mod 64 < 32"
      using 3 assms unfolding valid_rune_def by linarith+
    then have s: "second_ok (224 + r div 4096) (128 + r div 64 mod 64)"
      using 3 by (intro second_ok_3) auto
    have "r div 4096 * 4096 + r div 64 mod 64 * 64 + r mod 64 = r"
      using mod_mult2_eq [of r 64 64] div_mult_mod_eq [of r 4096] by simp
    with 3 b s show ?thesis by (simp add: encode_rune_def)
  next
    case 4
    then have b: "240 + r div 262144 \<le> 244" by auto
    have "64 * (r div 262144) + r div 4096 mod 64 = r div 4096"
      using mult_div_mod_eq [of 64 "r div 4096"] by (simp add: div_mult2_eq [symmetric])
    then have "r div 262144 = 0 \<Longrightarrow> 16 \<le> r div 4096 mod 64" "r div 262144 = 4 \<Longrightarrow> r div 4096 mod 64 < 16"
      using 4 by linarith+
    then have s: "second_ok (240 + r div 262144) (128 + r div 4096 mod 64)"
      using 4 by (intro second_ok_4) auto
    have "r div 262144 * 262144 + r div 4096 mod 64 * 4096 + r div 64 mod 64 * 64 + r mod 64 = r"
      using mod_mult2_eq [of r 64 64] mod_mult2_eq [of r 4096 64] div_mult_mod_eq [of r 262144]
      by simp
    with 4 b s show ?thesis by (simp add: encode_rune_def)
  qed
qed

lemma encode_rune_nonempty [simp]: "encode_rune r \<noteq> []"
  by (simp add: encode_rune_def)

lemma encode_rune_byte: "valid_rune r \<Longrightarrow> b \<in> set (encode_rune r) \<Longrightarrow> b < 256"
  by (auto simp: encode_rune_def valid_rune_def split: if_splits)

lemma rune_widths_encode:
  "\<forall>r \<in> set rs. valid_rune r \<Longrightarrow>
   rune_widths (concat (map encode_rune rs)) = map (\<lambda>r. (r, length (encode_rune r))) rs"
proof (induction rs)
  case Nil
  then show ?case by (simp add: rune_widths.simps)
next
  case (Cons r rs)
  then show ?case
    by (subst rune_widths.simps) (simp add: decode_encode)
qed

lemma bytes_utf8:
  "\<forall>r \<in> set rs. valid_rune r \<Longrightarrow> bytes (utf8 rs) = concat (map encode_rune rs)"
  unfolding bytes_def utf8_def map_map
  by (rule map_idI) (fastforce dest: encode_rune_byte)

lemma runes_utf8: "\<forall>r \<in> set rs. valid_rune r \<Longrightarrow> runes (utf8 rs) = rs"
  by (simp add: runes_def bytes_utf8 rune_widths_encode comp_def)

lemma ValidString_utf8: "\<forall>r \<in> set rs. valid_rune r \<Longrightarrow> ValidString (utf8 rs)"
  by (auto simp: ValidString_def bytes_utf8 rune_widths_encode RuneError_def encode_rune_def)

lemma valid_RuneError [simp]: "valid_rune RuneError"
  by (simp add: valid_rune_def RuneError_def)

lemma valid_width2: "194 \<le> b0 \<Longrightarrow> b0 \<le> 223 \<Longrightarrow> cont b1 \<Longrightarrow> valid_rune ((b0 - 192) * 64 + (b1 - 128))"
  unfolding valid_rune_def cont_def by linarith

lemma cont_cases:
  assumes "cont b" obtains c where "b = 128 + c" and "c < 64"
  using assms that [of "b - 128"] by (auto simp: cont_def)

lemma second_ok_cont: "second_ok b0 b1 \<Longrightarrow> cont b1"
  by (auto simp: second_ok_def cont_def split: if_splits)

lemma valid_width3:
  assumes "224 \<le> b0" "b0 \<le> 239" "second_ok b0 b1" "cont b2"
  shows "valid_rune ((b0 - 224) * 4096 + (b1 - 128) * 64 + (b2 - 128))"
proof -
  obtain a where a: "b0 = 224 + a" "a \<le> 15"
    using assms(1,2) le_Suc_ex by force
  obtain c where c: "b1 = 128 + c" "c < 64" using second_ok_cont [OF assms(3)] by (rule cont_cases)
  obtain d where d: "b2 = 128 + d" "d < 64" using assms(4) by (rule cont_cases)
  have "a = 13 \<Longrightarrow> c < 32" using assms(3) a c by (simp add: second_ok_def)
  then have "a * 4096 + c * 64 + d < 55296 \<or> 57344 \<le> a * 4096 + c * 64 + d"
    using c d by (cases "a < 13"; cases "a = 13") linarith+
  moreover have "a * 4096 + c * 64 + d < 1114112" using a c d by linarith
  ultimately show ?thesis using a c d unfolding valid_rune_def by simp
qed

lemma valid_width4:
  assumes "240 \<le> b0" "b0 \<le> 244" "second_ok b0 b1" "cont b2" "cont b3"
  shows "valid_rune ((b0 - 240) * 262144 + (b1 - 128) * 4096 + (b2 - 128) * 64 + (b3 - 128))"
proof -
  obtain a where a: "b0 = 240 + a" "a \<le> 4" using assms(1,2) le_Suc_ex by force
  obtain c where c: "b1 = 128 + c" "c < 64" using second_ok_cont [OF assms(3)] by (rule cont_cases)
  obtain d where d: "b2 = 128 + d" "d < 64" using assms(4) by (rule cont_cases)
  obtain e where e: "b3 = 128 + e" "e < 64" using assms(5) by (rule cont_cases)
  have "a = 0 \<Longrightarrow> 16 \<le> c" "a = 4 \<Longrightarrow> c < 16"
    using assms(3) a c by (simp_all add: second_ok_def)
  then have "57344 \<le> a * 262144 + c * 4096 + d * 64 + e"
    "a * 262144 + c * 4096 + d * 64 + e < 1114112"
    using a c d e by (cases "a = 0"; cases "a = 4"; linarith)+
  then show ?thesis using a c d e unfolding valid_rune_def by simp
qed

lemma decode_valid: "valid_rune (fst (decode_bytes bs))"
proof (cases bs)
  case (Cons b0 cs)
  have "b0 < 128 \<Longrightarrow> valid_rune b0" by (simp add: valid_rune_def)
  with Cons show ?thesis
    by (auto split: list.split intro: valid_width2 valid_width3 valid_width4)
qed simp

lemma rune_widths_valid: "\<forall>r \<in> fst ` set (rune_widths bs). valid_rune r"
proof (induction bs rule: rune_widths.induct)
  case (1 bs)
  then show ?case
    using decode_valid [of bs] by (cases "bs = []") (simp_all add: rune_widths.simps [of bs])
qed

lemma runes_valid: "\<forall>r \<in> set (runes s). valid_rune r"
  using rune_widths_valid by (auto simp: runes_def)

section \<open>Fields and joining, on runes\<close>

fun join_runes :: "nat list list \<Rightarrow> nat list" where
  "join_runes [] = []"
| "join_runes [x] = x"
| "join_runes (x # y # ys) = x @ 32 # join_runes (y # ys)"

definition word_ok :: "nat list \<Rightarrow> bool" where
  "word_ok f \<longleftrightarrow> f \<noteq> [] \<and> (\<forall>r \<in> set f. \<not> IsSpace r)"

lemma IsSpace_32 [simp]: "IsSpace 32"
  by (simp add: IsSpace_def)

lemma fields_aux_words:
  "f \<in> set (fields_aux acc rs) \<Longrightarrow> \<forall>r \<in> set acc. \<not> IsSpace r \<Longrightarrow>
   word_ok f \<and> set f \<subseteq> set acc \<union> set rs"
proof (induction rs arbitrary: acc)
  case Nil
  then show ?case by (auto simp: word_ok_def split: if_splits)
next
  case (Cons r rs)
  show ?case
  proof (cases "IsSpace r")
    case True
    with Cons.prems have "f = rev acc \<and> acc \<noteq> [] \<or> f \<in> set (fields_aux [] rs)"
      by (auto split: if_splits)
    with Cons.prems(2) Cons.IH [of "[]"] show ?thesis by (auto simp: word_ok_def)
  next
    case False
    with Cons.prems Cons.IH [of "r # acc"] show ?thesis by auto
  qed
qed

lemma fields_aux_word:
  "\<forall>r \<in> set f. \<not> IsSpace r \<Longrightarrow> fields_aux acc (f @ rs) = fields_aux (rev f @ acc) rs"
  by (induction f arbitrary: acc) auto

lemma fields_aux_join: "\<forall>f \<in> set fs. word_ok f \<Longrightarrow> fields_aux [] (join_runes fs) = fs"
proof (induction fs rule: join_runes.induct)
  case (2 x)
  then show ?case
    using fields_aux_word [of x "[]" "[]"] by (simp add: word_ok_def)
next
  case (3 x y ys)
  then show ?case by (simp add: fields_aux_word word_ok_def)
qed simp

lemma set_join_runes: "set (join_runes fs) \<subseteq> insert 32 (\<Union> (set ` set fs))"
  by (induction fs rule: join_runes.induct) auto

lemma utf8_append: "utf8 (xs @ ys) = utf8 xs @ utf8 ys"
  by (simp add: utf8_def)

lemma utf8_Cons_space: "utf8 (32 # rs) = '' '' @ utf8 rs"
proof -
  have "char_of (32 :: nat) = CHR '' ''" by code_simp
  then show ?thesis by (simp add: utf8_def encode_rune_def)
qed

lemma Join_utf8: "Join (map utf8 fs) '' '' = utf8 (join_runes fs)"
  by (induction fs rule: join_runes.induct)
    (simp_all add: utf8_append utf8_Cons_space, simp add: utf8_def)

section \<open>strings.TrimSpace\<close>

definition TrimSpace :: "string \<Rightarrow> string" where
  "TrimSpace s = utf8 (rev (dropWhile IsSpace (rev (dropWhile IsSpace (runes s)))))"

lemma runes_ascii: "ascii s \<Longrightarrow> runes s = bytes s"
  by (simp add: runes_def ascii_def rune_widths_ascii comp_def)

lemma utf8_small: "\<forall>r \<in> set rs. r < 128 \<Longrightarrow> utf8 rs = map char_of rs"
  by (induction rs) (auto simp: utf8_def encode_rune_def)

lemma TrimSpace_id:
  assumes "ascii s" and "\<not> IsSpace (of_char (hd s))" and "\<not> IsSpace (of_char (last s))" and "s \<noteq> []"
  shows "TrimSpace s = s"
proof -
  have d: "dropWhile P xs = xs" if "xs \<noteq> []" and "\<not> P (hd xs)" for P and xs :: "nat list"
    using that by (cases xs) auto
  have "dropWhile IsSpace (bytes s) = bytes s"
    using assms by (intro d) (simp_all add: bytes_def hd_map)
  moreover have "dropWhile IsSpace (rev (bytes s)) = rev (bytes s)"
    using assms by (intro d) (simp_all add: bytes_def hd_rev last_map)
  moreover have "utf8 (bytes s) = s"
    using assms(1) by (subst utf8_small) (auto simp: ascii_def bytes_def comp_def)
  ultimately show ?thesis by (simp add: TrimSpace_def runes_ascii [OF assms(1)])
qed

section \<open>What sanitizeText returns\<close>

definition clean_words :: "string \<Rightarrow> nat list list" where
  "clean_words s = fields_aux [] (map (\<lambda>r. if IsControl r then 32 else r) (runes s))"

lemma valid_32 [simp]: "valid_rune 32"
  by (simp add: valid_rune_def)

lemma sanitizeText_utf8: "sanitizeText s = utf8 (join_runes (clean_words s))"
proof -
  have "\<forall>r \<in> set (map (\<lambda>r. if IsControl r then 32 else r) (runes s)). valid_rune r"
    using runes_valid [of s] by auto
  then show ?thesis
    by (simp add: sanitizeText_def strings_Map_def Fields_def runes_utf8 Join_utf8 clean_words_def)
qed

lemma clean_words_ok:
  assumes "f \<in> set (clean_words s)"
  shows "word_ok f \<and> (\<forall>r \<in> set f. \<not> IsControl r \<and> valid_rune r)"
proof -
  let ?rs = "map (\<lambda>r. if IsControl r then 32 else r) (runes s)"
  have ok: "word_ok f" and "set f \<subseteq> set ?rs"
    using fields_aux_words [of f "[]" ?rs] assms by (simp_all add: clean_words_def)
  moreover have "\<forall>r \<in> set ?rs. (\<not> IsControl r \<or> r = 32) \<and> valid_rune r"
    using runes_valid [of s] by auto
  ultimately show ?thesis using ok by (fastforce simp: word_ok_def)
qed

lemma join_clean_valid: "\<forall>r \<in> set (join_runes (clean_words s)). valid_rune r"
  using set_join_runes [of "clean_words s"] clean_words_ok [of _ s] by fastforce

lemma runes_sanitizeText: "runes (sanitizeText s) = join_runes (clean_words s)"
  by (simp add: sanitizeText_utf8 runes_utf8 join_clean_valid)

lemma sanitizeText_no_control: "r \<in> set (runes (sanitizeText s)) \<Longrightarrow> \<not> IsControl r"
  using set_join_runes [of "clean_words s"] clean_words_ok [of _ s]
  by (fastforce simp: runes_sanitizeText IsControl_def)

lemma encode_rune_nonzero: "0 < r \<Longrightarrow> b \<in> set (encode_rune r) \<Longrightarrow> 0 < b"
  by (auto simp: encode_rune_def split: if_splits)

lemma sanitizeText_no_NUL: "CHR 0x00 \<notin> set (sanitizeText s)"
proof
  assume nul: "CHR 0x00 \<in> set (sanitizeText s)"
  let ?rs = "join_runes (clean_words s)"
  have "(of_char (CHR 0x00) :: nat) \<in> set (bytes (sanitizeText s))"
    unfolding bytes_def set_map using nul by (rule imageI)
  moreover have "bytes (sanitizeText s) = concat (map encode_rune ?rs)"
    unfolding sanitizeText_utf8 by (rule bytes_utf8 [OF join_clean_valid])
  ultimately obtain r where "r \<in> set ?rs" "0 \<in> set (encode_rune r)"
    by auto
  then have "r = 0" using encode_rune_nonzero [of r 0] by auto
  with \<open>r \<in> set ?rs\<close> have "\<not> IsControl 0"
    using sanitizeText_no_control [of 0 s] by (simp add: runes_sanitizeText)
  then show False by (simp add: IsControl_def)
qed

text \<open>
  The sanitised text is a sequence of non-empty words separated by single spaces; no
  word holds white space or a control character, so the text has no control character, no
  leading or trailing space and no run of spaces.
\<close>

theorem sanitizeText_words:
  "\<exists>ws. runes (sanitizeText s) = join_runes ws \<and>
        list_all (\<lambda>f. f \<noteq> [] \<and> list_all (\<lambda>r. \<not> IsSpace r \<and> \<not> IsControl r) f) ws"
  using clean_words_ok [of _ s]
  by (intro exI [of _ "clean_words s"]) (auto simp: runes_sanitizeText word_ok_def list_all_iff)

text \<open>Sanitising twice is sanitising once.\<close>

theorem sanitizeText_idem: "sanitizeText (sanitizeText s) = sanitizeText s"
proof -
  have "map (\<lambda>r. if IsControl r then 32 else r) (runes (sanitizeText s)) = runes (sanitizeText s)"
    using sanitizeText_no_control by (auto intro: map_idI)
  then have "clean_words (sanitizeText s) = clean_words s"
    unfolding clean_words_def [of "sanitizeText s"] runes_sanitizeText
    using fields_aux_join [of "clean_words s"] clean_words_ok by metis
  then show ?thesis by (simp add: sanitizeText_utf8)
qed

end
