(* ===== verification/Schema.thy ===== *)
theory Schema
  imports Domain Pagination Text
begin

text \<open>
  The database of \<open>db/migrations/0001_init.up.sql\<close>: three tables as lists of rows, in
  the form in which the adapter's row structs (\<open>internal/adapter/out/postgres\<close>) scan them,
  the constraints the migration declares, and the conversions of rows to entities. SQL is part
  of the source (the migration and the query strings), and its constructs are given the meaning
  PostgreSQL documents for them; a statement that violates a constraint fails with its SQLSTATE
  and changes nothing. A \<open>numeric(14,2)\<close> column holds an integer number of hundredths.
\<close>

section \<open>Rows\<close>

record householdRow =
  hw_id :: uuid
  hw_owner_name :: string
  hw_address :: string
  hw_created_at :: instant
  hw_updated_at :: instant

record pickupRow =
  pw_id :: uuid
  pw_household_id :: uuid
  pw_type :: string
  pw_status :: string
  pw_pickup_date :: "instant option"
  pw_safety_check :: bool
  pw_created_at :: instant
  pw_updated_at :: instant

record paymentRow =
  yw_id :: uuid
  yw_household_id :: uuid
  yw_waste_id :: uuid
  yw_amount :: int
  yw_payment_date :: "instant option"
  yw_status :: string
  yw_proof_file_url :: "string option"
  yw_created_at :: instant
  yw_updated_at :: instant

text \<open>
  The tables, and \<open>tb_ties\<close>, the order in which the next query delivers rows that its \<open>ORDER BY\<close> does not
  tell apart. SQL promises nothing of it; it may be another one for every query.
\<close>

record db =
  tb_households :: "householdRow list"
  tb_pickups :: "pickupRow list"
  tb_payments :: "paymentRow list"
  tb_ties :: "uuid \<Rightarrow> nat"

definition empty_db :: db where
  "empty_db = \<lparr>tb_households = [], tb_pickups = [], tb_payments = [], tb_ties = (\<lambda>_. 0)\<rparr>"

type_synonym 'a stmt = "db \<Rightarrow> string + 'a \<times> db"

section \<open>Numerics\<close>

text \<open>\<open>pgtype.Numeric\<close>, as far as the adapter reads it, and what scanning a
  \<open>numeric(14,2)\<close> column delivers.\<close>

record Numeric =
  nm_Int :: "int option"
  nm_Exp :: int
  nm_Valid :: bool

definition scan_numeric :: "int \<Rightarrow> Numeric" where
  "scan_numeric c = \<lparr>nm_Int = Some c, nm_Exp = - 2, nm_Valid = True\<rparr>"

text \<open>\<open>decimal.NewFromBigInt(value, exp)\<close> denotes \<open>value * 10 ^ exp\<close>.\<close>

definition NewFromBigInt :: "int \<Rightarrow> int \<Rightarrow> decimal" where
  "NewFromBigInt v e = (if 0 \<le> e then of_int v * 10 ^ nat e else of_int v / 10 ^ nat (- e))"

definition numericToDecimal :: "Numeric \<Rightarrow> decimal" where
  "numericToDecimal n =
    (if \<not> nm_Valid n then 0
     else (case nm_Int n of None \<Rightarrow> 0 | Some v \<Rightarrow> NewFromBigInt v (nm_Exp n)))"

text \<open>Storing a decimal in a \<open>numeric(14,2)\<close> column: rounded to hundredths, half away from
  zero; more than 12 digits before the point are an error.\<close>

definition round_half_away :: "decimal \<Rightarrow> int" where
  "round_half_away x = (if 0 \<le> x then \<lfloor>x + 1/2\<rfloor> else \<lceil>x - 1/2\<rceil>)"

definition hundredths :: "decimal \<Rightarrow> int" where
  "hundredths a = round_half_away (a * 100)"

definition fits_numeric_14_2 :: "decimal \<Rightarrow> bool" where
  "fits_numeric_14_2 a \<longleftrightarrow> \<bar>hundredths a\<bar> < 10 ^ 14"

section \<open>Rows as entities\<close>

definition householdRow_toDomain :: "householdRow \<Rightarrow> Household" where
  "householdRow_toDomain r =
    \<lparr>hh_ID = hw_id r, hh_OwnerName = hw_owner_name r, hh_Address = hw_address r,
     hh_CreatedAt = hw_created_at r, hh_UpdatedAt = hw_updated_at r\<rparr>"

definition pickupRow_toDomain :: "pickupRow \<Rightarrow> Pickup" where
  "pickupRow_toDomain r =
    \<lparr>pk_ID = pw_id r, pk_HouseholdID = pw_household_id r, pk_Type = pw_type r,
     pk_Status = pw_status r, pk_PickupDate = pw_pickup_date r,
     pk_SafetyCheck = pw_safety_check r, pk_CreatedAt = pw_created_at r,
     pk_UpdatedAt = pw_updated_at r\<rparr>"

definition paymentRow_toDomain :: "paymentRow \<Rightarrow> Payment" where
  "paymentRow_toDomain r =
    \<lparr>pm_ID = yw_id r, pm_HouseholdID = yw_household_id r, pm_WasteID = yw_waste_id r,
     pm_Amount = numericToDecimal (scan_numeric (yw_amount r)),
     pm_PaymentDate = yw_payment_date r, pm_Status = yw_status r,
     pm_ProofFileURL = yw_proof_file_url r, pm_CreatedAt = yw_created_at r,
     pm_UpdatedAt = yw_updated_at r\<rparr>"

section \<open>Constraints\<close>

text \<open>A \<open>text\<close> value must be well-formed UTF-8 without the NUL byte.\<close>

definition pg_text :: "string \<Rightarrow> bool" where
  "pg_text s \<longleftrightarrow> ValidString s \<and> CHR 0x00 \<notin> set s"

definition check_pickup_type :: "string \<Rightarrow> bool" where
  "check_pickup_type t \<longleftrightarrow> t \<in> set [''organic'', ''plastic'', ''paper'', ''electronic'']"

definition check_pickup_status :: "string \<Rightarrow> bool" where
  "check_pickup_status s \<longleftrightarrow> s \<in> set [''pending'', ''scheduled'', ''completed'', ''canceled'']"

definition check_payment_status :: "string \<Rightarrow> bool" where
  "check_payment_status s \<longleftrightarrow> s \<in> set [''pending'', ''paid'', ''failed'']"

text \<open>SQLSTATEs.\<close>

definition unique_violation :: string where "unique_violation = ''23505''"
definition foreign_key_violation :: string where "foreign_key_violation = ''23503''"
definition check_violation :: string where "check_violation = ''23514''"
definition invalid_text :: string where "invalid_text = ''22021''"
definition numeric_out_of_range :: string where "numeric_out_of_range = ''22003''"
definition negative_limit :: string where "negative_limit = ''2201W''"
definition negative_offset :: string where "negative_offset = ''2201X''"
definition in_failed_transaction :: string where "in_failed_transaction = ''25P02''"

lemmas sqlstate_defs =
  unique_violation_def foreign_key_violation_def check_violation_def invalid_text_def
  numeric_out_of_range_def negative_limit_def negative_offset_def in_failed_transaction_def

text \<open>
  What the migration guarantees of every state of the tables: keys are unique (of payments also
  \<open>waste_id\<close>), references resolve, and the checked columns hold listed values.
\<close>

definition schema_ok :: "db \<Rightarrow> bool" where
  "schema_ok d \<longleftrightarrow>
     distinct (map hw_id (tb_households d)) \<and>
     distinct (map pw_id (tb_pickups d)) \<and>
     distinct (map yw_id (tb_payments d)) \<and>
     distinct (map yw_waste_id (tb_payments d)) \<and>
     (\<forall>p \<in> set (tb_pickups d). pw_household_id p \<in> hw_id ` set (tb_households d) \<and>
        check_pickup_type (pw_type p) \<and> check_pickup_status (pw_status p)) \<and>
     (\<forall>y \<in> set (tb_payments d). yw_household_id y \<in> hw_id ` set (tb_households d) \<and>
        yw_waste_id y \<in> pw_id ` set (tb_pickups d) \<and> check_payment_status (yw_status y) \<and>
        \<bar>yw_amount y\<bar> < 10 ^ 14)"

section \<open>ORDER BY, LIMIT and OFFSET\<close>

text \<open>\<open>ORDER BY key DESC\<close>: rows with equal keys come in the order that \<open>tie\<close> gives them.\<close>

definition order_desc :: "('r \<Rightarrow> instant) \<Rightarrow> ('r \<Rightarrow> nat) \<Rightarrow> 'r list \<Rightarrow> 'r list" where
  "order_desc key tie rs = sort_key (\<lambda>r. - key r) (sort_key tie rs)"

definition limit_offset :: "gint \<Rightarrow> gint \<Rightarrow> 'r list \<Rightarrow> string + 'r list" where
  "limit_offset lmt off rs =
    (if sint off < 0 then Inl negative_offset
     else if sint lmt < 0 then Inl negative_limit
     else Inr (take (nat (sint lmt)) (drop (nat (sint off)) rs)))"

section \<open>Lemmas\<close>

lemma numericToDecimal_scan [simp]: "numericToDecimal (scan_numeric c) = of_int c / 100"
  by (simp add: numericToDecimal_def scan_numeric_def NewFromBigInt_def)

lemma round_half_away_of_int [simp]: "round_half_away (of_int n) = n"
  by (auto simp: round_half_away_def floor_eq_iff ceiling_eq_iff)

lemma hundredths_of_int [simp]: "hundredths (of_int n / 100) = n" "hundredths (of_int n) = n * 100"
  using round_half_away_of_int [of "n * 100"] by (simp_all add: hundredths_def)

lemma hundredths_numeral [simp]: "hundredths (numeral k) = numeral k * 100"
  using hundredths_of_int(2) [of "numeral k"] by simp

lemma toDomain_sel [simp]:
  "pk_ID (pickupRow_toDomain r) = pw_id r"
  "pk_HouseholdID (pickupRow_toDomain r) = pw_household_id r"
  "pk_Type (pickupRow_toDomain r) = pw_type r"
  "pk_Status (pickupRow_toDomain r) = pw_status r"
  "pk_PickupDate (pickupRow_toDomain r) = pw_pickup_date r"
  "pk_SafetyCheck (pickupRow_toDomain r) = pw_safety_check r"
  "pk_CreatedAt (pickupRow_toDomain r) = pw_created_at r"
  "pk_UpdatedAt (pickupRow_toDomain r) = pw_updated_at r"
  "pm_ID (paymentRow_toDomain y) = yw_id y"
  "pm_HouseholdID (paymentRow_toDomain y) = yw_household_id y"
  "pm_WasteID (paymentRow_toDomain y) = yw_waste_id y"
  "pm_Amount (paymentRow_toDomain y) = of_int (yw_amount y) / 100"
  "pm_PaymentDate (paymentRow_toDomain y) = yw_payment_date y"
  "pm_Status (paymentRow_toDomain y) = yw_status y"
  "pm_ProofFileURL (paymentRow_toDomain y) = yw_proof_file_url y"
  "pm_CreatedAt (paymentRow_toDomain y) = yw_created_at y"
  "pm_UpdatedAt (paymentRow_toDomain y) = yw_updated_at y"
  "hh_ID (householdRow_toDomain h) = hw_id h"
  "hh_OwnerName (householdRow_toDomain h) = hw_owner_name h"
  "hh_Address (householdRow_toDomain h) = hw_address h"
  by (simp_all add: pickupRow_toDomain_def paymentRow_toDomain_def householdRow_toDomain_def)

lemma pg_text_ascii: "ascii s \<Longrightarrow> pg_text s"
proof -
  assume a: "ascii s"
  then have "CHR 0x00 \<notin> set s"
    by (force simp: ascii_def bytes_def)
  with ascii_valid [OF a] show ?thesis by (simp add: pg_text_def)
qed

lemma pg_text_consts [simp]:
  "pg_text PickupPending" "pg_text PickupScheduled" "pg_text PickupCompleted" "pg_text PickupCanceled"
  "pg_text PaymentPending" "pg_text PaymentPaid" "pg_text PaymentFailed"
  "pg_text PickupOrganic" "pg_text PickupPlastic" "pg_text PickupPaper" "pg_text PickupElectronic"
  by (rule pg_text_ascii, simp add: status_defs type_defs)+

lemma check_pickup_status_consts [simp]:
  "check_pickup_status PickupPending" "check_pickup_status PickupScheduled"
  "check_pickup_status PickupCompleted" "check_pickup_status PickupCanceled"
  by (simp_all add: check_pickup_status_def status_defs)

lemma check_payment_status_consts [simp]:
  "check_payment_status PaymentPending" "check_payment_status PaymentPaid"
  "check_payment_status PaymentFailed"
  by (simp_all add: check_payment_status_def status_defs)

lemma check_pickup_type_Valid: "check_pickup_type t = PickupType_Valid t"
  by (simp add: check_pickup_type_def PickupType_Valid_def type_defs)

lemma set_order_desc [simp]: "set (order_desc key tie rs) = set rs"
  by (simp add: order_desc_def)

lemma length_order_desc [simp]: "length (order_desc key tie rs) = length rs"
  by (simp add: order_desc_def)

lemma schema_ok_ties [simp]: "schema_ok (d\<lparr>tb_ties := f\<rparr>) = schema_ok d"
  by (simp add: schema_ok_def)

lemma schema_ok_empty [simp]: "schema_ok empty_db"
  by (simp add: schema_ok_def empty_db_def)

lemma schema_okD:
  assumes "schema_ok d"
  shows "distinct (map hw_id (tb_households d))" "distinct (map pw_id (tb_pickups d))"
    "distinct (map yw_id (tb_payments d))" "distinct (map yw_waste_id (tb_payments d))"
    "p \<in> set (tb_pickups d) \<Longrightarrow> pw_household_id p \<in> hw_id ` set (tb_households d)"
    "y \<in> set (tb_payments d) \<Longrightarrow> yw_waste_id y \<in> pw_id ` set (tb_pickups d)"
    "y \<in> set (tb_payments d) \<Longrightarrow> yw_household_id y \<in> hw_id ` set (tb_households d)"
  using assms by (auto simp: schema_ok_def)

lemma schema_ok_add_household:
  "schema_ok d \<Longrightarrow> hw_id r \<notin> hw_id ` set (tb_households d) \<Longrightarrow>
   schema_ok (d\<lparr>tb_households := tb_households d @ [r]\<rparr>)"
  by (auto simp: schema_ok_def)

lemma schema_ok_remove_household:
  "schema_ok d \<Longrightarrow> \<forall>p \<in> set (tb_pickups d). pw_household_id p \<noteq> i \<Longrightarrow>
   \<forall>y \<in> set (tb_payments d). yw_household_id y \<noteq> i \<Longrightarrow>
   schema_ok (d\<lparr>tb_households := filter (\<lambda>h. hw_id h \<noteq> i) (tb_households d)\<rparr>)"
  by (force simp: schema_ok_def distinct_map_filter image_iff)

lemma schema_ok_add_pickup:
  "schema_ok d \<Longrightarrow> pw_id r \<notin> pw_id ` set (tb_pickups d) \<Longrightarrow>
   pw_household_id r \<in> hw_id ` set (tb_households d) \<Longrightarrow> check_pickup_type (pw_type r) \<Longrightarrow>
   check_pickup_status (pw_status r) \<Longrightarrow> schema_ok (d\<lparr>tb_pickups := tb_pickups d @ [r]\<rparr>)"
  by (auto simp: schema_ok_def)

lemma schema_ok_add_payment:
  "schema_ok d \<Longrightarrow> yw_id r \<notin> yw_id ` set (tb_payments d) \<Longrightarrow>
   yw_waste_id r \<notin> yw_waste_id ` set (tb_payments d) \<Longrightarrow>
   yw_household_id r \<in> hw_id ` set (tb_households d) \<Longrightarrow>
   yw_waste_id r \<in> pw_id ` set (tb_pickups d) \<Longrightarrow> check_payment_status (yw_status r) \<Longrightarrow>
   \<bar>yw_amount r\<bar> < 10 ^ 14 \<Longrightarrow> schema_ok (d\<lparr>tb_payments := tb_payments d @ [r]\<rparr>)"
  by (auto simp: schema_ok_def)

text \<open>An update that keeps the columns the other tables refer to, and sets a listed status.\<close>

lemma schema_ok_update_pickups:
  assumes "schema_ok d"
    and "\<And>r. P r \<Longrightarrow> pw_id (f r) = pw_id r \<and> pw_household_id (f r) = pw_household_id r \<and>
      pw_type (f r) = pw_type r \<and> check_pickup_status (pw_status (f r))"
  shows "schema_ok (d\<lparr>tb_pickups := update_where P f (tb_pickups d)\<rparr>)"
proof -
  have "\<forall>p \<in> set (update_where P f (tb_pickups d)). pw_household_id p \<in> hw_id ` set (tb_households d) \<and>
      check_pickup_type (pw_type p) \<and> check_pickup_status (pw_status p)"
    using assms by (intro ball_update_where) (auto simp: schema_ok_def)
  moreover have "map pw_id (update_where P f (tb_pickups d)) = map pw_id (tb_pickups d)"
      "pw_id ` set (update_where P f (tb_pickups d)) = pw_id ` set (tb_pickups d)"
    using assms(2) by (simp_all add: map_update_where image_update_where)
  ultimately show ?thesis using assms(1) by (simp add: schema_ok_def)
qed

lemma schema_ok_update_payments:
  assumes "schema_ok d"
    and "\<And>r. P r \<Longrightarrow> yw_id (f r) = yw_id r \<and> yw_household_id (f r) = yw_household_id r \<and>
      yw_waste_id (f r) = yw_waste_id r \<and> yw_amount (f r) = yw_amount r \<and>
      check_payment_status (yw_status (f r))"
  shows "schema_ok (d\<lparr>tb_payments := update_where P f (tb_payments d)\<rparr>)"
proof -
  have "\<forall>y \<in> set (update_where P f (tb_payments d)). yw_household_id y \<in> hw_id ` set (tb_households d) \<and>
      yw_waste_id y \<in> pw_id ` set (tb_pickups d) \<and> check_payment_status (yw_status y) \<and>
      \<bar>yw_amount y\<bar> < 10 ^ 14"
    using assms by (intro ball_update_where) (auto simp: schema_ok_def)
  moreover have "map yw_id (update_where P f (tb_payments d)) = map yw_id (tb_payments d)"
      "map yw_waste_id (update_where P f (tb_payments d)) = map yw_waste_id (tb_payments d)"
    using assms(2) by (simp_all add: map_update_where)
  ultimately show ?thesis using assms(1) by (simp add: schema_ok_def)
qed

text \<open>
  The result of \<open>sanitizeText\<close> is always text the database accepts: well-formed
  UTF-8 without NUL, whatever bytes the request had.
\<close>

theorem sanitized_is_storable: "pg_text (sanitizeText s)"
  using ValidString_utf8 [OF join_clean_valid, of s] sanitizeText_no_NUL
  by (simp add: pg_text_def flip: sanitizeText_utf8)

end
