(* ===== verification/Store.thy ===== *)
theory Store
  imports Schema Ports
begin

text \<open>
  The abstract specification: what the service promises, over finite maps of entities. The
  first part says what the tables stand for, the second what one repository method does to it,
  the third what one use case does. An operation returns its error, and then changes nothing,
  or its result and the new store.
\<close>

record store =
  st_now :: instant
  st_households :: "uuid \<rightharpoonup> Household"
  st_pickups :: "uuid \<rightharpoonup> Pickup"
  st_payments :: "uuid \<rightharpoonup> Payment"

type_synonym 'a spec = "store \<Rightarrow> go_error + 'a \<times> store"

definition household_map :: "db \<Rightarrow> uuid \<rightharpoonup> Household" where
  "household_map d i = map_option householdRow_toDomain (lookup_by hw_id (tb_households d) i)"

definition pickup_map :: "db \<Rightarrow> uuid \<rightharpoonup> Pickup" where
  "pickup_map d i = map_option pickupRow_toDomain (lookup_by pw_id (tb_pickups d) i)"

definition payment_map :: "db \<Rightarrow> uuid \<rightharpoonup> Payment" where
  "payment_map d i = map_option paymentRow_toDomain (lookup_by yw_id (tb_payments d) i)"

definition store_of :: "instant \<Rightarrow> db \<Rightarrow> store" where
  "store_of now d =
    \<lparr>st_now = now, st_households = household_map d, st_pickups = pickup_map d,
     st_payments = payment_map d\<rparr>"

text \<open>The error of a statement the database rejects for a reason no use case names.\<close>

definition database_error :: "string \<Rightarrow> go_error" where
  "database_error code = App (WithCause (Internal CodeInternal ''database error'') (PgError code))"

text \<open>A stored amount has two decimals.\<close>

definition cents :: "decimal \<Rightarrow> decimal" where
  "cents a = of_int (hundredths a) / 100"

section \<open>Repository methods\<close>

definition find_in :: "(store \<Rightarrow> uuid \<rightharpoonup> 'e) \<Rightarrow> app_error \<Rightarrow> uuid \<Rightarrow> 'e spec" where
  "find_in tbl missing i s =
    (case tbl s i of None \<Rightarrow> Inl (App missing) | Some e \<Rightarrow> Inr (e, s))"

definition add_household :: "Household \<Rightarrow> unit spec" where
  "add_household h s =
    (if \<not> pg_text (hh_OwnerName h) \<or> \<not> pg_text (hh_Address h) then Inl (database_error invalid_text)
     else if hh_ID h \<in> dom (st_households s) then Inl (database_error unique_violation)
     else Inr ((), s\<lparr>st_households := (st_households s)(hh_ID h \<mapsto> h)\<rparr>))"

definition remove_household :: "uuid \<Rightarrow> unit spec" where
  "remove_household i s =
    (if i \<notin> dom (st_households s) then Inl (App ErrHouseholdNotFound)
     else if (\<exists>p \<in> ran (st_pickups s). pk_HouseholdID p = i) \<or>
             (\<exists>y \<in> ran (st_payments s). pm_HouseholdID y = i)
     then Inl (App ErrHouseholdHasDependents)
     else Inr ((), s\<lparr>st_households := (st_households s)(i := None)\<rparr>))"

definition add_pickup :: "Pickup \<Rightarrow> unit spec" where
  "add_pickup p s =
    (if \<not> pg_text (pk_Type p) \<or> \<not> pg_text (pk_Status p) then Inl (database_error invalid_text)
     else if \<not> PickupType_Valid (pk_Type p) \<or> \<not> check_pickup_status (pk_Status p)
     then Inl (database_error check_violation)
     else if pk_ID p \<in> dom (st_pickups s) then Inl (database_error unique_violation)
     else if pk_HouseholdID p \<notin> dom (st_households s) then Inl (App ErrHouseholdNotFound)
     else Inr ((), s\<lparr>st_pickups := (st_pickups s)(pk_ID p \<mapsto> p)\<rparr>))"

definition change_pickup ::
  "uuid \<Rightarrow> (Pickup \<Rightarrow> bool) \<Rightarrow> (Pickup \<Rightarrow> Pickup) \<Rightarrow> Pickup option spec" where
  "change_pickup i guard f s =
    (case st_pickups s i of
       Some p \<Rightarrow> if guard p then Inr (Some (f p), s\<lparr>st_pickups := (st_pickups s)(i \<mapsto> f p)\<rparr>)
                 else Inr (None, s)
     | None \<Rightarrow> Inr (None, s))"

definition has_pending :: "uuid \<Rightarrow> bool spec" where
  "has_pending h s =
    Inr (\<exists>y \<in> ran (st_payments s). pm_HouseholdID y = h \<and> pm_Status y = PaymentPending, s)"

definition add_payment :: "Payment \<Rightarrow> unit spec" where
  "add_payment y s =
    (if \<not> pg_text (pm_Status y) \<or>
        (case pm_ProofFileURL y of None \<Rightarrow> False | Some u \<Rightarrow> \<not> pg_text u)
     then Inl (database_error invalid_text)
     else if \<not> fits_numeric_14_2 (pm_Amount y) then Inl (database_error numeric_out_of_range)
     else if \<not> check_payment_status (pm_Status y) then Inl (database_error check_violation)
     else if pm_ID y \<in> dom (st_payments s) \<or> (\<exists>z \<in> ran (st_payments s). pm_WasteID z = pm_WasteID y)
     then Inl (App ErrPaymentAlreadyExists)
     else if pm_HouseholdID y \<notin> dom (st_households s) \<or> pm_WasteID y \<notin> dom (st_pickups s)
     then Inl (database_error foreign_key_violation)
     else Inr ((), s\<lparr>st_payments :=
            (st_payments s)(pm_ID y \<mapsto> y\<lparr>pm_Amount := cents (pm_Amount y)\<rparr>)\<rparr>))"

definition confirm_payment :: "uuid \<Rightarrow> string \<Rightarrow> instant \<Rightarrow> Payment option spec" where
  "confirm_payment i url now s =
    (if \<not> pg_text url then Inl (database_error invalid_text)
     else (case st_payments s i of
             Some y \<Rightarrow>
               if pm_Status y = PaymentPending
               then let z = y\<lparr>pm_Status := PaymentPaid, pm_ProofFileURL := Some url,
                              pm_PaymentDate := Some now, pm_UpdatedAt := now\<rparr>
                    in Inr (Some z, s\<lparr>st_payments := (st_payments s)(i \<mapsto> z)\<rparr>)
               else Inr (None, s)
           | None \<Rightarrow> Inr (None, s)))"

definition stale :: "instant \<Rightarrow> Pickup \<Rightarrow> bool" where
  "stale olderThan p \<longleftrightarrow> pk_Type p = PickupOrganic \<and>
     pk_Status p \<in> {PickupPending, PickupScheduled} \<and> pk_CreatedAt p < olderThan"

definition canceled :: "instant \<Rightarrow> Pickup \<Rightarrow> Pickup" where
  "canceled now p = p\<lparr>pk_Status := PickupCanceled, pk_UpdatedAt := now\<rparr>"

definition cancel_stale :: "instant \<Rightarrow> instant \<Rightarrow> nat spec" where
  "cancel_stale olderThan now s =
    Inr (card {i. \<exists>p. st_pickups s i = Some p \<and> stale olderThan p},
         s\<lparr>st_pickups := (\<lambda>i. map_option (\<lambda>p. if stale olderThan p then canceled now p else p)
                               (st_pickups s i))\<rparr>)"

section \<open>Use cases\<close>

definition spec_CreateHousehold :: "CreateHouseholdCommand \<Rightarrow> uuid \<Rightarrow> Household spec" where
  "spec_CreateHousehold cmd newID s =
    (let h = \<lparr>hh_ID = newID, hh_OwnerName = ch_OwnerName cmd, hh_Address = ch_Address cmd,
              hh_CreatedAt = st_now s, hh_UpdatedAt = st_now s\<rparr>
     in if \<not> pg_text (ch_OwnerName cmd) \<or> \<not> pg_text (ch_Address cmd)
        then Inl (database_error invalid_text)
        else if newID \<in> dom (st_households s) then Inl (database_error unique_violation)
        else Inr (h, s\<lparr>st_households := (st_households s)(newID \<mapsto> h)\<rparr>))"

definition spec_CreatePickup :: "CreatePickupCommand \<Rightarrow> uuid \<Rightarrow> Pickup spec" where
  "spec_CreatePickup cmd newID s =
    (let p = \<lparr>pk_ID = newID, pk_HouseholdID = cp_HouseholdID cmd, pk_Type = cp_Type cmd,
              pk_Status = PickupPending, pk_PickupDate = None, pk_SafetyCheck = cp_SafetyCheck cmd,
              pk_CreatedAt = st_now s, pk_UpdatedAt = st_now s\<rparr>
     in if \<exists>y \<in> ran (st_payments s). pm_HouseholdID y = cp_HouseholdID cmd \<and> pm_Status y = PaymentPending
        then Inl (App ErrHouseholdHasPendingPayment)
        else if \<not> pg_text (cp_Type cmd) then Inl (database_error invalid_text)
        else if \<not> PickupType_Valid (cp_Type cmd) then Inl (database_error check_violation)
        else if newID \<in> dom (st_pickups s) then Inl (database_error unique_violation)
        else if cp_HouseholdID cmd \<notin> dom (st_households s) then Inl (App ErrHouseholdNotFound)
        else Inr (p, s\<lparr>st_pickups := (st_pickups s)(newID \<mapsto> p)\<rparr>))"

definition spec_SchedulePickup :: "uuid \<Rightarrow> instant \<Rightarrow> Pickup spec" where
  "spec_SchedulePickup i date s =
    (case st_pickups s i of
       None \<Rightarrow> Inl (App ErrPickupNotFound)
     | Some p \<Rightarrow>
         (case CanSchedule p of
            Some e \<Rightarrow> Inl (App e)
          | None \<Rightarrow>
              let q = p\<lparr>pk_Status := PickupScheduled, pk_PickupDate := Some date,
                        pk_UpdatedAt := st_now s\<rparr>
              in Inr (q, s\<lparr>st_pickups := (st_pickups s)(i \<mapsto> q)\<rparr>)))"

definition spec_CancelPickup :: "uuid \<Rightarrow> Pickup spec" where
  "spec_CancelPickup i s =
    (case st_pickups s i of
       None \<Rightarrow> Inl (App ErrPickupNotFound)
     | Some p \<Rightarrow>
         if pk_Status p \<in> {PickupPending, PickupScheduled}
         then Inr (canceled (st_now s) p, s\<lparr>st_pickups := (st_pickups s)(i \<mapsto> canceled (st_now s) p)\<rparr>)
         else Inl (App ErrPickupNotCancelable))"

text \<open>The payment a pickup gives rise to.\<close>

definition due :: "Pricing \<Rightarrow> uuid \<Rightarrow> instant \<Rightarrow> Pickup \<Rightarrow> Payment" where
  "due pricing newID now p =
    \<lparr>pm_ID = newID, pm_HouseholdID = pk_HouseholdID p, pm_WasteID = pk_ID p,
     pm_Amount = AmountFor pricing (pk_Type p), pm_PaymentDate = None, pm_Status = PaymentPending,
     pm_ProofFileURL = None, pm_CreatedAt = now, pm_UpdatedAt = now\<rparr>"

definition charge :: "Pricing \<Rightarrow> uuid \<Rightarrow> Pickup \<Rightarrow> Payment spec" where
  "charge pricing newID p s =
    (let y = due pricing newID (st_now s) p
     in if \<not> fits_numeric_14_2 (pm_Amount y) then Inl (database_error numeric_out_of_range)
        else if newID \<in> dom (st_payments s) \<or> (\<exists>z \<in> ran (st_payments s). pm_WasteID z = pk_ID p)
        then Inl (App ErrPaymentAlreadyExists)
        else Inr (y, s\<lparr>st_payments :=
               (st_payments s)(newID \<mapsto> y\<lparr>pm_Amount := cents (pm_Amount y)\<rparr>)\<rparr>))"

definition spec_CompletePickup :: "Pricing \<Rightarrow> uuid \<Rightarrow> uuid \<Rightarrow> Pickup spec" where
  "spec_CompletePickup pricing i newID s =
    (case st_pickups s i of
       None \<Rightarrow> Inl (App ErrPickupNotFound)
     | Some p \<Rightarrow>
         if pk_Status p \<noteq> PickupScheduled then Inl (App ErrPickupNotScheduled)
         else
           (let q = p\<lparr>pk_Status := PickupCompleted, pk_UpdatedAt := st_now s\<rparr>
            in case charge pricing newID q s of
                 Inl e \<Rightarrow> Inl e
               | Inr (_, t) \<Rightarrow> Inr (q, t\<lparr>st_pickups := (st_pickups t)(i \<mapsto> q)\<rparr>)))"

definition spec_CancelStaleOrganic :: "duration \<Rightarrow> nat spec" where
  "spec_CancelStaleOrganic ttl s = cancel_stale (st_now s - ttl) (st_now s) s"

definition spec_CreatePayment :: "Pricing \<Rightarrow> CreatePaymentCommand \<Rightarrow> uuid \<Rightarrow> Payment spec" where
  "spec_CreatePayment pricing cmd newID s =
    (case st_pickups s (cy_WasteID cmd) of
       None \<Rightarrow> Inl (App ErrPickupNotFound)
     | Some p \<Rightarrow>
         if pk_HouseholdID p \<noteq> cy_HouseholdID cmd then Inl (App ErrPaymentHouseholdMismatch)
         else charge pricing newID p s)"

definition spec_ConfirmPayment :: "uuid \<Rightarrow> string \<Rightarrow> Payment spec" where
  "spec_ConfirmPayment i url s =
    (case st_payments s i of
       None \<Rightarrow> Inl (App ErrPaymentNotFound)
     | Some y \<Rightarrow>
         if pm_Status y \<noteq> PaymentPending then Inl (App ErrPaymentNotPending)
         else if \<not> pg_text url then Inl (database_error invalid_text)
         else (let z = y\<lparr>pm_Status := PaymentPaid, pm_ProofFileURL := Some url,
                         pm_PaymentDate := Some (st_now s), pm_UpdatedAt := st_now s\<rparr>
               in Inr (z, s\<lparr>st_payments := (st_payments s)(i \<mapsto> z)\<rparr>)))"

section \<open>Lemmas\<close>

lemma store_of_sel [simp]:
  "st_now (store_of n d) = n" "st_households (store_of n d) = household_map d"
  "st_pickups (store_of n d) = pickup_map d" "st_payments (store_of n d) = payment_map d"
  by (simp_all add: store_of_def)

text \<open>An amount with at most two decimals is stored as it is.\<close>

lemma cents_exact: "cents (of_int n / 100) = of_int n / 100"
  by (simp add: cents_def)

lemma dom_maps [simp]:
  "dom (household_map d) = hw_id ` set (tb_households d)"
  "dom (pickup_map d) = pw_id ` set (tb_pickups d)"
  "dom (payment_map d) = yw_id ` set (tb_payments d)"
  by (force simp: household_map_def pickup_map_def payment_map_def dom_def lookup_by_None_iff
      simp flip: not_None_eq)+

lemma maps_None:
  "household_map d i = None \<longleftrightarrow> i \<notin> hw_id ` set (tb_households d)"
  "pickup_map d i = None \<longleftrightarrow> i \<notin> pw_id ` set (tb_pickups d)"
  "payment_map d i = None \<longleftrightarrow> i \<notin> yw_id ` set (tb_payments d)"
  by (simp_all flip: dom_maps add: domIff)

lemma ran_pickup_map:
  "schema_ok d \<Longrightarrow> ran (pickup_map d) = pickupRow_toDomain ` set (tb_pickups d)"
  by (auto simp: ran_def pickup_map_def schema_ok_def lookup_by_Some_iff image_iff)

lemma ran_payment_map:
  "schema_ok d \<Longrightarrow> ran (payment_map d) = paymentRow_toDomain ` set (tb_payments d)"
  by (auto simp: ran_def payment_map_def schema_ok_def lookup_by_Some_iff image_iff)

lemma pickup_map_ID: "pickup_map d i = Some p \<Longrightarrow> pk_ID p = i"
  by (auto simp: pickup_map_def dest: lookup_by_SomeD)

lemma payment_map_ID: "payment_map d i = Some y \<Longrightarrow> pm_ID y = i"
  by (auto simp: payment_map_def dest: lookup_by_SomeD)

lemma household_map_ID: "household_map d i = Some h \<Longrightarrow> hh_ID h = i"
  by (auto simp: household_map_def householdRow_toDomain_def dest: lookup_by_SomeD)

lemma household_map_add:
  "hw_id r \<notin> hw_id ` set (tb_households d) \<Longrightarrow>
   household_map (d\<lparr>tb_households := tb_households d @ [r]\<rparr>) =
     (household_map d)(hw_id r \<mapsto> householdRow_toDomain r)"
  by (rule ext) (simp add: household_map_def lookup_by_add)

lemma pickup_map_add:
  "pw_id r \<notin> pw_id ` set (tb_pickups d) \<Longrightarrow>
   pickup_map (d\<lparr>tb_pickups := tb_pickups d @ [r]\<rparr>) =
     (pickup_map d)(pw_id r \<mapsto> pickupRow_toDomain r)"
  by (rule ext) (simp add: pickup_map_def lookup_by_add)

lemma payment_map_add:
  "yw_id r \<notin> yw_id ` set (tb_payments d) \<Longrightarrow>
   payment_map (d\<lparr>tb_payments := tb_payments d @ [r]\<rparr>) =
     (payment_map d)(yw_id r \<mapsto> paymentRow_toDomain r)"
  by (rule ext) (simp add: payment_map_def lookup_by_add)

lemma household_map_remove:
  "schema_ok d \<Longrightarrow> household_map (d\<lparr>tb_households := filter (\<lambda>h. hw_id h \<noteq> i) (tb_households d)\<rparr>) =
     (household_map d)(i := None)"
  by (rule ext) (simp add: household_map_def schema_ok_def lookup_by_filter_other)

lemma other_tables [simp]:
  "pickup_map (d\<lparr>tb_households := x\<rparr>) = pickup_map d" "payment_map (d\<lparr>tb_households := x\<rparr>) = payment_map d"
  "household_map (d\<lparr>tb_pickups := y\<rparr>) = household_map d" "payment_map (d\<lparr>tb_pickups := y\<rparr>) = payment_map d"
  "household_map (d\<lparr>tb_payments := z\<rparr>) = household_map d" "pickup_map (d\<lparr>tb_payments := z\<rparr>) = pickup_map d"
  "household_map (d\<lparr>tb_ties := f\<rparr>) = household_map d" "pickup_map (d\<lparr>tb_ties := f\<rparr>) = pickup_map d"
  "payment_map (d\<lparr>tb_ties := f\<rparr>) = payment_map d"
  by (simp_all add: fun_eq_iff household_map_def pickup_map_def payment_map_def)

lemma pickup_map_update_one:
  assumes "schema_ok d" "\<And>r. pw_id (f r) = pw_id r"
  shows "pickup_map (d\<lparr>tb_pickups := update_where (\<lambda>r. pw_id r = i \<and> guard r) f (tb_pickups d)\<rparr>) =
     (pickup_map d)(i := map_option (\<lambda>r. pickupRow_toDomain (if guard r then f r else r))
                        (lookup_by pw_id (tb_pickups d) i))"
  using assms by (intro ext) (auto simp: pickup_map_def schema_ok_def lookup_by_update option.map_comp comp_def)

lemma payment_map_update_one:
  assumes "schema_ok d" "\<And>r. yw_id (f r) = yw_id r"
  shows "payment_map (d\<lparr>tb_payments := update_where (\<lambda>r. yw_id r = i \<and> guard r) f (tb_payments d)\<rparr>) =
     (payment_map d)(i := map_option (\<lambda>r. paymentRow_toDomain (if guard r then f r else r))
                        (lookup_by yw_id (tb_payments d) i))"
  using assms by (intro ext) (auto simp: payment_map_def schema_ok_def lookup_by_update option.map_comp comp_def)

lemma pickup_map_update_all:
  assumes "\<And>r. pw_id (f r) = pw_id r"
  shows "pickup_map (d\<lparr>tb_pickups := update_where P f (tb_pickups d)\<rparr>) =
     (\<lambda>i. map_option (\<lambda>r. pickupRow_toDomain (if P r then f r else r)) (lookup_by pw_id (tb_pickups d) i))"
  using assms by (intro ext) (simp add: pickup_map_def lookup_by_update_all option.map_comp comp_def)

end
