(* ===== verification/Contracts.thy ===== *)
theory Contracts
  imports Ports
begin

text \<open>
  The interfaces between the services and their driven side, as locales. A method of a port is
  described by an abstract operation \<open>spec\<close> on what the state stands for (\<open>view\<close>):
  with a healthy connection the method does exactly what \<open>spec\<close> does; a method that fails
  because of the infrastructure reports a server error, and its effect has taken place entirely
  or not at all. The locales show that this contract is closed under the two ways in which the
  services combine methods: one after the other, and inside a transaction.
\<close>

section \<open>Sequencing\<close>

definition abind :: "(ctx \<Rightarrow> ('w, 'a) act) \<Rightarrow> ('a \<Rightarrow> ctx \<Rightarrow> ('w, 'b) act) \<Rightarrow> ctx \<Rightarrow> ('w, 'b) act" where
  "abind m k c w = (case m c w of (Inl e, w) \<Rightarrow> (Inl e, w) | (Inr a, w) \<Rightarrow> k a c w)"

definition areturn :: "'a \<Rightarrow> ctx \<Rightarrow> ('w, 'a) act" where
  "areturn a c w = (Inr a, w)"

definition athrow :: "go_error \<Rightarrow> ctx \<Rightarrow> ('w, 'a) act" where
  "athrow e c w = (Inl e, w)"

definition sbind :: "('s \<Rightarrow> go_error + 'a \<times> 's) \<Rightarrow> ('a \<Rightarrow> 's \<Rightarrow> go_error + 'b \<times> 's) \<Rightarrow>
    's \<Rightarrow> go_error + 'b \<times> 's" where
  "sbind m k s = (case m s of Inl e \<Rightarrow> Inl e | Inr (a, t) \<Rightarrow> k a t)"

definition sreturn :: "'a \<Rightarrow> 's \<Rightarrow> go_error + 'a \<times> 's" where
  "sreturn a s = Inr (a, s)"

definition sthrow :: "go_error \<Rightarrow> 's \<Rightarrow> go_error + 'a \<times> 's" where
  "sthrow e s = Inl e"

text \<open>What one call may do, given the abstract operation it stands for.\<close>

definition failed :: "go_error + 'a \<Rightarrow> bool" where
  "failed r \<longleftrightarrow> (case r of Inl e \<Rightarrow> infra e | Inr _ \<Rightarrow> False)"

definition refines :: "bool \<Rightarrow> (go_error + 'a \<times> 's) \<Rightarrow> 's \<Rightarrow> go_error + 'a \<Rightarrow> 's \<Rightarrow> bool" where
  "refines hl outc s r s' \<longleftrightarrow>
    (case outc of
       Inl e \<Rightarrow> s' = s \<and> (r = Inl e \<or> (\<not> hl \<and> failed r))
     | Inr (a, t) \<Rightarrow> (r = Inr a \<and> s' = t) \<or> (\<not> hl \<and> failed r \<and> s' \<in> {s, t}))"

lemma failed_simps [simp]: "failed (Inl e) = infra e" "\<not> failed (Inr a)"
  by (simp_all add: failed_def)

lemma refines_healthy:
  "refines True outc s r s' \<longleftrightarrow>
     (case outc of Inl e \<Rightarrow> r = Inl e \<and> s' = s | Inr (a, t) \<Rightarrow> r = Inr a \<and> s' = t)"
  by (auto simp: refines_def split: sum.splits prod.splits)

lemma refines_Inr: "refines hl outc s (Inr a) s' \<longleftrightarrow> outc = Inr (a, s')"
  by (auto simp: refines_def split: sum.splits prod.splits)

lemma refines_state: "refines hl outc s r s' \<Longrightarrow> s' = s \<or> (\<exists>a. outc = Inr (a, s'))"
  by (auto simp: refines_def split: sum.splits prod.splits)

section \<open>Methods\<close>

locale port_method =
  fixes view :: "ctx \<Rightarrow> 'w \<Rightarrow> 's"
    and ok :: "ctx \<Rightarrow> 'w \<Rightarrow> bool"
    and healthy :: "'w \<Rightarrow> bool"
    and ctxs :: "ctx set"
    and op :: "ctx \<Rightarrow> ('w, 'a) act"
    and spec :: "'s \<Rightarrow> go_error + 'a \<times> 's"
  assumes returns: "c \<in> ctxs \<Longrightarrow> ok c w \<Longrightarrow> op c w = (Inr a, w') \<Longrightarrow>
      ok c w' \<and> (healthy w \<longrightarrow> healthy w') \<and> spec (view c w) = Inr (a, view c w') \<and>
      (c \<noteq> None \<longrightarrow> view None w' = view None w)"
    and fails: "c \<in> ctxs \<Longrightarrow> ok c w \<Longrightarrow> op c w = (Inl e, w') \<Longrightarrow>
      ok None w' \<and> (healthy w \<longrightarrow> healthy w') \<and> (c \<noteq> None \<longrightarrow> view None w' = view None w) \<and>
      (spec (view c w) = Inl e \<and> view None w' = view None w \<or>
       infra e \<and> \<not> healthy w \<and>
       (c = None \<longrightarrow> view None w' = view None w \<or> (\<exists>a. spec (view None w) = Inr (a, view None w'))))"
begin

lemma pool_call:
  assumes "None \<in> ctxs" and "ok None w" and "op None w = (r, w')"
  shows "ok None w' \<and> (healthy w \<longrightarrow> healthy w') \<and>
    refines (healthy w) (spec (view None w)) (view None w) r (view None w')"
proof (cases r)
  case (Inl e)
  with assms fails [of None w e w'] show ?thesis
    by (cases "spec (view None w)") (auto simp: refines_def)
next
  case (Inr a)
  with assms returns [of None w a w'] show ?thesis by (auto simp: refines_Inr)
qed

lemma subset_ctxs: "C \<subseteq> ctxs \<Longrightarrow> port_method view ok healthy C op spec"
  using returns fails by unfold_locales blast+

lemma same_spec:
  assumes "\<And>c w. c \<in> ctxs \<Longrightarrow> ok c w \<Longrightarrow> spec (view c w) = spec' (view c w)"
  shows "port_method view ok healthy ctxs op spec'"
proof
  fix c w a w'
  assume "c \<in> ctxs" "ok c w" "op c w = (Inr a, w')"
  then show "ok c w' \<and> (healthy w \<longrightarrow> healthy w') \<and> spec' (view c w) = Inr (a, view c w') \<and>
      (c \<noteq> None \<longrightarrow> view None w' = view None w)"
    using returns assms by metis
next
  fix c w e w'
  assume c: "c \<in> ctxs" "ok c w" "op c w = (Inl e, w')"
  then have "c = None \<Longrightarrow> spec (view None w) = spec' (view None w)"
    using assms by blast
  then show "ok None w' \<and> (healthy w \<longrightarrow> healthy w') \<and> (c \<noteq> None \<longrightarrow> view None w' = view None w) \<and>
      (spec' (view c w) = Inl e \<and> view None w' = view None w \<or>
       infra e \<and> \<not> healthy w \<and>
       (c = None \<longrightarrow> view None w' = view None w \<or> (\<exists>a. spec' (view None w) = Inr (a, view None w'))))"
    using fails [OF c] assms [OF c(1,2)] by auto
qed

end

section \<open>One method after another\<close>

text \<open>
  Outside a transaction the first method must leave the state alone, unless nothing can fail
  after it.
\<close>

locale port_sequence = first: port_method view ok healthy ctxs op spec
  for view :: "ctx \<Rightarrow> 'w \<Rightarrow> 's"
    and ok :: "ctx \<Rightarrow> 'w \<Rightarrow> bool"
    and healthy :: "'w \<Rightarrow> bool"
    and ctxs :: "ctx set"
    and op :: "ctx \<Rightarrow> ('w, 'a) act"
    and spec :: "'s \<Rightarrow> go_error + 'a \<times> 's" +
  fixes rest :: "'a \<Rightarrow> ctx \<Rightarrow> ('w, 'b) act"
    and rest_spec :: "'a \<Rightarrow> 's \<Rightarrow> go_error + 'b \<times> 's"
  assumes rest_method: "port_method view ok healthy ctxs (rest a) (rest_spec a)"
    and no_partial_effect: "None \<in> ctxs \<Longrightarrow> spec s = Inr (a, t) \<Longrightarrow> t = s \<or> (\<exists>b. rest a = areturn b)"
begin

sublocale whole: port_method view ok healthy ctxs "abind op rest" "sbind spec rest_spec"
proof
  fix c w b w'
  assume c: "c \<in> ctxs" "ok c w" and "abind op rest c w = (Inr b, w')"
  then obtain a w1 where 1: "op c w = (Inr a, w1)" and 2: "rest a c w1 = (Inr b, w')"
    by (auto simp: abind_def split: prod.splits sum.splits)
  have "port_method view ok healthy ctxs (rest a) (rest_spec a)" by (rule rest_method)
  from port_method.returns [OF this c(1) _ 2] first.returns [OF c 1]
  show "ok c w' \<and> (healthy w \<longrightarrow> healthy w') \<and> sbind spec rest_spec (view c w) = Inr (b, view c w') \<and>
      (c \<noteq> None \<longrightarrow> view None w' = view None w)"
    by (auto simp: sbind_def)
next
  fix c w e w'
  assume c: "c \<in> ctxs" "ok c w" and run: "abind op rest c w = (Inl e, w')"
  consider (first) "op c w = (Inl e, w')"
    | (rest) a w1 where "op c w = (Inr a, w1)" "rest a c w1 = (Inl e, w')"
    using run by (auto simp: abind_def split: prod.splits sum.splits)
  then show "ok None w' \<and> (healthy w \<longrightarrow> healthy w') \<and> (c \<noteq> None \<longrightarrow> view None w' = view None w) \<and>
      (sbind spec rest_spec (view c w) = Inl e \<and> view None w' = view None w \<or>
       infra e \<and> \<not> healthy w \<and>
       (c = None \<longrightarrow> view None w' = view None w \<or>
          (\<exists>b. sbind spec rest_spec (view None w) = Inr (b, view None w'))))"
  proof cases
    case first
    have done_: "\<exists>b. sbind spec rest_spec (view None w) = Inr (b, view None w')"
      if n: "c = None" "ok None w'" and eff: "spec (view None w) = Inr (a, view None w')"
        and neq: "view None w' \<noteq> view None w" for a
    proof -
      have pm: "port_method view ok healthy ctxs (rest a) (rest_spec a)" by (rule rest_method)
      from no_partial_effect [OF _ eff] n c neq obtain b where "rest a = areturn b" by auto
      with port_method.returns [OF pm _ n(2), of b w'] n(1) c(1)
      have "rest_spec a (view None w') = Inr (b, view None w')" by (simp add: areturn_def)
      with eff show ?thesis by (simp add: sbind_def)
    qed
    from first.fails [OF c first] done_ show ?thesis
      by (cases "view None w' = view None w") (auto simp: sbind_def)
  next
    case rest
    note r = first.returns [OF c rest(1)]
    have pm: "port_method view ok healthy ctxs (rest a) (rest_spec a)" by (rule rest_method)
    note f = port_method.fails [OF pm c(1) _ rest(2)]
    have same: "c = None \<Longrightarrow> view None w1 = view None w"
      using no_partial_effect [of "view c w" a "view c w1"] r c(1) rest(2)
      by (auto simp: areturn_def)
    show ?thesis
    proof (cases "c = None")
      case True
      with r f same show ?thesis by (auto simp: sbind_def)
    next
      case False
      with r f show ?thesis by (auto simp: sbind_def)
    qed
  qed
qed

end

context port_sequence
begin

lemma whole_method: "port_method view ok healthy ctxs (abind op rest) (sbind spec rest_spec)"
  by unfold_locales

end

lemmas sequence_method = port_sequence.whole_method
  [OF port_sequence.intro [OF _ port_sequence_axioms.intro]]

lemma areturn_method: "port_method view ok healthy ctxs (areturn a) (sreturn a)"
  by unfold_locales (auto simp: areturn_def sreturn_def)

lemma athrow_method:
  "(\<And>c w. ok c w \<Longrightarrow> ok None w) \<Longrightarrow> port_method view ok healthy ctxs (athrow e) (sthrow e)"
  by unfold_locales (auto simp: athrow_def sthrow_def)

section \<open>Transactions\<close>

text \<open>
  A transaction manager runs its argument on a private copy of the state. Nothing of a failed
  transaction remains; a commit that fails may still have taken place.
\<close>

definition commit_result ::
  "bool \<Rightarrow> (go_error + 'a) \<Rightarrow> 's \<Rightarrow> 's \<Rightarrow> go_error + 'a \<Rightarrow> 's \<Rightarrow> bool" where
  "commit_result hl body before after r s' \<longleftrightarrow>
    (case body of
       Inl e \<Rightarrow> r = Inl e \<and> s' = before
     | Inr a \<Rightarrow> (r = Inr a \<and> s' = after) \<or> (\<not> hl \<and> failed r \<and> s' \<in> {before, after}))"

locale transaction_manager =
  fixes view :: "ctx \<Rightarrow> 'w \<Rightarrow> 's"
    and ok :: "ctx \<Rightarrow> 'w \<Rightarrow> bool"
    and healthy :: "'w \<Rightarrow> bool"
    and run :: "ctx \<Rightarrow> (ctx \<Rightarrow> ('w, 'a) act) \<Rightarrow> ('w, 'a) act"
  assumes nested: "run (Some t) fn = fn (Some t)"
    and run_cases: "ok None w \<Longrightarrow> run None fn w = (r, w') \<Longrightarrow>
      (ok None w' \<and> (healthy w \<longrightarrow> healthy w') \<and> view None w' = view None w \<and>
       \<not> healthy w \<and> failed r) \<or>
      (\<exists>w1 body w2. ok (Some OpenTx) w1 \<and> (healthy w \<longrightarrow> healthy w1) \<and>
         view (Some OpenTx) w1 = view None w \<and> view None w1 = view None w \<and>
         fn (Some OpenTx) w1 = (body, w2) \<and>
         ((case body of Inl _ \<Rightarrow> ok None w2 | Inr _ \<Rightarrow> ok (Some OpenTx) w2) \<longrightarrow>
            ok None w' \<and> (healthy w2 \<longrightarrow> healthy w') \<and>
            commit_result (healthy w2) body (view None w2) (view (Some OpenTx) w2) r (view None w')))"
begin

lemma transaction:
  assumes "port_method view ok healthy {Some OpenTx} fn spec"
  shows "port_method view ok healthy {None} (\<lambda>c. run c fn) spec"
proof
  fix c w a w'
  assume c: "c \<in> {None}" "ok c w" "run c fn w = (Inr a, w')"
  with run_cases [of w fn "Inr a" w'] obtain w1 body w2 where
    w1: "ok (Some OpenTx) w1" "healthy w \<longrightarrow> healthy w1" "view (Some OpenTx) w1 = view None w"
      and call: "fn (Some OpenTx) w1 = (body, w2)" and
    res: "(case body of Inl _ \<Rightarrow> ok None w2 | Inr _ \<Rightarrow> ok (Some OpenTx) w2) \<Longrightarrow> ok None w' \<and>
      (healthy w2 \<longrightarrow> healthy w') \<and>
      commit_result (healthy w2) body (view None w2) (view (Some OpenTx) w2) (Inr a) (view None w')"
    by auto
  show "ok c w' \<and> (healthy w \<longrightarrow> healthy w') \<and> spec (view c w) = Inr (a, view c w') \<and>
      (c \<noteq> None \<longrightarrow> view None w' = view None w)"
  proof (cases body)
    case (Inl e)
    with port_method.fails [OF assms _ w1(1), of e w2] call res show ?thesis
      by (auto simp: commit_result_def)
  next
    case (Inr b)
    with port_method.returns [OF assms _ w1(1), of b w2] call res w1 c show ?thesis
      by (auto simp: commit_result_def)
  qed
next
  fix c w e w'
  assume c: "c \<in> {None}" "ok c w" "run c fn w = (Inl e, w')"
  then have None: "c = None" by simp
  consider "ok None w' \<and> (healthy w \<longrightarrow> healthy w') \<and> view None w' = view None w \<and> \<not> healthy w \<and> infra e"
    | (ran) w1 body w2 where
    "ok (Some OpenTx) w1" "healthy w \<longrightarrow> healthy w1" "view (Some OpenTx) w1 = view None w"
    "view None w1 = view None w" "fn (Some OpenTx) w1 = (body, w2)"
    "(case body of Inl _ \<Rightarrow> ok None w2 | Inr _ \<Rightarrow> ok (Some OpenTx) w2) \<longrightarrow> ok None w' \<and>
      (healthy w2 \<longrightarrow> healthy w') \<and> commit_result (healthy w2) body (view None w2) (view (Some OpenTx) w2) (Inl e) (view None w')"
    using c run_cases [of w fn "Inl e" w'] by auto
  then show "ok None w' \<and> (healthy w \<longrightarrow> healthy w') \<and> (c \<noteq> None \<longrightarrow> view None w' = view None w) \<and>
      (spec (view c w) = Inl e \<and> view None w' = view None w \<or>
       infra e \<and> \<not> healthy w \<and>
       (c = None \<longrightarrow> view None w' = view None w \<or> (\<exists>a. spec (view None w) = Inr (a, view None w'))))"
  proof cases
    case ran
    show ?thesis
    proof (cases body)
      case (Inl e')
      with port_method.fails [OF assms _ ran(1), of e' w2] ran None show ?thesis
        by (auto simp: commit_result_def)
    next
      case (Inr b)
      with port_method.returns [OF assms _ ran(1), of b w2] ran None show ?thesis
        by (auto simp: commit_result_def)
    qed
  qed (use None in simp)
qed

end

end
