(* ===== verification/Postgres.thy ===== *)
theory Postgres
  imports Store Contracts
begin

text \<open>
  The shared part of \<open>internal/adapter/out/postgres\<close>: error classification
  (\<open>errors.go\<close>), the executor and the transaction manager (\<open>tx.go\<close>), and the state
  they work on. Every round trip to the server can fail: the state carries the script of
  outcomes of the coming round trips, and an exhausted script stands for a healthy connection.
  \<open>Refused e\<close> is a request that fails with \<open>e\<close> before the server acts; \<open>ReplyLost e\<close> one
  that the server carries out but whose answer is lost.
\<close>

section \<open>Errors\<close>

definition HasPrefix :: "string \<Rightarrow> string \<Rightarrow> bool" where
  "HasPrefix s p \<longleftrightarrow> take (length p) s = p"

definition isUnavailable :: "go_error \<Rightarrow> bool" where
  "isUnavailable err \<longleftrightarrow>
    (if errors_Is err DeadlineExceeded \<or> errors_Is err Canceled then True
     else if errors_As as_ConnectError err \<noteq> None then True
     else (case errors_As as_PgError err of
             Some code \<Rightarrow> HasPrefix code ''08'' \<or> HasPrefix code ''57''
           | None \<Rightarrow> errors_As as_NetError err \<noteq> None))"

text \<open>\<open>map_error\<close> is \<open>mapError\<close> of an error that is not \<open>nil\<close>.\<close>

definition map_error :: "go_error \<Rightarrow> go_error" where
  "map_error err =
    (case From err of
       Some _ \<Rightarrow> err
     | None \<Rightarrow>
         if isUnavailable err
         then App (WithCause (Unavailable CodeServiceUnavailable (MessageFor CodeServiceUnavailable)) err)
         else App (WithCause (Internal CodeInternal ''database error'') err))"

definition mapError :: "go_error option \<Rightarrow> go_error option" where
  "mapError err = (case err of None \<Rightarrow> None | Some e \<Rightarrow> Some (map_error e))"

section \<open>State\<close>

datatype outcome = Reply | Refused go_error | ReplyLost go_error

text \<open>The open transaction: its working copy, or the aborted state that refuses statements.\<close>

datatype tx_state = Active db | Aborted

record blob =
  bl_key :: string
  bl_content :: string
  bl_type :: string

record world =
  wd_db :: db
  wd_tx :: "tx_state option"
  wd_net :: "outcome list"
  wd_now :: instant
  wd_blobs :: "blob list"

definition next_outcome :: "world \<Rightarrow> outcome \<times> world" where
  "next_outcome w =
    (case wd_net w of [] \<Rightarrow> (Reply, w) | x # xs \<Rightarrow> (x, w\<lparr>wd_net := xs\<rparr>))"

section \<open>Running a statement\<close>

definition on_pool :: "'a stmt \<Rightarrow> (world, 'a) act" where
  "on_pool st w =
    (case next_outcome w of
       (Reply, w) \<Rightarrow>
         (case st (wd_db w) of
            Inl code \<Rightarrow> (Inl (PgError code), w)
          | Inr (a, d) \<Rightarrow> (Inr a, w\<lparr>wd_db := d\<rparr>))
     | (Refused e, w) \<Rightarrow> (Inl e, w)
     | (ReplyLost e, w) \<Rightarrow>
         (case st (wd_db w) of
            Inl code \<Rightarrow> (Inl e, w)
          | Inr (a, d) \<Rightarrow> (Inl e, w\<lparr>wd_db := d\<rparr>)))"

text \<open>A statement that fails in a transaction aborts it.\<close>

definition on_tx :: "'a stmt \<Rightarrow> (world, 'a) act" where
  "on_tx st w =
    (case wd_tx w of
       None \<Rightarrow> (Inl (Opaque ''tx is closed''), w)
     | Some Aborted \<Rightarrow> (Inl (PgError in_failed_transaction), w)
     | Some (Active d) \<Rightarrow>
         (case next_outcome w of
            (Reply, w) \<Rightarrow>
              (case st d of
                 Inl code \<Rightarrow> (Inl (PgError code), w\<lparr>wd_tx := Some Aborted\<rparr>)
               | Inr (a, d) \<Rightarrow> (Inr a, w\<lparr>wd_tx := Some (Active d)\<rparr>))
          | (Refused e, w) \<Rightarrow> (Inl e, w\<lparr>wd_tx := Some Aborted\<rparr>)
          | (ReplyLost e, w) \<Rightarrow> (Inl e, w\<lparr>wd_tx := Some Aborted\<rparr>)))"

definition withTx :: "ctx \<Rightarrow> tx \<Rightarrow> ctx" where
  "withTx c t = Some t"

definition txFromContext :: "ctx \<Rightarrow> tx option" where
  "txFromContext c = c"

definition Executor :: "ctx \<Rightarrow> 'a stmt \<Rightarrow> (world, 'a) act" where
  "Executor c = (if txFromContext c \<noteq> None then on_tx else on_pool)"

section \<open>TxManager\<close>

definition pool_Begin :: "(world, tx) act" where
  "pool_Begin w =
    (case next_outcome w of
       (Reply, w) \<Rightarrow> (Inr OpenTx, w\<lparr>wd_tx := Some (Active (wd_db w))\<rparr>)
     | (Refused e, w) \<Rightarrow> (Inl e, w)
     | (ReplyLost e, w) \<Rightarrow> (Inl e, w))"

text \<open>Whatever becomes of the request, a transaction that is not committed leaves no trace.\<close>

definition tx_Rollback :: "world \<Rightarrow> world" where
  "tx_Rollback w = (snd (next_outcome w))\<lparr>wd_tx := None\<rparr>"

definition tx_Commit :: "world \<Rightarrow> go_error option \<times> world" where
  "tx_Commit w =
    (case wd_tx w of
       None \<Rightarrow> (Some (Opaque ''tx is closed''), w)
     | Some Aborted \<Rightarrow>
         (Some (Opaque ''commit unexpectedly resulted in rollback''),
          (snd (next_outcome w))\<lparr>wd_tx := None\<rparr>)
     | Some (Active d) \<Rightarrow>
         (case next_outcome w of
            (Reply, w) \<Rightarrow> (None, w\<lparr>wd_db := d, wd_tx := None\<rparr>)
          | (Refused e, w) \<Rightarrow> (Some e, w\<lparr>wd_tx := None\<rparr>)
          | (ReplyLost e, w) \<Rightarrow> (Some e, w\<lparr>wd_db := d, wd_tx := None\<rparr>)))"

definition TxManager_Do :: "ctx \<Rightarrow> (ctx \<Rightarrow> (world, Pickup) act) \<Rightarrow> (world, Pickup) act" where
  "TxManager_Do c fn w =
    (if txFromContext c \<noteq> None then fn c w
     else
       (case pool_Begin w of
          (Inl err, w) \<Rightarrow> (Inl (map_error err), w)
        | (Inr t, w) \<Rightarrow>
            (case fn (withTx c t) w of
               (Inl err, w) \<Rightarrow> (Inl err, tx_Rollback w)
             | (Inr a, w) \<Rightarrow>
                 (case tx_Commit w of
                    (err, w) \<Rightarrow>
                      (case mapError err of Some e \<Rightarrow> (Inl e, w) | None \<Rightarrow> (Inr a, w))))))"

definition NewTxManager :: "world TxManager" where
  "NewTxManager = \<lparr>tx_Do = TxManager_Do\<rparr>"

section \<open>Healthy and well-behaved connections\<close>

text \<open>A driver never returns an error of the program, and constraint violations come from
  statements only.\<close>

definition fault_ok :: "go_error \<Rightarrow> bool" where
  "fault_ok e \<longleftrightarrow>
     From e = None \<and>
     errors_As as_PgError e \<notin> {Some unique_violation, Some foreign_key_violation}"

definition outcome_ok :: "outcome \<Rightarrow> bool" where
  "outcome_ok x \<longleftrightarrow>
    (case x of Reply \<Rightarrow> True | Refused e \<Rightarrow> fault_ok e | ReplyLost e \<Rightarrow> fault_ok e)"

definition net_ok :: "world \<Rightarrow> bool" where
  "net_ok w \<longleftrightarrow> (\<forall>x \<in> set (wd_net w). outcome_ok x)"

section \<open>Calls as port methods\<close>

text \<open>
  The database a call sees: the committed one, or the working copy of the open transaction.
  \<open>pg_ok\<close> is what the calls rely on and maintain.
\<close>

definition cur :: "ctx \<Rightarrow> world \<Rightarrow> db" where
  "cur c w = (case c of None \<Rightarrow> wd_db w
     | Some _ \<Rightarrow> (case wd_tx w of Some (Active d) \<Rightarrow> d | _ \<Rightarrow> wd_db w))"

definition in_tx :: "world \<Rightarrow> bool" where
  "in_tx w \<longleftrightarrow> (case wd_tx w of Some (Active _) \<Rightarrow> True | _ \<Rightarrow> False)"

definition world_ok :: "world \<Rightarrow> bool" where
  "world_ok w \<longleftrightarrow> net_ok w \<and> schema_ok (wd_db w) \<and>
     (case wd_tx w of Some (Active d) \<Rightarrow> schema_ok d | _ \<Rightarrow> True)"

definition pg_ok :: "ctx \<Rightarrow> world \<Rightarrow> bool" where
  "pg_ok c w \<longleftrightarrow> world_ok w \<and> (c \<noteq> None \<longrightarrow> in_tx w)"

definition online :: "world \<Rightarrow> bool" where
  "online w \<longleftrightarrow> wd_net w = []"

definition pg_view :: "(instant \<Rightarrow> db \<Rightarrow> 's) \<Rightarrow> ctx \<Rightarrow> world \<Rightarrow> 's" where
  "pg_view mean c w = mean (wd_now w) (cur c w)"

definition call :: "'a stmt \<Rightarrow> (go_error \<Rightarrow> go_error) \<Rightarrow> ('a \<Rightarrow> go_error + 'b) \<Rightarrow>
    ctx \<Rightarrow> (world, 'b) act" where
  "call st onerr onok c w =
    (case Executor c st w of
       (Inl err, w) \<Rightarrow> (Inl (onerr err), w)
     | (Inr a, w) \<Rightarrow> (onok a, w))"

text \<open>What the methods make of a driver's error and of the rows they get.\<close>

definition on_code :: "string \<Rightarrow> app_error \<Rightarrow> go_error \<Rightarrow> go_error" where
  "on_code code named err =
    (if errors_As as_PgError err = Some code then App named else map_error err)"

definition one_row :: "('r \<Rightarrow> 'e) \<Rightarrow> app_error \<Rightarrow> 'r list \<Rightarrow> go_error + 'e" where
  "one_row f missing rows =
    (case rows of
       [] \<Rightarrow> Inl (App missing)
     | [r] \<Rightarrow> Inr (f r)
     | _ \<Rightarrow> Inl (map_error (Opaque ''too many rows'')))"

definition opt_row :: "('r \<Rightarrow> 'e) \<Rightarrow> 'r list \<Rightarrow> go_error + 'e option" where
  "opt_row f rows =
    (case rows of
       [] \<Rightarrow> Inr None
     | [r] \<Rightarrow> Inr (Some (f r))
     | _ \<Rightarrow> Inl (map_error (Opaque ''too many rows'')))"

definition some_affected :: "app_error \<Rightarrow> nat \<Rightarrow> go_error + unit" where
  "some_affected missing n = (if n = 0 then Inl (App missing) else Inr ())"

lemmas call_defs = call_def on_code_def one_row_def opt_row_def some_affected_def

lemma cur_None [simp]: "cur None w = wd_db w"
  by (simp add: cur_def)

lemma pg_ok_None [simp]: "pg_ok None w \<longleftrightarrow> world_ok w"
  by (simp add: pg_ok_def)

lemma next_outcome_cases:
  obtains (exhausted) "wd_net w = []" "next_outcome w = (Reply, w)"
  | (scripted) x xs where "wd_net w = x # xs" "next_outcome w = (x, w\<lparr>wd_net := xs\<rparr>)"
  by (cases "wd_net w") (auto simp: next_outcome_def)

text \<open>The three ways a request ends, the fault of the last two being a driver's.\<close>

lemma Executor_cases [consumes 2, case_names replied failed_stmt lost]:
  assumes "pg_ok c w" and "Executor c st w = (r, w')"
  obtains (replied) a d where "st (cur c w) = Inr (a, d)" "r = Inr a" "cur c w' = d"
      "c \<noteq> None \<longrightarrow> wd_db w' = wd_db w \<and> in_tx w'" "net_ok w'" "online w \<longrightarrow> online w'"
      "wd_now w' = wd_now w" "c = None \<longrightarrow> wd_tx w' = wd_tx w" "c \<noteq> None \<longrightarrow> wd_tx w' = Some (Active d)"
  | (failed_stmt) code where "st (cur c w) = Inl code" "r = Inl (PgError code)" "wd_db w' = wd_db w"
      "net_ok w'" "online w \<longrightarrow> online w'" "wd_now w' = wd_now w"
      "wd_tx w' = wd_tx w \<or> wd_tx w' = Some Aborted"
  | (lost) e where "r = Inl e" "fault_ok e" "\<not> online w" "net_ok w'" "wd_now w' = wd_now w"
      "wd_tx w' = wd_tx w \<or> wd_tx w' = Some Aborted"
      "wd_db w' = wd_db w \<or> c = None \<and> (\<exists>a. st (wd_db w) = Inr (a, wd_db w'))"
proof -
  note defs = Executor_def txFromContext_def on_pool_def on_tx_def cur_def in_tx_def online_def
    net_ok_def outcome_ok_def pg_ok_def world_ok_def
  show ?thesis
  proof (cases w rule: next_outcome_cases)
    case exhausted
    with assms show ?thesis
      by (cases c; cases "st (cur c w)")
        (auto simp: defs split: option.splits tx_state.splits intro: replied failed_stmt)
  next
    case (scripted x xs)
    with assms show ?thesis
      by (cases c; cases "st (cur c w)"; cases x)
        (auto simp: defs split: option.splits tx_state.splits intro: replied failed_stmt lost)
  qed
qed


text \<open>
  One statement, the abstract operation it carries out on what the database means, and what the
  method makes of the two results.
\<close>

definition agrees :: "go_error + 'b \<Rightarrow> 's \<Rightarrow> 's \<Rightarrow> go_error + 'b \<times> 's \<Rightarrow> bool" where
  "agrees r s s' outc \<longleftrightarrow>
    (case r of Inr b \<Rightarrow> outc = Inr (b, s') | Inl e \<Rightarrow> outc = Inl e \<and> s' = s)"

lemma agrees_simps [simp]:
  "agrees (Inr b) s s' outc \<longleftrightarrow> outc = Inr (b, s')"
  "agrees (Inl e) s s' outc \<longleftrightarrow> outc = Inl e \<and> s' = s"
  by (simp_all add: agrees_def)

locale repository_call =
  fixes mean :: "instant \<Rightarrow> db \<Rightarrow> 's"
    and st :: "'a stmt"
    and onerr :: "go_error \<Rightarrow> go_error"
    and onok :: "'a \<Rightarrow> go_error + 'b"
    and spec :: "'s \<Rightarrow> go_error + 'b \<times> 's"
  assumes carried_out: "schema_ok d \<Longrightarrow> st d = Inr (a, d') \<Longrightarrow>
      schema_ok d' \<and> agrees (onok a) (mean n d) (mean n d') (spec (mean n d))"
    and rejected: "schema_ok d \<Longrightarrow> st d = Inl code \<Longrightarrow> spec (mean n d) = Inl (onerr (PgError code))"
    and faults: "fault_ok e \<Longrightarrow> infra (onerr e)"
begin

lemma pool_effect:
  assumes "schema_ok d" and "st d = Inr (a, d')"
  shows "mean n d' = mean n d \<or> (\<exists>b. spec (mean n d) = Inr (b, mean n d'))"
  using carried_out [OF assms, of n] by (cases "onok a") auto

sublocale port: port_method "pg_view mean" pg_ok online UNIV "call st onerr onok" spec
proof
  fix c w b w'
  assume ok: "pg_ok c w" and "call st onerr onok c w = (Inr b, w')"
  then obtain a where run: "Executor c st w = (Inr a, w')" and a: "onok a = Inr b"
    by (auto simp: call_def split: prod.splits sum.splits)
  have s: "schema_ok (cur c w)"
    using ok by (cases c) (auto simp: pg_ok_def world_ok_def cur_def split: option.splits tx_state.splits)
  from ok run show "pg_ok c w' \<and> (online w \<longrightarrow> online w') \<and>
      spec (pg_view mean c w) = Inr (b, pg_view mean c w') \<and>
      (c \<noteq> None \<longrightarrow> pg_view mean None w' = pg_view mean None w)"
  proof (cases rule: Executor_cases)
    case (replied a' d)
    with carried_out [OF s replied(1), of "wd_now w"] a ok show ?thesis
      by (cases c) (auto simp: pg_view_def pg_ok_def world_ok_def cur_def)
  qed simp_all
next
  fix c w e w'
  assume ok: "pg_ok c w" and "call st onerr onok c w = (Inl e, w')"
  then obtain r where run: "Executor c st w = (r, w')"
    and r: "(case r of Inl err \<Rightarrow> e = onerr err | Inr a \<Rightarrow> onok a = Inl e)"
    by (auto simp: call_def split: prod.splits sum.splits)
  have s: "schema_ok (cur c w)" and s0: "schema_ok (wd_db w)"
    using ok by (cases c; auto simp: pg_ok_def world_ok_def cur_def split: option.splits tx_state.splits)+
  from ok run show "pg_ok None w' \<and> (online w \<longrightarrow> online w') \<and>
      (c \<noteq> None \<longrightarrow> pg_view mean None w' = pg_view mean None w) \<and>
      (spec (pg_view mean c w) = Inl e \<and> pg_view mean None w' = pg_view mean None w \<or>
       infra e \<and> \<not> online w \<and> (c = None \<longrightarrow> pg_view mean None w' = pg_view mean None w \<or>
         (\<exists>a. spec (pg_view mean None w) = Inr (a, pg_view mean None w'))))"
  proof (cases rule: Executor_cases)
    case (replied a d)
    with carried_out [OF s replied(1), of "wd_now w"] r ok show ?thesis
      by (cases c) (auto simp: pg_view_def pg_ok_def world_ok_def cur_def)
  next
    case (failed_stmt code)
    with rejected [OF s failed_stmt(1), of "wd_now w"] r ok show ?thesis
      by (auto simp: pg_view_def pg_ok_def world_ok_def)
  next
    case (lost e')
    have "schema_ok (wd_db w')"
      using lost(7) carried_out [OF s0] s0 by auto
    moreover have "pg_view mean None w' = pg_view mean None w \<or>
        c = None \<and> (\<exists>a. spec (pg_view mean None w) = Inr (a, pg_view mean None w'))"
      using lost(5,7) pool_effect [OF s0, of _ "wd_db w'" "wd_now w"] by (auto simp: pg_view_def)
    ultimately show ?thesis
      using lost r ok faults by (auto simp: pg_ok_def world_ok_def)
  qed
qed

end

text \<open>Errors of the driver turn into server errors, and so do violations nobody names.\<close>

lemma map_error_fault: "From e = None \<Longrightarrow> infra (map_error e)"
  by (simp add: map_error_def Unavailable_def Internal_def)

lemma fault_infra [simp]:
  "fault_ok e \<Longrightarrow> infra (map_error e)"
  "fault_ok e \<Longrightarrow> infra (on_code unique_violation named e)"
  "fault_ok e \<Longrightarrow> infra (on_code foreign_key_violation named e)"
  by (auto simp: on_code_def map_error_fault fault_ok_def)

lemma map_error_PgError:
  "code \<in> {unique_violation, foreign_key_violation, check_violation, invalid_text,
     numeric_out_of_range, negative_limit, negative_offset, in_failed_transaction} \<Longrightarrow>
   map_error (PgError code) = database_error code"
  by (auto simp: map_error_def isUnavailable_def errors_Is_def errors_As_def HasPrefix_def
      sqlstate_defs database_error_def)

lemma on_code_PgError:
  "on_code code named (PgError c) = (if c = code then App named else map_error (PgError c))"
  by (simp add: on_code_def errors_As_def)

lemma sqlstate_distinct [simp]:
  "invalid_text \<noteq> unique_violation" "invalid_text \<noteq> foreign_key_violation"
  "check_violation \<noteq> unique_violation" "check_violation \<noteq> foreign_key_violation"
  "unique_violation \<noteq> foreign_key_violation" "foreign_key_violation \<noteq> unique_violation"
  "numeric_out_of_range \<noteq> unique_violation"
  by (simp_all add: sqlstate_defs)

section \<open>Queries\<close>

text \<open>A statement that only reads carries out what it computes, on the clock and the tables
  themselves.\<close>

definition tables :: "instant \<Rightarrow> db \<Rightarrow> instant \<times> db" where
  "tables now d = (now, d)"

lemma pg_view_tables [simp]: "pg_view tables c w = (wd_now w, cur c w)"
  by (simp add: pg_view_def tables_def)

definition reading :: "'a stmt \<Rightarrow> ('a \<Rightarrow> 'b) \<Rightarrow> instant \<times> db \<Rightarrow> go_error + 'b \<times> (instant \<times> db)" where
  "reading st f s =
    (case st (snd s) of Inl code \<Rightarrow> Inl (map_error (PgError code)) | Inr (a, _) \<Rightarrow> Inr (f a, s))"

locale read_query =
  fixes st :: "'a stmt"
    and f :: "'a \<Rightarrow> 'b"
  assumes reads_only: "st d = Inr (a, d') \<Longrightarrow> d' = d"
begin

sublocale repository_call tables st map_error "\<lambda>a. Inr (f a)" "reading st f"
proof
  fix d a d' n
  assume "schema_ok d" and run: "st d = Inr (a, d')"
  moreover have "d' = d" using run by (rule reads_only)
  ultimately show "schema_ok d' \<and>
      agrees (Inr (f a)) (tables n d) (tables n d') (reading st f (tables n d))"
    by (simp add: tables_def reading_def)
qed (simp_all add: tables_def reading_def)

text \<open>So it can follow another query without a transaction.\<close>

lemma reading_keeps: "reading st f d = Inr (b, t) \<Longrightarrow> t = d"
  by (auto simp: reading_def split: sum.splits prod.splits)

end

section \<open>Transactions as the services use them\<close>

lemmas tx_defs = pg_ok_def world_ok_def net_ok_def outcome_ok_def online_def in_tx_def pg_view_def cur_def

lemma pool_Begin_cases:
  assumes "world_ok w"
  obtains (began) w1 where "pool_Begin w = (Inr OpenTx, w1)" "pg_ok (Some OpenTx) w1"
      "online w \<longrightarrow> online w1" "cur (Some OpenTx) w1 = wd_db w" "wd_db w1 = wd_db w" "wd_now w1 = wd_now w"
  | (refused) e w1 where "pool_Begin w = (Inl e, w1)" "fault_ok e" "\<not> online w" "world_ok w1"
      "wd_db w1 = wd_db w" "wd_now w1 = wd_now w"
proof (cases w rule: next_outcome_cases)
  case exhausted
  with assms show ?thesis by (auto simp: pool_Begin_def tx_defs intro: began)
next
  case (scripted x xs)
  with assms show ?thesis by (cases x) (auto simp: pool_Begin_def tx_defs intro: began refused)
qed

lemma tx_Rollback_effect:
  "world_ok w \<Longrightarrow> world_ok (tx_Rollback w) \<and> wd_db (tx_Rollback w) = wd_db w \<and>
    wd_now (tx_Rollback w) = wd_now w \<and> (online w \<longrightarrow> online (tx_Rollback w))"
  by (cases w rule: next_outcome_cases) (auto simp: tx_Rollback_def tx_defs)

lemma tx_Commit_cases:
  assumes "pg_ok (Some OpenTx) w"
  obtains (committed) w1 where "tx_Commit w = (None, w1)" "world_ok w1" "online w \<longrightarrow> online w1"
      "wd_db w1 = cur (Some OpenTx) w" "wd_now w1 = wd_now w"
  | (lost) e w1 where "tx_Commit w = (Some e, w1)" "fault_ok e" "\<not> online w" "world_ok w1"
      "wd_db w1 \<in> {wd_db w, cur (Some OpenTx) w}" "wd_now w1 = wd_now w"
proof (cases w rule: next_outcome_cases)
  case exhausted
  with assms show ?thesis
    by (auto simp: tx_Commit_def tx_defs split: option.splits tx_state.splits intro: committed)
next
  case (scripted x xs)
  with assms show ?thesis
    by (cases x) (auto simp: tx_Commit_def tx_defs split: option.splits tx_state.splits
        intro: committed lost)
qed

lemma pg_view_now: "pg_view store_of c w = store_of (wd_now w) (cur c w)"
  by (simp add: pg_view_def)

text \<open>An operation that reads the clock first.\<close>

definition clocked :: "(instant \<Rightarrow> ctx \<Rightarrow> (world, 'a) act) \<Rightarrow> ctx \<Rightarrow> (world, 'a) act" where
  "clocked op c w = op (wd_now w) c w"

definition sclocked :: "(instant \<Rightarrow> 'a spec) \<Rightarrow> 'a spec" where
  "sclocked spec s = spec (st_now s) s"

lemma clocked_method:
  assumes "\<And>n. port_method (pg_view store_of) pg_ok online ctxs (op n) (spec n)"
  shows "port_method (pg_view store_of) pg_ok online ctxs (clocked op) (sclocked spec)"
proof
  fix c w a w'
  assume "c \<in> ctxs" "pg_ok c w" "clocked op c w = (Inr a, w')"
  with port_method.returns [OF assms, of c w "wd_now w" a w']
  show "pg_ok c w' \<and> (online w \<longrightarrow> online w') \<and>
      sclocked spec (pg_view store_of c w) = Inr (a, pg_view store_of c w') \<and>
      (c \<noteq> None \<longrightarrow> pg_view store_of None w' = pg_view store_of None w)"
    by (simp add: clocked_def sclocked_def pg_view_now)
next
  fix c w e w'
  assume "c \<in> ctxs" "pg_ok c w" "clocked op c w = (Inl e, w')"
  with port_method.fails [OF assms, of c w "wd_now w" e w']
  show "pg_ok None w' \<and> (online w \<longrightarrow> online w') \<and>
      (c \<noteq> None \<longrightarrow> pg_view store_of None w' = pg_view store_of None w) \<and>
      (sclocked spec (pg_view store_of c w) = Inl e \<and>
         pg_view store_of None w' = pg_view store_of None w \<or>
       infra e \<and> \<not> online w \<and>
       (c = None \<longrightarrow> pg_view store_of None w' = pg_view store_of None w \<or>
          (\<exists>a. sclocked spec (pg_view store_of None w) = Inr (a, pg_view store_of None w'))))"
    by (simp add: clocked_def sclocked_def pg_view_now)
qed

lemma pg_return: "port_method (pg_view mean) pg_ok online ctxs (areturn a) (sreturn a)"
  by (rule areturn_method)

lemma pg_throw: "port_method (pg_view mean) pg_ok online ctxs (athrow e) (sthrow e)"
  by (rule athrow_method) (simp add: pg_ok_def)

interpretation pg_tx: transaction_manager "pg_view mean" pg_ok online "tx_Do NewTxManager"
  for mean
proof
  fix t fn
  show "tx_Do NewTxManager (Some t) fn = fn (Some t)"
    by (rule ext) (simp add: NewTxManager_def TxManager_Do_def txFromContext_def)
next
  fix w fn r w'
  assume ok: "pg_ok None w" and run: "tx_Do NewTxManager None fn w = (r, w')"
  then have run: "TxManager_Do None fn w = (r, w')" and ok: "world_ok w"
    by (simp_all add: NewTxManager_def)
  note defs = TxManager_Do_def txFromContext_def withTx_def mapError_def
  from ok show "(pg_ok None w' \<and> (online w \<longrightarrow> online w') \<and> pg_view mean None w' = pg_view mean None w \<and>
       \<not> online w \<and> failed r) \<or>
      (\<exists>w1 body w2. pg_ok (Some OpenTx) w1 \<and> (online w \<longrightarrow> online w1) \<and>
         pg_view mean (Some OpenTx) w1 = pg_view mean None w \<and> pg_view mean None w1 = pg_view mean None w \<and>
         fn (Some OpenTx) w1 = (body, w2) \<and>
         ((case body of Inl _ \<Rightarrow> pg_ok None w2 | Inr _ \<Rightarrow> pg_ok (Some OpenTx) w2) \<longrightarrow>
            pg_ok None w' \<and> (online w2 \<longrightarrow> online w') \<and>
            commit_result (online w2) body (pg_view mean None w2) (pg_view mean (Some OpenTx) w2) r
              (pg_view mean None w')))"
  proof (cases rule: pool_Begin_cases)
    case (refused e w1)
    with run show ?thesis by (auto simp: defs pg_view_def map_error_fault fault_ok_def)
  next
    case (began w1)
    obtain body w2 where body: "fn (Some OpenTx) w1 = (body, w2)" by fastforce
    have "(case body of Inl _ \<Rightarrow> pg_ok None w2 | Inr _ \<Rightarrow> pg_ok (Some OpenTx) w2) \<longrightarrow>
        pg_ok None w' \<and> (online w2 \<longrightarrow> online w') \<and>
        commit_result (online w2) body (pg_view mean None w2) (pg_view mean (Some OpenTx) w2) r
          (pg_view mean None w')"
    proof (cases body)
      case (Inl e)
      with run began body tx_Rollback_effect [of w2] show ?thesis
        by (auto simp: defs commit_result_def pg_view_def)
    next
      case (Inr a)
      show ?thesis
      proof
        assume "case body of Inl _ \<Rightarrow> pg_ok None w2 | Inr _ \<Rightarrow> pg_ok (Some OpenTx) w2"
        with Inr have "pg_ok (Some OpenTx) w2" by simp
        then show "pg_ok None w' \<and> (online w2 \<longrightarrow> online w') \<and>
            commit_result (online w2) body (pg_view mean None w2) (pg_view mean (Some OpenTx) w2) r
              (pg_view mean None w')"
        proof (cases rule: tx_Commit_cases)
          case (committed w3)
          with run began body Inr show ?thesis by (auto simp: defs commit_result_def pg_view_def)
        next
          case (lost e w3)
          with run began body Inr show ?thesis
            by (auto simp: defs commit_result_def pg_view_def map_error_fault fault_ok_def)
        qed
      qed
    qed
    with began body show ?thesis
      by (intro disjI2 exI [of _ w1] exI [of _ body] exI [of _ w2] conjI) (simp_all add: pg_view_def)
  qed
qed

section \<open>Properties\<close>

text \<open>
  An error of the driver becomes an error whose code and message, as a client sees
  them, are one of two fixed pairs, so nothing of the driver's text can leak; the error itself
  is kept as the cause.
\<close>

theorem map_error_hides:
  assumes "From err = None"
  shows "\<exists>ae. map_error err = App ae \<and> Err_Unwrap ae = Some err \<and>
    (ClientCode ae, ClientMessage ae) \<in>
      {(CodeInternal, MessageFor CodeInternal), (CodeServiceUnavailable, MessageFor CodeServiceUnavailable)}"
  using assms
  by (auto simp: map_error_def Err_Unwrap_def ClientCode_def ClientMessage_def Unavailable_def Internal_def)

theorem map_error_hides_witness:
  "\<exists>ae. map_error (Wrapped ''exec'' (PgError ''42P01'')) = App ae \<and>
     (ClientCode ae, ClientMessage ae) \<in>
       {(CodeInternal, MessageFor CodeInternal), (CodeServiceUnavailable, MessageFor CodeServiceUnavailable)}"
  using map_error_hides [of "Wrapped ''exec'' (PgError ''42P01'')"] by auto

text \<open>
  Of the errors the server reports exactly those of the classes 08 (connection) and 57
  (operator intervention) count as unavailable, and wrapping an error does not change whether it
  does.
\<close>

theorem isUnavailable_classes:
  "(isUnavailable (PgError code) \<longleftrightarrow> take 2 code = ''08'' \<or> take 2 code = ''57'') \<and>
   (isUnavailable (Wrapped s e) \<longleftrightarrow> isUnavailable e)"
proof
  have "length ''08'' = 2" "length ''57'' = 2" by simp_all
  then show "isUnavailable (PgError code) \<longleftrightarrow> take 2 code = ''08'' \<or> take 2 code = ''57''"
    by (simp add: isUnavailable_def errors_Is_def errors_As_def HasPrefix_def del: list.size)
  show "isUnavailable (Wrapped s e) \<longleftrightarrow> isUnavailable e"
    by (simp add: isUnavailable_def errors_Is_def errors_As_def split: option.split)
qed

end
