(* ===== verification/PgHousehold.thy ===== *)
theory PgHousehold
  imports Postgres
begin

text \<open>
  \<open>internal/adapter/out/postgres/household.go\<close>: the statements of the household
  repository and its methods.
\<close>

section \<open>Statements\<close>

definition sql_insert_household :: "householdRow \<Rightarrow> unit stmt" where
  "sql_insert_household r d =
    (if \<not> pg_text (hw_owner_name r) \<or> \<not> pg_text (hw_address r) then Inl invalid_text
     else if hw_id r \<in> hw_id ` set (tb_households d) then Inl unique_violation
     else Inr ((), d\<lparr>tb_households := tb_households d @ [r]\<rparr>))"

definition sql_list_households :: "gint \<Rightarrow> gint \<Rightarrow> householdRow list stmt" where
  "sql_list_households lmt off d =
    (case limit_offset lmt off (order_desc hw_created_at (tb_ties d \<circ> hw_id) (tb_households d)) of
       Inl code \<Rightarrow> Inl code
     | Inr rows \<Rightarrow> Inr (rows, d))"

definition sql_count_households :: "nat stmt" where
  "sql_count_households d = Inr (length (tb_households d), d)"

definition sql_find_household :: "uuid \<Rightarrow> householdRow list stmt" where
  "sql_find_household i d = Inr (filter (\<lambda>r. hw_id r = i) (tb_households d), d)"

text \<open>Both references to \<open>households\<close> are \<open>ON DELETE RESTRICT\<close>. The result is the number
  of rows deleted.\<close>

definition sql_delete_household :: "uuid \<Rightarrow> nat stmt" where
  "sql_delete_household i d =
    (if (\<exists>h \<in> set (tb_households d). hw_id h = i) \<and>
        ((\<exists>p \<in> set (tb_pickups d). pw_household_id p = i) \<or>
         (\<exists>y \<in> set (tb_payments d). yw_household_id y = i))
     then Inl foreign_key_violation
     else Inr (length (filter (\<lambda>h. hw_id h = i) (tb_households d)),
               d\<lparr>tb_households := filter (\<lambda>h. hw_id h \<noteq> i) (tb_households d)\<rparr>))"

section \<open>Methods\<close>

definition HouseholdRepository_Insert :: "ctx \<Rightarrow> Household \<Rightarrow> (world, unit) act" where
  "HouseholdRepository_Insert c h w =
    (case Executor c (sql_insert_household
            \<lparr>hw_id = hh_ID h, hw_owner_name = hh_OwnerName h, hw_address = hh_Address h,
             hw_created_at = hh_CreatedAt h, hw_updated_at = hh_UpdatedAt h\<rparr>) w of
       (Inl err, w) \<Rightarrow> (Inl (map_error err), w)
     | (Inr _, w) \<Rightarrow> (Inr (), w))"

definition HouseholdRepository_List :: "ctx \<Rightarrow> gint \<Rightarrow> gint \<Rightarrow> (world, Household list) act" where
  "HouseholdRepository_List c lmt off w =
    (case Executor c (sql_list_households lmt off) w of
       (Inl err, w) \<Rightarrow> (Inl (map_error err), w)
     | (Inr collected, w) \<Rightarrow> (Inr (map householdRow_toDomain collected), w))"

definition HouseholdRepository_Count :: "ctx \<Rightarrow> (world, nat) act" where
  "HouseholdRepository_Count c w =
    (case Executor c sql_count_households w of
       (Inl err, w) \<Rightarrow> (Inl (map_error err), w)
     | (Inr n, w) \<Rightarrow> (Inr n, w))"

text \<open>\<open>pgx.CollectExactlyOneRow\<close> fails on no row with \<open>ErrNoRows\<close> and on a second row
  with \<open>ErrTooManyRows\<close>.\<close>

definition HouseholdRepository_FindByID :: "ctx \<Rightarrow> uuid \<Rightarrow> (world, Household) act" where
  "HouseholdRepository_FindByID c i w =
    (case Executor c (sql_find_household i) w of
       (Inl err, w) \<Rightarrow> (Inl (map_error err), w)
     | (Inr [], w) \<Rightarrow> (Inl (App ErrHouseholdNotFound), w)
     | (Inr [row], w) \<Rightarrow> (Inr (householdRow_toDomain row), w)
     | (Inr _, w) \<Rightarrow> (Inl (map_error (Opaque ''too many rows'')), w))"

definition HouseholdRepository_Delete :: "ctx \<Rightarrow> uuid \<Rightarrow> (world, unit) act" where
  "HouseholdRepository_Delete c i w =
    (case Executor c (sql_delete_household i) w of
       (Inl err, w) \<Rightarrow>
         if errors_As as_PgError err = Some foreign_key_violation
         then (Inl (App ErrHouseholdHasDependents), w)
         else (Inl (map_error err), w)
     | (Inr affected, w) \<Rightarrow>
         if affected = 0 then (Inl (App ErrHouseholdNotFound), w) else (Inr (), w))"

definition NewHouseholdRepository :: "world HouseholdRepository" where
  "NewHouseholdRepository =
    \<lparr>hr_List = HouseholdRepository_List, hr_Count = HouseholdRepository_Count,
     hr_FindByID = HouseholdRepository_FindByID, hr_Insert = HouseholdRepository_Insert,
     hr_Delete = HouseholdRepository_Delete\<rparr>"


section \<open>The methods carry out their abstract operations\<close>

definition household_row :: "Household \<Rightarrow> householdRow" where
  "household_row h =
    \<lparr>hw_id = hh_ID h, hw_owner_name = hh_OwnerName h, hw_address = hh_Address h,
     hw_created_at = hh_CreatedAt h, hw_updated_at = hh_UpdatedAt h\<rparr>"

lemma household_calls:
  "HouseholdRepository_FindByID c i =
     call (sql_find_household i) map_error (one_row householdRow_toDomain ErrHouseholdNotFound) c"
  "HouseholdRepository_Insert c h = call (sql_insert_household (household_row h)) map_error Inr c"
  "HouseholdRepository_Delete c i =
     call (sql_delete_household i) (on_code foreign_key_violation ErrHouseholdHasDependents)
       (some_affected ErrHouseholdNotFound) c"
  "HouseholdRepository_List c lmt off =
     call (sql_list_households lmt off) map_error (\<lambda>rows. Inr (map householdRow_toDomain rows)) c"
  "HouseholdRepository_Count c = call sql_count_households map_error Inr c"
  by (rule ext, simp add: call_defs household_row_def
    HouseholdRepository_FindByID_def HouseholdRepository_Insert_def HouseholdRepository_Delete_def
    HouseholdRepository_List_def HouseholdRepository_Count_def
    split: prod.splits sum.splits list.splits)+

lemma household_row_toDomain [simp]: "householdRow_toDomain (household_row h) = h"
  by (simp add: householdRow_toDomain_def household_row_def)

lemma household_row_sel [simp]:
  "hw_id (household_row h) = hh_ID h" "hw_owner_name (household_row h) = hh_OwnerName h"
  "hw_address (household_row h) = hh_Address h"
  by (simp_all add: household_row_def)

interpretation find_household: repository_call store_of "sql_find_household i" map_error
    "one_row householdRow_toDomain ErrHouseholdNotFound" "find_in st_households ErrHouseholdNotFound i"
  for i
proof
  fix d a d' n
  assume "schema_ok d" "sql_find_household i d = Inr (a, d')"
  then show "schema_ok d' \<and> agrees (one_row householdRow_toDomain ErrHouseholdNotFound a)
      (store_of n d) (store_of n d') (find_in st_households ErrHouseholdNotFound i (store_of n d))"
    by (auto simp: sql_find_household_def find_in_def one_row_def household_map_def filter_key_only
        schema_ok_def split: option.splits)
qed (simp_all add: sql_find_household_def)

interpretation insert_household: repository_call store_of "sql_insert_household (household_row h)"
    map_error Inr "add_household h"
  for h
proof
  fix d a d' n
  assume "schema_ok d" "sql_insert_household (household_row h) d = Inr (a, d')"
  then show "schema_ok d' \<and> agrees (Inr a) (store_of n d) (store_of n d') (add_household h (store_of n d))"
    by (auto simp: sql_insert_household_def add_household_def schema_ok_add_household
        store_of_def household_map_add split: if_splits)
qed (auto simp: sql_insert_household_def add_household_def map_error_PgError split: if_splits)

interpretation delete_household: repository_call store_of "sql_delete_household i"
    "on_code foreign_key_violation ErrHouseholdHasDependents" "some_affected ErrHouseholdNotFound"
    "remove_household i"
  for i
proof
  fix d a d' n
  assume ok: "schema_ok d" and run: "sql_delete_household i d = Inr (a, d')"
  then have d': "d' = d\<lparr>tb_households := filter (\<lambda>h. hw_id h \<noteq> i) (tb_households d)\<rparr>"
    and a: "a = length (filter (\<lambda>h. hw_id h = i) (tb_households d))"
    and free: "i \<notin> hw_id ` set (tb_households d) \<or>
      ((\<forall>p \<in> set (tb_pickups d). pw_household_id p \<noteq> i) \<and>
       (\<forall>y \<in> set (tb_payments d). yw_household_id y \<noteq> i))"
    by (auto simp: sql_delete_household_def split: if_splits)
  then have free: "(\<forall>p \<in> set (tb_pickups d). pw_household_id p \<noteq> i)"
      "(\<forall>y \<in> set (tb_payments d). yw_household_id y \<noteq> i)"
    using schema_okD(5,7) [OF ok] by blast+
  have "a = 0 \<longleftrightarrow> i \<notin> hw_id ` set (tb_households d)"
    by (auto simp: a filter_empty_conv)
  then show "schema_ok d' \<and> agrees (some_affected ErrHouseholdNotFound a) (store_of n d) (store_of n d')
      (remove_household i (store_of n d))"
    using free ok
    by (auto simp: d' some_affected_def remove_household_def ran_pickup_map ran_payment_map
        schema_ok_remove_household household_map_remove store_of_def fun_upd_idem maps_None)
next
  fix d code n
  assume "schema_ok d" "sql_delete_household i d = Inl code"
  then show "remove_household i (store_of n d) =
      Inl (on_code foreign_key_violation ErrHouseholdHasDependents (PgError code))"
    by (auto simp: sql_delete_household_def remove_household_def on_code_PgError ran_pickup_map
        ran_payment_map split: if_splits)
qed simp

end
