(* ===== verification/PgPickup.thy ===== *)
theory PgPickup
  imports Postgres
begin

text \<open>
  \<open>internal/adapter/out/postgres/pickup.go\<close> and \<open>helper.go\<close>: the statements of the
  pickup repository and its methods. The three transitions are \<open>UPDATE\<close>s whose \<open>WHERE\<close>
  clause holds the source status.
\<close>

section \<open>Statements\<close>

definition sql_insert_pickup :: "pickupRow \<Rightarrow> unit stmt" where
  "sql_insert_pickup r d =
    (if \<not> pg_text (pw_type r) \<or> \<not> pg_text (pw_status r) then Inl invalid_text
     else if \<not> check_pickup_type (pw_type r) \<or> \<not> check_pickup_status (pw_status r)
     then Inl check_violation
     else if pw_id r \<in> pw_id ` set (tb_pickups d) then Inl unique_violation
     else if pw_household_id r \<notin> hw_id ` set (tb_households d) then Inl foreign_key_violation
     else Inr ((), d\<lparr>tb_pickups := tb_pickups d @ [r]\<rparr>))"

definition pickup_matches :: "string option \<Rightarrow> uuid option \<Rightarrow> pickupRow \<Rightarrow> bool" where
  "pickup_matches status household r \<longleftrightarrow>
     (status = None \<or> status = Some (pw_status r)) \<and>
     (household = None \<or> household = Some (pw_household_id r))"

definition text_arg_ok :: "string option \<Rightarrow> bool" where
  "text_arg_ok a \<longleftrightarrow> (case a of None \<Rightarrow> True | Some s \<Rightarrow> pg_text s)"

definition sql_list_pickups ::
  "string option \<Rightarrow> uuid option \<Rightarrow> gint \<Rightarrow> gint \<Rightarrow> pickupRow list stmt" where
  "sql_list_pickups status household lmt off d =
    (if \<not> text_arg_ok status then Inl invalid_text
     else (case limit_offset lmt off
                  (order_desc pw_created_at (tb_ties d \<circ> pw_id)
                     (filter (pickup_matches status household) (tb_pickups d))) of
             Inl code \<Rightarrow> Inl code
           | Inr rows \<Rightarrow> Inr (rows, d)))"

definition sql_count_pickups :: "string option \<Rightarrow> uuid option \<Rightarrow> nat stmt" where
  "sql_count_pickups status household d =
    (if \<not> text_arg_ok status then Inl invalid_text
     else Inr (length (filter (pickup_matches status household) (tb_pickups d)), d))"

definition sql_find_pickup :: "uuid \<Rightarrow> pickupRow list stmt" where
  "sql_find_pickup i d = Inr (filter (\<lambda>r. pw_id r = i) (tb_pickups d), d)"

text \<open>\<open>UPDATE ... WHERE id = i AND guard RETURNING ...\<close>\<close>

definition sql_update_pickup ::
  "uuid \<Rightarrow> (pickupRow \<Rightarrow> bool) \<Rightarrow> (pickupRow \<Rightarrow> pickupRow) \<Rightarrow> pickupRow list stmt" where
  "sql_update_pickup i guard f d =
    Inr (map f (filter (\<lambda>r. pw_id r = i \<and> guard r) (tb_pickups d)),
         d\<lparr>tb_pickups := update_where (\<lambda>r. pw_id r = i \<and> guard r) f (tb_pickups d)\<rparr>)"

definition schedule_guard :: "pickupRow \<Rightarrow> bool" where
  "schedule_guard r \<longleftrightarrow>
     pw_status r = PickupPending \<and> (pw_type r \<noteq> PickupElectronic \<or> pw_safety_check r = True)"

definition schedule_set :: "instant \<Rightarrow> instant \<Rightarrow> pickupRow \<Rightarrow> pickupRow" where
  "schedule_set date now r =
     r\<lparr>pw_status := PickupScheduled, pw_pickup_date := Some date, pw_updated_at := now\<rparr>"

definition complete_guard :: "pickupRow \<Rightarrow> bool" where
  "complete_guard r \<longleftrightarrow> pw_status r = PickupScheduled"

definition complete_set :: "instant \<Rightarrow> pickupRow \<Rightarrow> pickupRow" where
  "complete_set now r = r\<lparr>pw_status := PickupCompleted, pw_updated_at := now\<rparr>"

definition cancel_guard :: "pickupRow \<Rightarrow> bool" where
  "cancel_guard r \<longleftrightarrow> pw_status r \<in> {PickupPending, PickupScheduled}"

definition cancel_set :: "instant \<Rightarrow> pickupRow \<Rightarrow> pickupRow" where
  "cancel_set now r = r\<lparr>pw_status := PickupCanceled, pw_updated_at := now\<rparr>"

definition stale_guard :: "instant \<Rightarrow> pickupRow \<Rightarrow> bool" where
  "stale_guard olderThan r \<longleftrightarrow>
     pw_type r = PickupOrganic \<and> pw_status r \<in> {PickupPending, PickupScheduled} \<and>
     pw_created_at r < olderThan"

definition sql_cancel_stale :: "instant \<Rightarrow> instant \<Rightarrow> nat stmt" where
  "sql_cancel_stale olderThan now d =
    Inr (length (filter (stale_guard olderThan) (tb_pickups d)),
         d\<lparr>tb_pickups := update_where (stale_guard olderThan) (cancel_set now) (tb_pickups d)\<rparr>)"

section \<open>Methods\<close>

definition statusArg :: "PickupStatus option \<Rightarrow> string option" where
  "statusArg status = (case status of None \<Rightarrow> None | Some s \<Rightarrow> Some s)"

definition PickupRepository_Insert :: "ctx \<Rightarrow> Pickup \<Rightarrow> (world, unit) act" where
  "PickupRepository_Insert c p w =
    (case Executor c (sql_insert_pickup
            \<lparr>pw_id = pk_ID p, pw_household_id = pk_HouseholdID p, pw_type = pk_Type p,
             pw_status = pk_Status p, pw_pickup_date = pk_PickupDate p,
             pw_safety_check = pk_SafetyCheck p, pw_created_at = pk_CreatedAt p,
             pw_updated_at = pk_UpdatedAt p\<rparr>) w of
       (Inl err, w) \<Rightarrow>
         if errors_As as_PgError err = Some foreign_key_violation
         then (Inl (App ErrHouseholdNotFound), w)
         else (Inl (map_error err), w)
     | (Inr _, w) \<Rightarrow> (Inr (), w))"

definition PickupRepository_List ::
  "ctx \<Rightarrow> PickupStatus option \<Rightarrow> uuid option \<Rightarrow> gint \<Rightarrow> gint \<Rightarrow> (world, Pickup list) act" where
  "PickupRepository_List c status household lmt off w =
    (case Executor c (sql_list_pickups (statusArg status) household lmt off) w of
       (Inl err, w) \<Rightarrow> (Inl (map_error err), w)
     | (Inr collected, w) \<Rightarrow> (Inr (map pickupRow_toDomain collected), w))"

definition PickupRepository_Count ::
  "ctx \<Rightarrow> PickupStatus option \<Rightarrow> uuid option \<Rightarrow> (world, nat) act" where
  "PickupRepository_Count c status household w =
    (case Executor c (sql_count_pickups (statusArg status) household) w of
       (Inl err, w) \<Rightarrow> (Inl (map_error err), w)
     | (Inr n, w) \<Rightarrow> (Inr n, w))"

definition PickupRepository_FindByID :: "ctx \<Rightarrow> uuid \<Rightarrow> (world, Pickup) act" where
  "PickupRepository_FindByID c i w =
    (case Executor c (sql_find_pickup i) w of
       (Inl err, w) \<Rightarrow> (Inl (map_error err), w)
     | (Inr [], w) \<Rightarrow> (Inl (App ErrPickupNotFound), w)
     | (Inr [row], w) \<Rightarrow> (Inr (pickupRow_toDomain row), w)
     | (Inr _, w) \<Rightarrow> (Inl (map_error (Opaque ''too many rows'')), w))"

definition returningOne :: "ctx \<Rightarrow> pickupRow list stmt \<Rightarrow> (world, Pickup option) act" where
  "returningOne c query w =
    (case Executor c query w of
       (Inl err, w) \<Rightarrow> (Inl (map_error err), w)
     | (Inr [], w) \<Rightarrow> (Inr None, w)
     | (Inr [row], w) \<Rightarrow> (Inr (Some (pickupRow_toDomain row)), w)
     | (Inr _, w) \<Rightarrow> (Inl (map_error (Opaque ''too many rows'')), w))"

definition PickupRepository_Schedule ::
  "ctx \<Rightarrow> uuid \<Rightarrow> instant \<Rightarrow> instant \<Rightarrow> (world, Pickup option) act" where
  "PickupRepository_Schedule c i date now =
     returningOne c (sql_update_pickup i schedule_guard (schedule_set date now))"

definition PickupRepository_Complete :: "ctx \<Rightarrow> uuid \<Rightarrow> instant \<Rightarrow> (world, Pickup option) act" where
  "PickupRepository_Complete c i now =
     returningOne c (sql_update_pickup i complete_guard (complete_set now))"

definition PickupRepository_Cancel :: "ctx \<Rightarrow> uuid \<Rightarrow> instant \<Rightarrow> (world, Pickup option) act" where
  "PickupRepository_Cancel c i now =
     returningOne c (sql_update_pickup i cancel_guard (cancel_set now))"

definition PickupRepository_CancelStaleOrganic :: "ctx \<Rightarrow> instant \<Rightarrow> instant \<Rightarrow> (world, nat) act" where
  "PickupRepository_CancelStaleOrganic c olderThan now w =
    (case Executor c (sql_cancel_stale olderThan now) w of
       (Inl err, w) \<Rightarrow> (Inl (map_error err), w)
     | (Inr affected, w) \<Rightarrow> (Inr affected, w))"

definition NewPickupRepository :: "world PickupRepository" where
  "NewPickupRepository =
    \<lparr>pr_List = PickupRepository_List, pr_Count = PickupRepository_Count,
     pr_FindByID = PickupRepository_FindByID, pr_Insert = PickupRepository_Insert,
     pr_Schedule = PickupRepository_Schedule, pr_Complete = PickupRepository_Complete,
     pr_Cancel = PickupRepository_Cancel,
     pr_CancelStaleOrganic = PickupRepository_CancelStaleOrganic\<rparr>"


section \<open>The methods carry out their abstract operations\<close>

definition pickup_row :: "Pickup \<Rightarrow> pickupRow" where
  "pickup_row p =
    \<lparr>pw_id = pk_ID p, pw_household_id = pk_HouseholdID p, pw_type = pk_Type p,
     pw_status = pk_Status p, pw_pickup_date = pk_PickupDate p, pw_safety_check = pk_SafetyCheck p,
     pw_created_at = pk_CreatedAt p, pw_updated_at = pk_UpdatedAt p\<rparr>"

lemma pickup_calls:
  "PickupRepository_FindByID c i =
     call (sql_find_pickup i) map_error (one_row pickupRow_toDomain ErrPickupNotFound) c"
  "PickupRepository_Insert c p =
     call (sql_insert_pickup (pickup_row p)) (on_code foreign_key_violation ErrHouseholdNotFound) Inr c"
  "returningOne c st = call st map_error (opt_row pickupRow_toDomain) c"
  "PickupRepository_CancelStaleOrganic c olderThan now =
     call (sql_cancel_stale olderThan now) map_error Inr c"
  "PickupRepository_List c status household lmt off =
     call (sql_list_pickups status household lmt off) map_error
       (\<lambda>rows. Inr (map pickupRow_toDomain rows)) c"
  "PickupRepository_Count c status household = call (sql_count_pickups status household) map_error Inr c"
  by (rule ext, simp add: call_defs pickup_row_def PickupRepository_FindByID_def
    PickupRepository_Insert_def returningOne_def PickupRepository_CancelStaleOrganic_def
    PickupRepository_List_def PickupRepository_Count_def statusArg_def
    split: prod.splits sum.splits list.splits option.splits)+

lemma pickup_row_toDomain [simp]: "pickupRow_toDomain (pickup_row p) = p"
  by (simp add: pickupRow_toDomain_def pickup_row_def)

lemma pickup_row_sel [simp]:
  "pw_id (pickup_row p) = pk_ID p" "pw_household_id (pickup_row p) = pk_HouseholdID p"
  "pw_type (pickup_row p) = pk_Type p" "pw_status (pickup_row p) = pk_Status p"
  by (simp_all add: pickup_row_def)

interpretation find_pickup: repository_call store_of "sql_find_pickup i" map_error
    "one_row pickupRow_toDomain ErrPickupNotFound" "find_in st_pickups ErrPickupNotFound i"
  for i
proof
  fix d a d' n
  assume "schema_ok d" "sql_find_pickup i d = Inr (a, d')"
  then show "schema_ok d' \<and> agrees (one_row pickupRow_toDomain ErrPickupNotFound a)
      (store_of n d) (store_of n d') (find_in st_pickups ErrPickupNotFound i (store_of n d))"
    by (auto simp: sql_find_pickup_def find_in_def one_row_def pickup_map_def filter_key_only
        schema_ok_def split: option.splits)
qed (simp_all add: sql_find_pickup_def)

interpretation insert_pickup: repository_call store_of "sql_insert_pickup (pickup_row p)"
    "on_code foreign_key_violation ErrHouseholdNotFound" Inr "add_pickup p"
  for p
proof
  fix d a d' n
  assume "schema_ok d" "sql_insert_pickup (pickup_row p) d = Inr (a, d')"
  then show "schema_ok d' \<and> agrees (Inr a) (store_of n d) (store_of n d') (add_pickup p (store_of n d))"
    by (auto simp: sql_insert_pickup_def add_pickup_def schema_ok_add_pickup check_pickup_type_Valid
        store_of_def pickup_map_add split: if_splits)
next
  fix d code n
  assume "schema_ok d" "sql_insert_pickup (pickup_row p) d = Inl code"
  then show "add_pickup p (store_of n d) =
      Inl (on_code foreign_key_violation ErrHouseholdNotFound (PgError code))"
    by (auto simp: sql_insert_pickup_def add_pickup_def check_pickup_type_Valid map_error_PgError
        on_code_PgError split: if_splits)
qed simp

text \<open>A guarded transition of the rows, and the transition of the entities it stands for.\<close>

locale pickup_transition =
  fixes g :: "pickupRow \<Rightarrow> bool"
    and fr :: "pickupRow \<Rightarrow> pickupRow"
    and guard :: "Pickup \<Rightarrow> bool"
    and f :: "Pickup \<Rightarrow> Pickup"
  assumes same_guard: "guard (pickupRow_toDomain r) \<longleftrightarrow> g r"
    and same_effect: "pickupRow_toDomain (fr r) = f (pickupRow_toDomain r)"
    and keeps: "pw_id (fr r) = pw_id r" "pw_household_id (fr r) = pw_household_id r"
      "pw_type (fr r) = pw_type r"
    and listed_status: "check_pickup_status (pw_status (fr r))"
begin

lemma changes:
  assumes "schema_ok d"
  shows "schema_ok (d\<lparr>tb_pickups := update_where (\<lambda>r. pw_id r = i \<and> g r) fr (tb_pickups d)\<rparr>)"
  using assms by (rule schema_ok_update_pickups) (simp add: keeps listed_status)

sublocale update: repository_call store_of "sql_update_pickup i g fr" map_error
    "opt_row pickupRow_toDomain" "change_pickup i guard f"
  for i
proof
  fix d a d' n
  assume ok: "schema_ok d" and "sql_update_pickup i g fr d = Inr (a, d')"
  then have d': "d' = d\<lparr>tb_pickups := update_where (\<lambda>r. pw_id r = i \<and> g r) fr (tb_pickups d)\<rparr>"
    and a: "a = map fr (filter (\<lambda>r. pw_id r = i \<and> g r) (tb_pickups d))"
    by (simp_all add: sql_update_pickup_def)
  have "schema_ok d'" unfolding d' using ok by (rule changes)
  moreover have "agrees (opt_row pickupRow_toDomain a) (store_of n d) (store_of n d')
      (change_pickup i guard f (store_of n d))"
    using ok
    by (cases "lookup_by pw_id (tb_pickups d) i")
      (auto simp: a d' change_pickup_def opt_row_def store_of_def pickup_map_update_one keeps
        filter_key schema_ok_def same_guard same_effect pickup_map_def fun_upd_idem)
  ultimately show "schema_ok d' \<and> agrees (opt_row pickupRow_toDomain a) (store_of n d)
      (store_of n d') (change_pickup i guard f (store_of n d))"
    by blast
qed (simp_all add: sql_update_pickup_def)

end

definition scheduled_for :: "instant \<Rightarrow> instant \<Rightarrow> Pickup \<Rightarrow> Pickup" where
  "scheduled_for date now p =
     p\<lparr>pk_Status := PickupScheduled, pk_PickupDate := Some date, pk_UpdatedAt := now\<rparr>"

definition completed_at :: "instant \<Rightarrow> Pickup \<Rightarrow> Pickup" where
  "completed_at now p = p\<lparr>pk_Status := PickupCompleted, pk_UpdatedAt := now\<rparr>"

lemma toDomain_set [simp]:
  "pickupRow_toDomain (schedule_set date now r) = scheduled_for date now (pickupRow_toDomain r)"
  "pickupRow_toDomain (complete_set now r) = completed_at now (pickupRow_toDomain r)"
  "pickupRow_toDomain (cancel_set now r) = canceled now (pickupRow_toDomain r)"
  by (simp_all add: pickupRow_toDomain_def schedule_set_def complete_set_def cancel_set_def
      scheduled_for_def completed_at_def canceled_def)

lemma set_sel [simp]:
  "pw_id (schedule_set date now r) = pw_id r" "pw_id (complete_set now r) = pw_id r"
  "pw_id (cancel_set now r) = pw_id r"
  "pw_household_id (schedule_set date now r) = pw_household_id r"
  "pw_household_id (complete_set now r) = pw_household_id r"
  "pw_household_id (cancel_set now r) = pw_household_id r"
  "pw_type (schedule_set date now r) = pw_type r" "pw_type (complete_set now r) = pw_type r"
  "pw_type (cancel_set now r) = pw_type r"
  "pw_status (schedule_set date now r) = PickupScheduled"
  "pw_status (complete_set now r) = PickupCompleted"
  "pw_status (cancel_set now r) = PickupCanceled"
  by (simp_all add: schedule_set_def complete_set_def cancel_set_def)

interpretation schedule: pickup_transition schedule_guard "schedule_set date now"
    "\<lambda>p. CanSchedule p = None" "scheduled_for date now"
  for date now
  by unfold_locales (auto simp: schedule_guard_def CanSchedule_None_iff)

interpretation complete: pickup_transition complete_guard "complete_set now"
    "\<lambda>p. pk_Status p = PickupScheduled" "completed_at now"
  for now
  by unfold_locales (auto simp: complete_guard_def)

interpretation cancel: pickup_transition cancel_guard "cancel_set now"
    "\<lambda>p. pk_Status p \<in> {PickupPending, PickupScheduled}" "canceled now"
  for now
  by unfold_locales (auto simp: cancel_guard_def)

lemma stale_toDomain: "stale olderThan (pickupRow_toDomain r) \<longleftrightarrow> stale_guard olderThan r"
  by (simp add: stale_def stale_guard_def)

interpretation cancel_stale: repository_call store_of "sql_cancel_stale olderThan now" map_error Inr
    "cancel_stale olderThan now"
  for olderThan now
proof
  fix d a d' n
  assume ok: "schema_ok d" and "sql_cancel_stale olderThan now d = Inr (a, d')"
  then have d': "d' = d\<lparr>tb_pickups := update_where (stale_guard olderThan) (cancel_set now) (tb_pickups d)\<rparr>"
    and a: "a = length (filter (stale_guard olderThan) (tb_pickups d))"
    by (simp_all add: sql_cancel_stale_def)
  have "schema_ok d'"
    unfolding d' using ok by (rule schema_ok_update_pickups) simp
  moreover have "{i. \<exists>p. pickup_map d i = Some p \<and> stale olderThan p} =
      {i. \<exists>r. lookup_by pw_id (tb_pickups d) i = Some r \<and> stale_guard olderThan r}"
    by (auto simp: pickup_map_def stale_toDomain)
  ultimately show "schema_ok d' \<and>
      agrees (Inr a) (store_of n d) (store_of n d') (cancel_stale olderThan now (store_of n d))"
    using ok
    by (auto simp: a d' cancel_stale_def store_of_def pickup_map_update_all count_by_key
        schema_ok_def pickup_map_def stale_toDomain option.map_comp comp_def
        intro!: ext option.map_cong)
qed (simp_all add: sql_cancel_stale_def)

end
