(* ===== verification/PgPayment.thy ===== *)
theory PgPayment
  imports PgPickup
begin

text \<open>
  \<open>internal/adapter/out/postgres/payment.go\<close>: the statements of the payment repository and
  its methods.
\<close>

section \<open>Statements\<close>

definition sql_has_pending :: "uuid \<Rightarrow> bool stmt" where
  "sql_has_pending household d =
    Inr ((\<exists>y \<in> set (tb_payments d). yw_household_id y = household \<and> yw_status y = PaymentPending), d)"

text \<open>The amount arrives as a decimal: the column's type is applied to it before the constraints
  are checked. A payment refers to its household and to its pickup.\<close>

definition sql_insert_payment :: "decimal \<Rightarrow> paymentRow \<Rightarrow> unit stmt" where
  "sql_insert_payment amount r d =
    (if \<not> pg_text (yw_status r) \<or> \<not> text_arg_ok (yw_proof_file_url r) then Inl invalid_text
     else if \<not> fits_numeric_14_2 amount then Inl numeric_out_of_range
     else if \<not> check_payment_status (yw_status r) then Inl check_violation
     else if yw_id r \<in> yw_id ` set (tb_payments d) \<or>
             yw_waste_id r \<in> yw_waste_id ` set (tb_payments d) then Inl unique_violation
     else if yw_household_id r \<notin> hw_id ` set (tb_households d) \<or>
             yw_waste_id r \<notin> pw_id ` set (tb_pickups d) then Inl foreign_key_violation
     else Inr ((), d\<lparr>tb_payments := tb_payments d @ [r\<lparr>yw_amount := hundredths amount\<rparr>]\<rparr>))"

definition date_from_ok :: "instant option \<Rightarrow> instant option \<Rightarrow> bool" where
  "date_from_ok from d \<longleftrightarrow>
    (case from of None \<Rightarrow> True | Some f \<Rightarrow> (case d of None \<Rightarrow> False | Some t \<Rightarrow> f \<le> t))"

definition date_to_ok :: "instant option \<Rightarrow> instant option \<Rightarrow> bool" where
  "date_to_ok to d \<longleftrightarrow>
    (case to of None \<Rightarrow> True | Some f \<Rightarrow> (case d of None \<Rightarrow> False | Some t \<Rightarrow> t \<le> f))"

definition payment_matches ::
  "string option \<Rightarrow> uuid option \<Rightarrow> instant option \<Rightarrow> instant option \<Rightarrow> paymentRow \<Rightarrow> bool" where
  "payment_matches status household dateFrom dateTo r \<longleftrightarrow>
     (status = None \<or> status = Some (yw_status r)) \<and>
     (household = None \<or> household = Some (yw_household_id r)) \<and>
     date_from_ok dateFrom (yw_payment_date r) \<and> date_to_ok dateTo (yw_payment_date r)"

definition sql_list_payments ::
  "string option \<Rightarrow> uuid option \<Rightarrow> instant option \<Rightarrow> instant option \<Rightarrow> gint \<Rightarrow> gint \<Rightarrow>
   paymentRow list stmt" where
  "sql_list_payments status household dateFrom dateTo lmt off d =
    (if \<not> text_arg_ok status then Inl invalid_text
     else (case limit_offset lmt off (order_desc yw_created_at (tb_ties d \<circ> yw_id)
                  (filter (payment_matches status household dateFrom dateTo) (tb_payments d))) of
             Inl code \<Rightarrow> Inl code
           | Inr rows \<Rightarrow> Inr (rows, d)))"

definition sql_count_payments ::
  "string option \<Rightarrow> uuid option \<Rightarrow> instant option \<Rightarrow> instant option \<Rightarrow> nat stmt" where
  "sql_count_payments status household dateFrom dateTo d =
    (if \<not> text_arg_ok status then Inl invalid_text
     else Inr (length (filter (payment_matches status household dateFrom dateTo) (tb_payments d)), d))"

definition sql_find_payment :: "uuid \<Rightarrow> paymentRow list stmt" where
  "sql_find_payment i d = Inr (filter (\<lambda>r. yw_id r = i) (tb_payments d), d)"

definition confirm_guard :: "paymentRow \<Rightarrow> bool" where
  "confirm_guard r \<longleftrightarrow> yw_status r = PaymentPending"

definition confirm_set :: "string \<Rightarrow> instant \<Rightarrow> paymentRow \<Rightarrow> paymentRow" where
  "confirm_set proofURL now r =
     r\<lparr>yw_status := PaymentPaid, yw_proof_file_url := Some proofURL,
       yw_payment_date := Some now, yw_updated_at := now\<rparr>"

definition sql_confirm_payment :: "uuid \<Rightarrow> string \<Rightarrow> instant \<Rightarrow> paymentRow list stmt" where
  "sql_confirm_payment i proofURL now d =
    (if \<not> pg_text proofURL then Inl invalid_text
     else Inr (map (confirm_set proofURL now)
                 (filter (\<lambda>r. yw_id r = i \<and> confirm_guard r) (tb_payments d)),
               d\<lparr>tb_payments := update_where (\<lambda>r. yw_id r = i \<and> confirm_guard r)
                                  (confirm_set proofURL now) (tb_payments d)\<rparr>))"

section \<open>Methods\<close>

definition paymentStatusArg :: "PaymentStatus option \<Rightarrow> string option" where
  "paymentStatusArg status = (case status of None \<Rightarrow> None | Some s \<Rightarrow> Some s)"

definition PaymentRepository_HasPendingByHousehold :: "ctx \<Rightarrow> uuid \<Rightarrow> (world, bool) act" where
  "PaymentRepository_HasPendingByHousehold c household w =
    (case Executor c (sql_has_pending household) w of
       (Inl err, w) \<Rightarrow> (Inl (map_error err), w)
     | (Inr exists, w) \<Rightarrow> (Inr exists, w))"

definition PaymentRepository_Insert :: "ctx \<Rightarrow> Payment \<Rightarrow> (world, unit) act" where
  "PaymentRepository_Insert c p w =
    (case Executor c (sql_insert_payment (pm_Amount p)
            \<lparr>yw_id = pm_ID p, yw_household_id = pm_HouseholdID p, yw_waste_id = pm_WasteID p,
             yw_amount = 0, yw_payment_date = pm_PaymentDate p, yw_status = pm_Status p,
             yw_proof_file_url = pm_ProofFileURL p, yw_created_at = pm_CreatedAt p,
             yw_updated_at = pm_UpdatedAt p\<rparr>) w of
       (Inl err, w) \<Rightarrow>
         if errors_As as_PgError err = Some unique_violation
         then (Inl (App ErrPaymentAlreadyExists), w)
         else (Inl (map_error err), w)
     | (Inr _, w) \<Rightarrow> (Inr (), w))"

definition PaymentRepository_List ::
  "ctx \<Rightarrow> PaymentStatus option \<Rightarrow> uuid option \<Rightarrow> instant option \<Rightarrow> instant option \<Rightarrow> gint \<Rightarrow> gint \<Rightarrow>
   (world, Payment list) act" where
  "PaymentRepository_List c status household dateFrom dateTo lmt off w =
    (case Executor c (sql_list_payments (paymentStatusArg status) household dateFrom dateTo lmt off) w of
       (Inl err, w) \<Rightarrow> (Inl (map_error err), w)
     | (Inr collected, w) \<Rightarrow> (Inr (map paymentRow_toDomain collected), w))"

definition PaymentRepository_Count ::
  "ctx \<Rightarrow> PaymentStatus option \<Rightarrow> uuid option \<Rightarrow> instant option \<Rightarrow> instant option \<Rightarrow>
   (world, nat) act" where
  "PaymentRepository_Count c status household dateFrom dateTo w =
    (case Executor c (sql_count_payments (paymentStatusArg status) household dateFrom dateTo) w of
       (Inl err, w) \<Rightarrow> (Inl (map_error err), w)
     | (Inr n, w) \<Rightarrow> (Inr n, w))"

definition PaymentRepository_FindByID :: "ctx \<Rightarrow> uuid \<Rightarrow> (world, Payment) act" where
  "PaymentRepository_FindByID c i w =
    (case Executor c (sql_find_payment i) w of
       (Inl err, w) \<Rightarrow> (Inl (map_error err), w)
     | (Inr [], w) \<Rightarrow> (Inl (App ErrPaymentNotFound), w)
     | (Inr [row], w) \<Rightarrow> (Inr (paymentRow_toDomain row), w)
     | (Inr _, w) \<Rightarrow> (Inl (map_error (Opaque ''too many rows'')), w))"

definition PaymentRepository_Confirm ::
  "ctx \<Rightarrow> uuid \<Rightarrow> string \<Rightarrow> instant \<Rightarrow> (world, Payment option) act" where
  "PaymentRepository_Confirm c i proofURL now w =
    (case Executor c (sql_confirm_payment i proofURL now) w of
       (Inl err, w) \<Rightarrow> (Inl (map_error err), w)
     | (Inr [], w) \<Rightarrow> (Inr None, w)
     | (Inr [row], w) \<Rightarrow> (Inr (Some (paymentRow_toDomain row)), w)
     | (Inr _, w) \<Rightarrow> (Inl (map_error (Opaque ''too many rows'')), w))"

definition NewPaymentRepository :: "world PaymentRepository" where
  "NewPaymentRepository =
    \<lparr>yr_HasPendingByHousehold = PaymentRepository_HasPendingByHousehold,
     yr_List = PaymentRepository_List, yr_Count = PaymentRepository_Count,
     yr_FindByID = PaymentRepository_FindByID, yr_Insert = PaymentRepository_Insert,
     yr_Confirm = PaymentRepository_Confirm\<rparr>"


section \<open>The methods carry out their abstract operations\<close>

definition payment_row :: "Payment \<Rightarrow> paymentRow" where
  "payment_row p =
    \<lparr>yw_id = pm_ID p, yw_household_id = pm_HouseholdID p, yw_waste_id = pm_WasteID p,
     yw_amount = 0, yw_payment_date = pm_PaymentDate p, yw_status = pm_Status p,
     yw_proof_file_url = pm_ProofFileURL p, yw_created_at = pm_CreatedAt p,
     yw_updated_at = pm_UpdatedAt p\<rparr>"

lemma payment_calls:
  "PaymentRepository_HasPendingByHousehold c h = call (sql_has_pending h) map_error Inr c"
  "PaymentRepository_Insert c y =
     call (sql_insert_payment (pm_Amount y) (payment_row y))
       (on_code unique_violation ErrPaymentAlreadyExists) Inr c"
  "PaymentRepository_FindByID c i =
     call (sql_find_payment i) map_error (one_row paymentRow_toDomain ErrPaymentNotFound) c"
  "PaymentRepository_Confirm c i url now =
     call (sql_confirm_payment i url now) map_error (opt_row paymentRow_toDomain) c"
  "PaymentRepository_List c status household dateFrom dateTo lmt off =
     call (sql_list_payments status household dateFrom dateTo lmt off) map_error
       (\<lambda>rows. Inr (map paymentRow_toDomain rows)) c"
  "PaymentRepository_Count c status household dateFrom dateTo =
     call (sql_count_payments status household dateFrom dateTo) map_error Inr c"
  by (rule ext, simp add: call_defs payment_row_def PaymentRepository_HasPendingByHousehold_def
    PaymentRepository_Insert_def PaymentRepository_FindByID_def PaymentRepository_Confirm_def
    PaymentRepository_List_def PaymentRepository_Count_def paymentStatusArg_def
    split: prod.splits sum.splits list.splits option.splits)+

lemma payment_row_sel [simp]:
  "yw_id (payment_row p) = pm_ID p" "yw_household_id (payment_row p) = pm_HouseholdID p"
  "yw_waste_id (payment_row p) = pm_WasteID p" "yw_status (payment_row p) = pm_Status p"
  "yw_proof_file_url (payment_row p) = pm_ProofFileURL p"
  by (simp_all add: payment_row_def)

lemma payment_row_toDomain [simp]:
  "paymentRow_toDomain (payment_row y\<lparr>yw_amount := hundredths a\<rparr>) = y\<lparr>pm_Amount := cents a\<rparr>"
  by (simp add: paymentRow_toDomain_def payment_row_def cents_def)

interpretation has_pending: repository_call store_of "sql_has_pending h" map_error Inr "has_pending h"
  for h
  by unfold_locales (auto simp: sql_has_pending_def has_pending_def ran_payment_map)

interpretation find_payment: repository_call store_of "sql_find_payment i" map_error
    "one_row paymentRow_toDomain ErrPaymentNotFound" "find_in st_payments ErrPaymentNotFound i"
  for i
proof
  fix d a d' n
  assume "schema_ok d" "sql_find_payment i d = Inr (a, d')"
  then show "schema_ok d' \<and> agrees (one_row paymentRow_toDomain ErrPaymentNotFound a)
      (store_of n d) (store_of n d') (find_in st_payments ErrPaymentNotFound i (store_of n d))"
    by (auto simp: sql_find_payment_def find_in_def one_row_def payment_map_def filter_key_only
        schema_ok_def split: option.splits)
qed (simp_all add: sql_find_payment_def)

lemma waste_ids: 
  "schema_ok d \<Longrightarrow> (\<exists>z \<in> ran (payment_map d). pm_WasteID z = i) \<longleftrightarrow> i \<in> yw_waste_id ` set (tb_payments d)"
  by (auto simp: ran_payment_map)

interpretation insert_payment: repository_call store_of
    "sql_insert_payment (pm_Amount y) (payment_row y)"
    "on_code unique_violation ErrPaymentAlreadyExists" Inr "add_payment y"
  for y
proof
  fix d a d' n
  assume "schema_ok d" "sql_insert_payment (pm_Amount y) (payment_row y) d = Inr (a, d')"
  then show "schema_ok d' \<and> agrees (Inr a) (store_of n d) (store_of n d') (add_payment y (store_of n d))"
    by (auto simp: sql_insert_payment_def add_payment_def schema_ok_add_payment waste_ids
        store_of_def payment_map_add text_arg_ok_def fits_numeric_14_2_def
        split: if_splits option.splits)
next
  fix d code n
  assume "schema_ok d" "sql_insert_payment (pm_Amount y) (payment_row y) d = Inl code"
  then show "add_payment y (store_of n d) =
      Inl (on_code unique_violation ErrPaymentAlreadyExists (PgError code))"
    by (auto simp: sql_insert_payment_def add_payment_def waste_ids text_arg_ok_def
        map_error_PgError on_code_PgError split: if_splits option.splits)
qed simp

definition paid_with :: "string \<Rightarrow> instant \<Rightarrow> Payment \<Rightarrow> Payment" where
  "paid_with url now y =
     y\<lparr>pm_Status := PaymentPaid, pm_ProofFileURL := Some url, pm_PaymentDate := Some now,
       pm_UpdatedAt := now\<rparr>"

lemma toDomain_confirm_set [simp]:
  "paymentRow_toDomain (confirm_set url now r) = paid_with url now (paymentRow_toDomain r)"
  by (simp add: paymentRow_toDomain_def confirm_set_def paid_with_def)

lemma confirm_set_sel [simp]:
  "yw_id (confirm_set url now r) = yw_id r" "yw_status (confirm_set url now r) = PaymentPaid"
  "yw_household_id (confirm_set url now r) = yw_household_id r"
  "yw_waste_id (confirm_set url now r) = yw_waste_id r"
  "yw_amount (confirm_set url now r) = yw_amount r"
  by (simp_all add: confirm_set_def)

interpretation confirm: repository_call store_of "sql_confirm_payment i url now" map_error
    "opt_row paymentRow_toDomain" "confirm_payment i url now"
  for i url now
proof
  fix d a d' n
  assume ok: "schema_ok d" and "sql_confirm_payment i url now d = Inr (a, d')"
  then have url: "pg_text url"
    and d': "d' = d\<lparr>tb_payments := update_where (\<lambda>r. yw_id r = i \<and> confirm_guard r)
                      (confirm_set url now) (tb_payments d)\<rparr>"
    and a: "a = map (confirm_set url now) (filter (\<lambda>r. yw_id r = i \<and> confirm_guard r) (tb_payments d))"
    by (simp_all add: sql_confirm_payment_def split: if_splits)
  have "schema_ok d'"
    unfolding d' using ok by (rule schema_ok_update_payments) simp
  moreover have "agrees (opt_row paymentRow_toDomain a) (store_of n d) (store_of n d')
      (confirm_payment i url now (store_of n d))"
    using ok url
    by (cases "lookup_by yw_id (tb_payments d) i")
      (auto simp: a d' confirm_payment_def opt_row_def store_of_def payment_map_update_one
        filter_key schema_ok_def confirm_guard_def payment_map_def paid_with_def Let_def fun_upd_idem)
  ultimately show "schema_ok d' \<and> agrees (opt_row paymentRow_toDomain a) (store_of n d)
      (store_of n d') (confirm_payment i url now (store_of n d))"
    by blast
qed (simp_all add: sql_confirm_payment_def confirm_payment_def map_error_PgError split: if_splits)

end
