(* ===== verification/PgReport.thy ===== *)
theory PgReport
  imports PgPayment "HOL-Library.List_Lexorder" "HOL-Library.Char_ord" "HOL-Library.Product_Lexorder"
begin

text \<open>
  \<open>internal/adapter/out/postgres/report.go\<close>: the two aggregations and the two history
  queries. \<open>ORDER BY\<close> on text columns compares bytes, which on the lower-case words the
  columns hold is the order of every collation.
\<close>

section \<open>Statements\<close>

record wasteCountRow =
  ww_type :: string
  ww_status :: string
  ww_count :: nat

record paymentTotalRow =
  yt_status :: string
  yt_count :: nat
  yt_amount :: Numeric

definition group_keys :: "('r \<Rightarrow> 'k :: linorder) \<Rightarrow> 'r list \<Rightarrow> 'k list" where
  "group_keys key rs = sort (remdups (map key rs))"

definition waste_key :: "pickupRow \<Rightarrow> string \<times> string" where
  "waste_key r = (pw_type r, pw_status r)"

definition sql_waste_summary :: "wasteCountRow list stmt" where
  "sql_waste_summary d =
    Inr (map (\<lambda>k. \<lparr>ww_type = fst k, ww_status = snd k,
                  ww_count = length (filter (\<lambda>r. waste_key r = k) (tb_pickups d))\<rparr>)
           (group_keys waste_key (tb_pickups d)), d)"

definition sql_payment_summary :: "paymentTotalRow list stmt" where
  "sql_payment_summary d =
    Inr (map (\<lambda>k. \<lparr>yt_status = k,
                  yt_count = length (filter (\<lambda>r. yw_status r = k) (tb_payments d)),
                  yt_amount = scan_numeric
                    (sum_list (map yw_amount (filter (\<lambda>r. yw_status r = k) (tb_payments d))))\<rparr>)
           (group_keys yw_status (tb_payments d)), d)"

definition sql_household_pickups :: "uuid \<Rightarrow> pickupRow list stmt" where
  "sql_household_pickups household d =
    Inr (order_desc pw_created_at (tb_ties d \<circ> pw_id) (filter (\<lambda>r. pw_household_id r = household) (tb_pickups d)), d)"

definition sql_household_payments :: "uuid \<Rightarrow> paymentRow list stmt" where
  "sql_household_payments household d =
    Inr (order_desc yw_created_at (tb_ties d \<circ> yw_id) (filter (\<lambda>r. yw_household_id r = household) (tb_payments d)), d)"

section \<open>Methods\<close>

definition ReportRepository_WasteSummary :: "ctx \<Rightarrow> (world, WasteCount list) act" where
  "ReportRepository_WasteSummary c w =
    (case Executor c sql_waste_summary w of
       (Inl err, w) \<Rightarrow> (Inl (map_error err), w)
     | (Inr collected, w) \<Rightarrow>
         (Inr (map (\<lambda>row. \<lparr>wc_Type = ww_type row, wc_Status = ww_status row,
                         wc_Count = ww_count row\<rparr>) collected), w))"

definition ReportRepository_PaymentSummary :: "ctx \<Rightarrow> (world, PaymentStatusTotal list) act" where
  "ReportRepository_PaymentSummary c w =
    (case Executor c sql_payment_summary w of
       (Inl err, w) \<Rightarrow> (Inl (map_error err), w)
     | (Inr collected, w) \<Rightarrow>
         (Inr (map (\<lambda>row. \<lparr>pt_Status = yt_status row, pt_Count = yt_count row,
                         pt_Amount = numericToDecimal (yt_amount row)\<rparr>) collected), w))"

definition ReportRepository_HouseholdPickups :: "ctx \<Rightarrow> uuid \<Rightarrow> (world, Pickup list) act" where
  "ReportRepository_HouseholdPickups c household w =
    (case Executor c (sql_household_pickups household) w of
       (Inl err, w) \<Rightarrow> (Inl (map_error err), w)
     | (Inr collected, w) \<Rightarrow> (Inr (map pickupRow_toDomain collected), w))"

definition ReportRepository_HouseholdPayments :: "ctx \<Rightarrow> uuid \<Rightarrow> (world, Payment list) act" where
  "ReportRepository_HouseholdPayments c household w =
    (case Executor c (sql_household_payments household) w of
       (Inl err, w) \<Rightarrow> (Inl (map_error err), w)
     | (Inr collected, w) \<Rightarrow> (Inr (map paymentRow_toDomain collected), w))"

definition NewReportRepository :: "world ReportReader" where
  "NewReportRepository =
    \<lparr>rr_WasteSummary = ReportRepository_WasteSummary,
     rr_PaymentSummary = ReportRepository_PaymentSummary,
     rr_HouseholdPickups = ReportRepository_HouseholdPickups,
     rr_HouseholdPayments = ReportRepository_HouseholdPayments\<rparr>"

end
