(* ===== verification/Config.thy ===== *)
theory Config
  imports Prelude
begin

text \<open>
  Package \<open>internal/config\<close>: the configuration record and the checks of \<open>Validate\<close>.
  The texts of the errors are the results of \<open>Validate\<close>; \<open>None\<close> is \<open>nil\<close>.
\<close>

record PostgresConfig =
  pc_Host :: string
  pc_Port :: string
  pc_User :: string
  pc_Password :: string
  pc_DB :: string
  pc_SSLMode :: string
  pc_MaxConns :: "32 word"
  pc_MinConns :: "32 word"
  pc_MaxConnLifetime :: duration
  pc_MaxConnIdleTime :: duration
  pc_HealthCheckPeriod :: duration
  pc_StatementTimeout :: duration

definition DSN :: "PostgresConfig \<Rightarrow> string" where
  "DSN p = ''postgres://'' @ pc_User p @ '':'' @ pc_Password p @ ''@'' @ pc_Host p @ '':'' @ pc_Port p
     @ ''/'' @ pc_DB p @ ''?sslmode='' @ pc_SSLMode p"

record MinIOConfig =
  mc_Endpoint :: string
  mc_AccessKey :: string
  mc_SecretKey :: string
  mc_Bucket :: string
  mc_UseSSL :: bool

record PricingConfig =
  rc_Standard :: decimal
  rc_Electronic :: decimal

record WorkerConfig =
  kc_SweepInterval :: duration
  kc_OrganicTTL :: duration

record RateLimitConfig =
  lc_RPM :: gint
  lc_Burst :: gint

record Config =
  cf_AppEnv :: string
  cf_AppPort :: string
  cf_LogLevel :: string
  cf_CORSOrigins :: string
  cf_RequestTimeout :: duration
  cf_ShutdownTimeout :: duration
  cf_BodyLimitBytes :: gint
  cf_UploadLimitBytes :: gint
  cf_UploadAllowedTypes :: "string list"
  cf_Postgres :: PostgresConfig
  cf_MinIO :: MinIOConfig
  cf_Pricing :: PricingConfig
  cf_Worker :: WorkerConfig
  cf_RateLimit :: RateLimitConfig

definition Validate :: "Config \<Rightarrow> string option" where
  "Validate c =
    (if cf_BodyLimitBytes c \<le>s cf_UploadLimitBytes c
     then Some ''config: UPLOAD_LIMIT_BYTES must be smaller than BODY_LIMIT_BYTES''
     else if length (cf_UploadAllowedTypes c) = 0
     then Some ''config: UPLOAD_ALLOWED_TYPES must list at least one content type''
     else if cf_AppEnv c \<noteq> ''production'' then None
     else if pc_SSLMode (cf_Postgres c) = ''disable''
     then Some ''config: POSTGRES_SSLMODE=disable is not allowed in production''
     else if cf_CORSOrigins c = ''*''
     then Some ''config: CORS_ORIGINS=* is not allowed in production''
     else if pc_Password (cf_Postgres c) = ''''
     then Some ''config: POSTGRES_PASSWORD must be set in production''
     else if mc_AccessKey (cf_MinIO c) = '''' \<or> mc_SecretKey (cf_MinIO c) = ''''
     then Some ''config: MINIO credentials must be set in production''
     else None)"

text \<open>
  A configuration passes exactly when the upload limit is below the body limit, some
  content type is allowed and, in production, TLS to the database is not disabled, CORS is
  not open to every origin and the database and storage secrets are set.
\<close>

theorem Validate_iff:
  "Validate c = None \<longleftrightarrow>
     sint (cf_UploadLimitBytes c) < sint (cf_BodyLimitBytes c) \<and> cf_UploadAllowedTypes c \<noteq> [] \<and>
     (if cf_AppEnv c = ''production'' then
        pc_SSLMode (cf_Postgres c) \<noteq> ''disable'' \<and> cf_CORSOrigins c \<noteq> ''*'' \<and>
        pc_Password (cf_Postgres c) \<noteq> '''' \<and> mc_AccessKey (cf_MinIO c) \<noteq> '''' \<and>
        mc_SecretKey (cf_MinIO c) \<noteq> ''''
      else True)"
  unfolding Validate_def word_sle_eq by (auto split: if_splits)

end
