(* ===== verification/Storage.thy ===== *)
theory Storage
  imports Postgres Config
begin

text \<open>
  \<open>internal/adapter/out/storage/minio.go\<close>. The S3 client is outside the program: a call to
  \<open>PutObject\<close> takes its outcome from the script of the state, and stores the object under
  its key when the server carries it out.
\<close>

record MinIO =
  mn_bucket :: string
  mn_endpoint :: string
  mn_useSSL :: bool

definition NewMinIO :: "MinIOConfig \<Rightarrow> MinIO" where
  "NewMinIO cfg =
    \<lparr>mn_bucket = mc_Bucket cfg, mn_endpoint = mc_Endpoint cfg, mn_useSSL = mc_UseSSL cfg\<rparr>"

definition store_blob :: "blob \<Rightarrow> blob list \<Rightarrow> blob list" where
  "store_blob b bs = b # filter (\<lambda>x. bl_key x \<noteq> bl_key b) bs"

definition PutObject :: "string \<Rightarrow> string \<Rightarrow> string \<Rightarrow> (world, unit) act" where
  "PutObject key content contentType w =
    (let b = \<lparr>bl_key = key, bl_content = content, bl_type = contentType\<rparr>
     in case next_outcome w of
          (Reply, w) \<Rightarrow> (Inr (), w\<lparr>wd_blobs := store_blob b (wd_blobs w)\<rparr>)
        | (Refused e, w) \<Rightarrow> (Inl e, w)
        | (ReplyLost e, w) \<Rightarrow> (Inl e, w\<lparr>wd_blobs := store_blob b (wd_blobs w)\<rparr>))"

definition MinIO_Put ::
  "MinIO \<Rightarrow> ctx \<Rightarrow> string \<Rightarrow> string \<Rightarrow> gint \<Rightarrow> string \<Rightarrow> (world, string) act" where
  "MinIO_Put m c key r sz contentType w =
    (case PutObject key r contentType w of
       (Inl err, w) \<Rightarrow> (Inl err, w)
     | (Inr _, w) \<Rightarrow>
         (let scheme = (if mn_useSSL m then ''https'' else ''http'')
          in (Inr (scheme @ ''://'' @ mn_endpoint m @ ''/'' @ mn_bucket m @ ''/'' @ key), w)))"

definition MinIO_storage :: "MinIO \<Rightarrow> world FileStorage" where
  "MinIO_storage m = \<lparr>fs_Put = MinIO_Put m\<rparr>"

section \<open>Uploading leaves the store alone\<close>

definition upload :: "MinIO \<Rightarrow> string \<Rightarrow> string \<Rightarrow> gint \<Rightarrow> string \<Rightarrow> ctx \<Rightarrow> (world, string) act" where
  "upload m key content sz contentType c w =
    (case MinIO_Put m c key content sz contentType w of
       (Inl err, w) \<Rightarrow> (Inl (App (WithCause ErrStorageUnavailable err)), w)
     | (Inr url, w) \<Rightarrow> (Inr url, w))"

definition object_url :: "MinIO \<Rightarrow> string \<Rightarrow> string" where
  "object_url m key =
    (if mn_useSSL m then ''https'' else ''http'') @ ''://'' @ mn_endpoint m @ ''/'' @ mn_bucket m @ ''/'' @ key"

lemma PutObject_cases:
  assumes "PutObject key content contentType w = (r, w')" and "net_ok w"
  shows "wd_db w' = wd_db w \<and> wd_tx w' = wd_tx w \<and> wd_now w' = wd_now w \<and> net_ok w' \<and>
    (online w \<longrightarrow> online w') \<and> (\<forall>e. r = Inl e \<longrightarrow> \<not> online w)"
  using assms
  by (cases w rule: next_outcome_cases)
    (auto simp: PutObject_def Let_def net_ok_def online_def split: outcome.splits)

lemma cur_cong: "wd_db w' = wd_db w \<Longrightarrow> wd_tx w' = wd_tx w \<Longrightarrow> cur c w' = cur c w"
  by (simp add: cur_def cong: option.case_cong tx_state.case_cong)

lemma upload_effect:
  assumes "upload m key content sz contentType c w = (r, w')" and "net_ok w"
  shows "wd_db w' = wd_db w \<and> wd_tx w' = wd_tx w \<and> wd_now w' = wd_now w \<and> net_ok w' \<and>
    (online w \<longrightarrow> online w') \<and>
    (case r of Inr url \<Rightarrow> url = object_url m key | Inl e \<Rightarrow> infra e \<and> \<not> online w)"
proof -
  obtain q w1 where p: "PutObject key content contentType w = (q, w1)" by fastforce
  from PutObject_cases [OF p assms(2)] assms(1) p show ?thesis
    by (cases q) (auto simp: upload_def MinIO_Put_def object_url_def Let_def)
qed

interpretation upload: port_method "pg_view store_of" pg_ok online UNIV
    "upload m key content sz contentType" "sreturn (object_url m key)"
  for m key content sz contentType
proof
  fix c w a w'
  assume ok: "pg_ok c w" and run: "upload m key content sz contentType c w = (Inr a, w')"
  then have net: "net_ok w" by (simp add: pg_ok_def world_ok_def)
  from upload_effect [OF run net] ok show "pg_ok c w' \<and> (online w \<longrightarrow> online w') \<and>
      sreturn (object_url m key) (pg_view store_of c w) = Inr (a, pg_view store_of c w') \<and>
      (c \<noteq> None \<longrightarrow> pg_view store_of None w' = pg_view store_of None w)"
    by (simp add: sreturn_def pg_view_def cur_cong [of w' w] pg_ok_def world_ok_def in_tx_def)
next
  fix c w e w'
  assume ok: "pg_ok c w" and run: "upload m key content sz contentType c w = (Inl e, w')"
  then have net: "net_ok w" by (simp add: pg_ok_def world_ok_def)
  from upload_effect [OF run net] ok show "pg_ok None w' \<and> (online w \<longrightarrow> online w') \<and>
      (c \<noteq> None \<longrightarrow> pg_view store_of None w' = pg_view store_of None w) \<and>
      (sreturn (object_url m key) (pg_view store_of c w) = Inl e \<and>
         pg_view store_of None w' = pg_view store_of None w \<or>
       infra e \<and> \<not> online w \<and>
       (c = None \<longrightarrow> pg_view store_of None w' = pg_view store_of None w \<or>
          (\<exists>a. sreturn (object_url m key) (pg_view store_of None w) = Inr (a, pg_view store_of None w'))))"
    by (simp add: pg_view_def pg_ok_def world_ok_def)
qed

end
