(* ===== verification/App.thy ===== *)
theory App
  imports HouseholdService PickupService PaymentService ReportService PgHousehold PgReport Storage
begin

text \<open>
  \<open>internal/app/app.go\<close>: the composition root. The four services over the Postgres
  repositories, the MinIO storage and the system clock (\<open>internal/adapter/out/clock\<close>).
\<close>

definition SystemClock :: "world Clock" where
  "SystemClock = \<lparr>ck_Now = wd_now\<rparr>"

definition app_pricing :: "Config \<Rightarrow> Pricing" where
  "app_pricing cfg =
    \<lparr>Standard = rc_Standard (cf_Pricing cfg), Electronic = rc_Electronic (cf_Pricing cfg)\<rparr>"

definition householdService :: "world HouseholdService" where
  "householdService = household_NewService NewHouseholdRepository SystemClock"

definition pickupService :: "Config \<Rightarrow> world PickupService" where
  "pickupService cfg =
     pickup_NewService NewPickupRepository NewPaymentRepository NewTxManager SystemClock
       (app_pricing cfg) (kc_OrganicTTL (cf_Worker cfg))"

definition paymentService :: "Config \<Rightarrow> world PaymentService" where
  "paymentService cfg =
     payment_NewService NewPaymentRepository NewPickupRepository
       (MinIO_storage (NewMinIO (cf_MinIO cfg))) SystemClock (app_pricing cfg)"

definition reportService :: "world ReportService" where
  "reportService = report_NewService NewReportRepository NewHouseholdRepository"

end
