(* ===== verification/Example.thy ===== *)
theory Example
  imports App
begin

text \<open>
  A concrete state and configuration, on which the general statements are tried: the defaults of
  \<open>config.Load\<close>, two households, five pickups (one in every status, and an electronic
  one without safety check) and two payments.
\<close>

definition demo_config :: Config where
  "demo_config =
    \<lparr>cf_AppEnv = ''local'', cf_AppPort = ''8080'', cf_LogLevel = ''info'', cf_CORSOrigins = ''*'',
     cf_RequestTimeout = 5000000000, cf_ShutdownTimeout = 10000000000,
     cf_BodyLimitBytes = 6291456, cf_UploadLimitBytes = 5242880,
     cf_UploadAllowedTypes = [''image/jpeg'', ''image/png'', ''application/pdf''],
     cf_Postgres = \<lparr>pc_Host = ''localhost'', pc_Port = ''5432'', pc_User = ''wst'',
       pc_Password = ''wst'', pc_DB = ''wst'', pc_SSLMode = ''disable'', pc_MaxConns = 10,
       pc_MinConns = 2, pc_MaxConnLifetime = 3600000000000, pc_MaxConnIdleTime = 1800000000000,
       pc_HealthCheckPeriod = 60000000000, pc_StatementTimeout = 5000000000\<rparr>,
     cf_MinIO = \<lparr>mc_Endpoint = ''localhost:9000'', mc_AccessKey = ''minioadmin'',
       mc_SecretKey = ''minioadmin'', mc_Bucket = ''proofs'', mc_UseSSL = False\<rparr>,
     cf_Pricing = \<lparr>rc_Standard = 50000, rc_Electronic = 100000\<rparr>,
     cf_Worker = \<lparr>kc_SweepInterval = 60000000000, kc_OrganicTTL = 259200000000000\<rparr>,
     cf_RateLimit = \<lparr>lc_RPM = 30, lc_Burst = 10\<rparr>\<rparr>"

definition demo_pickup_row ::
  "uuid \<Rightarrow> uuid \<Rightarrow> string \<Rightarrow> string \<Rightarrow> instant option \<Rightarrow> bool \<Rightarrow> instant \<Rightarrow> pickupRow" where
  "demo_pickup_row i h t s date safe created =
    \<lparr>pw_id = i, pw_household_id = h, pw_type = t, pw_status = s, pw_pickup_date = date,
     pw_safety_check = safe, pw_created_at = created, pw_updated_at = created\<rparr>"

definition demo_db :: db where
  "demo_db =
    \<lparr>tb_households =
       [\<lparr>hw_id = 1, hw_owner_name = ''Ana'', hw_address = ''Street 1'', hw_created_at = 10, hw_updated_at = 10\<rparr>,
        \<lparr>hw_id = 2, hw_owner_name = ''Budi'', hw_address = ''Street 2'', hw_created_at = 20, hw_updated_at = 20\<rparr>],
     tb_pickups =
       [demo_pickup_row 10 1 PickupOrganic PickupPending None False 100,
        demo_pickup_row 11 1 PickupElectronic PickupScheduled (Some 500) True 200,
        demo_pickup_row 12 2 PickupPlastic PickupCompleted (Some 500) False 300,
        demo_pickup_row 13 2 PickupPaper PickupCompleted (Some 600) False 400,
        demo_pickup_row 14 2 PickupElectronic PickupPending None False 450],
     tb_payments =
       [\<lparr>yw_id = 20, yw_household_id = 2, yw_waste_id = 12, yw_amount = 5000000,
         yw_payment_date = None, yw_status = PaymentPending, yw_proof_file_url = None,
         yw_created_at = 700, yw_updated_at = 700\<rparr>,
        \<lparr>yw_id = 21, yw_household_id = 2, yw_waste_id = 13, yw_amount = 5000000,
         yw_payment_date = Some 900, yw_status = PaymentPaid, yw_proof_file_url = Some ''http://x/p'',
         yw_created_at = 800, yw_updated_at = 900\<rparr>], tb_ties = (\<lambda>_. 0)\<rparr>"

text \<open>\<open>demo xs\<close> has the outcomes \<open>xs\<close> ahead of it; the clock shows 100 hours.\<close>

definition demo :: "outcome list \<Rightarrow> world" where
  "demo xs =
    \<lparr>wd_db = demo_db, wd_tx = None, wd_net = xs, wd_now = 360000000000000, wd_blobs = []\<rparr>"

lemma schema_ok_demo [simp]: "schema_ok demo_db"
  by (simp add: schema_ok_def demo_db_def demo_pickup_row_def check_pickup_type_def type_defs)

lemma demo_sel [simp]:
  "wd_db (demo xs) = demo_db" "wd_tx (demo xs) = None" "wd_net (demo xs) = xs"
  "wd_now (demo xs) = 360000000000000"
  by (simp_all add: demo_def)

lemma world_ok_demo: "world_ok (demo xs) \<longleftrightarrow> (\<forall>x \<in> set xs. outcome_ok x)"
  by (simp add: world_ok_def net_ok_def)

lemma outcome_ok_simps [simp]:
  "outcome_ok Reply" "outcome_ok (Refused e) = fault_ok e" "outcome_ok (ReplyLost e) = fault_ok e"
  by (simp_all add: outcome_ok_def)

lemma fault_ok_simps [simp]:
  "fault_ok NetError" "fault_ok DeadlineExceeded" "fault_ok Canceled"
  by (simp_all add: fault_ok_def errors_As_def)

lemma online_demo [simp]: "online (demo xs) \<longleftrightarrow> xs = []"
  by (simp add: online_def)

end
