(* ===== verification/UseCases.thy ===== *)
theory UseCases
  imports Example
begin

text \<open>
  The use cases of the running service (the services of \<open>App\<close> over the Postgres adapter)
  against their specifications in \<open>Store\<close>: each is a port method carrying out its
  specification on the committed store.
\<close>

definition committed :: "world \<Rightarrow> store" where
  "committed w = store_of (wd_now w) (wd_db w)"

lemma pg_view_committed [simp]: "pg_view store_of None w = committed w"
  by (simp add: pg_view_def committed_def)

abbreviation pg_method :: "ctx set \<Rightarrow> (ctx \<Rightarrow> (world, 'a) act) \<Rightarrow> 'a spec \<Rightarrow> bool" where
  "pg_method \<equiv> port_method (pg_view store_of) pg_ok online"

lemmas service_defs =
  householdService_def household_NewService_def pickupService_def pickup_NewService_def
  paymentService_def payment_NewService_def SystemClock_def
  NewHouseholdRepository_def NewPickupRepository_def NewPaymentRepository_def MinIO_storage_def

lemmas spec_flow = sbind_def sreturn_def sthrow_def sclocked_def

section \<open>Households\<close>

lemma household_Create_flow:
  "household_Create householdService c cmd newID w =
     clocked (\<lambda>now. let h = \<lparr>hh_ID = newID, hh_OwnerName = ch_OwnerName cmd,
         hh_Address = ch_Address cmd, hh_CreatedAt = now, hh_UpdatedAt = now\<rparr>
       in abind (\<lambda>c. HouseholdRepository_Insert c h) (\<lambda>_. areturn h)) c w"
  by (simp add: household_Create_def service_defs clocked_def abind_def areturn_def Let_def
      split: prod.splits sum.splits)

interpretation CreateHousehold: port_method "pg_view store_of" pg_ok online UNIV
    "\<lambda>c. household_Create householdService c cmd newID" "spec_CreateHousehold cmd newID"
  for cmd newID
proof -
  have "pg_method UNIV (\<lambda>c. household_Create householdService c cmd newID)
      (sclocked (\<lambda>now. let h = \<lparr>hh_ID = newID, hh_OwnerName = ch_OwnerName cmd,
         hh_Address = ch_Address cmd, hh_CreatedAt = now, hh_UpdatedAt = now\<rparr>
       in sbind (add_household h) (\<lambda>_. sreturn h)))"
    unfolding household_Create_flow household_calls Let_def
    by (intro clocked_method sequence_method insert_household.port.port_method_axioms pg_return) auto
  then show "pg_method UNIV (\<lambda>c. household_Create householdService c cmd newID)
      (spec_CreateHousehold cmd newID)"
    by (rule port_method.same_spec)
      (auto simp: spec_flow add_household_def spec_CreateHousehold_def Let_def pg_ok_def)
qed


lemma household_Get_flow: "household_Get householdService c i = HouseholdRepository_FindByID c i"
  by (rule ext) (simp add: household_Get_def service_defs)

lemma household_Delete_flow: "household_Delete householdService c i = HouseholdRepository_Delete c i"
  by (rule ext) (simp add: household_Delete_def service_defs)

interpretation GetHousehold: port_method "pg_view store_of" pg_ok online UNIV
    "\<lambda>c. household_Get householdService c i" "find_in st_households ErrHouseholdNotFound i"
  for i
  unfolding household_Get_flow household_calls by (rule find_household.port.port_method_axioms)

interpretation DeleteHousehold: port_method "pg_view store_of" pg_ok online UNIV
    "\<lambda>c. household_Delete householdService c i" "remove_household i"
  for i
  unfolding household_Delete_flow household_calls by (rule delete_household.port.port_method_axioms)

section \<open>Pickups\<close>

text \<open>The shape of a guarded update: its row, or the reason why it touched none.\<close>

lemma or_else_method:
  "pg_method C k sk \<Longrightarrow>
   pg_method C (case r of Some p \<Rightarrow> areturn p | None \<Rightarrow> k) (case r of Some p \<Rightarrow> sreturn p | None \<Rightarrow> sk)"
  by (cases r) (simp_all add: pg_return)

lemma if_method:
  "(b \<Longrightarrow> pg_method C k sk) \<Longrightarrow> (\<not> b \<Longrightarrow> pg_method C l sl) \<Longrightarrow>
   pg_method C (if b then k else l) (if b then sk else sl)"
  by simp

lemma find_pickup_then:
  "(\<And>p. pg_method C (k p) (sk p)) \<Longrightarrow>
   pg_method C (abind (\<lambda>c. PickupRepository_FindByID c i) k)
     (sbind (find_in st_pickups ErrPickupNotFound i) sk)"
  unfolding pickup_calls
  by (intro sequence_method port_method.subset_ctxs [OF find_pickup.port.port_method_axioms])
    (auto simp: find_in_def split: option.splits)

lemma pickup_Schedule_flow:
  "pickup_Schedule (pickupService cfg) c i cmd =
     clocked (\<lambda>now. abind (\<lambda>c. PickupRepository_Schedule c i (sp_PickupDate cmd) now)
       (\<lambda>r. case r of
          Some p \<Rightarrow> areturn p
        | None \<Rightarrow> abind (\<lambda>c. PickupRepository_FindByID c i)
            (\<lambda>p. athrow (App (case CanSchedule p of Some e \<Rightarrow> e | None \<Rightarrow> ErrPickupNotPending))))) c"
  by (rule ext, simp add: pickup_Schedule_def service_defs clocked_def abind_def areturn_def athrow_def
      split: prod.splits sum.splits option.splits)

interpretation SchedulePickup: port_method "pg_view store_of" pg_ok online UNIV
    "\<lambda>c. pickup_Schedule (pickupService cfg) c i cmd" "spec_SchedulePickup i (sp_PickupDate cmd)"
  for cfg i cmd
proof -
  have "pg_method UNIV (\<lambda>c. pickup_Schedule (pickupService cfg) c i cmd)
      (sclocked (\<lambda>now. sbind (change_pickup i (\<lambda>p. CanSchedule p = None)
          (scheduled_for (sp_PickupDate cmd) now))
        (\<lambda>r. case r of Some p \<Rightarrow> sreturn p
         | None \<Rightarrow> sbind (find_in st_pickups ErrPickupNotFound i)
             (\<lambda>p. sthrow (App (case CanSchedule p of Some e \<Rightarrow> e | None \<Rightarrow> ErrPickupNotPending))))))"
    unfolding pickup_Schedule_flow PickupRepository_Schedule_def pickup_calls(3)
    by (intro clocked_method sequence_method schedule.update.port.port_method_axioms
        or_else_method find_pickup_then pg_throw)
      (auto simp: change_pickup_def split: option.splits if_splits)
  then show "pg_method UNIV (\<lambda>c. pickup_Schedule (pickupService cfg) c i cmd)
      (spec_SchedulePickup i (sp_PickupDate cmd))"
    by (rule port_method.same_spec)
      (auto simp: spec_flow change_pickup_def find_in_def spec_SchedulePickup_def Let_def pg_ok_def
        scheduled_for_def split: option.splits)
qed

lemma pickup_Cancel_flow:
  "pickup_Cancel (pickupService cfg) c i =
     clocked (\<lambda>now. abind (\<lambda>c. PickupRepository_Cancel c i now)
       (\<lambda>r. case r of
          Some p \<Rightarrow> areturn p
        | None \<Rightarrow> abind (\<lambda>c. PickupRepository_FindByID c i) (\<lambda>_. athrow (App ErrPickupNotCancelable)))) c"
  by (rule ext, simp add: pickup_Cancel_def service_defs clocked_def abind_def areturn_def athrow_def
      split: prod.splits sum.splits option.splits)

interpretation CancelPickup: port_method "pg_view store_of" pg_ok online UNIV
    "\<lambda>c. pickup_Cancel (pickupService cfg) c i" "spec_CancelPickup i"
  for cfg i
proof -
  have "pg_method UNIV (\<lambda>c. pickup_Cancel (pickupService cfg) c i)
      (sclocked (\<lambda>now. sbind (change_pickup i (\<lambda>p. pk_Status p \<in> {PickupPending, PickupScheduled})
          (canceled now))
        (\<lambda>r. case r of Some p \<Rightarrow> sreturn p
         | None \<Rightarrow> sbind (find_in st_pickups ErrPickupNotFound i)
             (\<lambda>_. sthrow (App ErrPickupNotCancelable)))))"
    unfolding pickup_Cancel_flow PickupRepository_Cancel_def pickup_calls(3)
    by (intro clocked_method sequence_method cancel.update.port.port_method_axioms
        or_else_method find_pickup_then pg_throw)
      (auto simp: change_pickup_def split: option.splits if_splits)
  then show "pg_method UNIV (\<lambda>c. pickup_Cancel (pickupService cfg) c i) (spec_CancelPickup i)"
    by (rule port_method.same_spec)
      (auto simp: spec_flow change_pickup_def find_in_def spec_CancelPickup_def pg_ok_def
        split: option.splits)
qed

lemma pickup_CancelStaleOrganic_flow:
  "pickup_CancelStaleOrganic (pickupService cfg) c =
     clocked (\<lambda>now c. PickupRepository_CancelStaleOrganic c
       (now - kc_OrganicTTL (cf_Worker cfg)) now) c"
  by (rule ext, simp add: pickup_CancelStaleOrganic_def service_defs clocked_def Let_def)

interpretation SweepStale: port_method "pg_view store_of" pg_ok online UNIV
    "\<lambda>c. pickup_CancelStaleOrganic (pickupService cfg) c"
    "spec_CancelStaleOrganic (kc_OrganicTTL (cf_Worker cfg))"
  for cfg
proof -
  have "pg_method UNIV (\<lambda>c. pickup_CancelStaleOrganic (pickupService cfg) c)
      (sclocked (\<lambda>now. cancel_stale (now - kc_OrganicTTL (cf_Worker cfg)) now))"
    unfolding pickup_CancelStaleOrganic_flow pickup_calls
    by (intro clocked_method cancel_stale.port.port_method_axioms)
  then show "pg_method UNIV (\<lambda>c. pickup_CancelStaleOrganic (pickupService cfg) c)
      (spec_CancelStaleOrganic (kc_OrganicTTL (cf_Worker cfg)))"
    by (simp add: sclocked_def [abs_def] spec_CancelStaleOrganic_def [abs_def])
qed


lemma pg_ok_schema: "pg_ok c w \<Longrightarrow> schema_ok (cur c w)"
  by (cases c) (auto simp: pg_ok_def world_ok_def in_tx_def cur_def split: option.splits tx_state.splits)

definition new_pickup :: "CreatePickupCommand \<Rightarrow> uuid \<Rightarrow> instant \<Rightarrow> Pickup" where
  "new_pickup cmd newID now =
    \<lparr>pk_ID = newID, pk_HouseholdID = cp_HouseholdID cmd, pk_Type = cp_Type cmd,
     pk_Status = PickupPending, pk_PickupDate = None, pk_SafetyCheck = cp_SafetyCheck cmd,
     pk_CreatedAt = now, pk_UpdatedAt = now\<rparr>"

lemma pickup_Create_flow:
  "pickup_Create (pickupService cfg) c cmd newID =
     clocked (\<lambda>now c. tx_Do NewTxManager c
       (abind (\<lambda>c. PaymentRepository_HasPendingByHousehold c (cp_HouseholdID cmd))
         (\<lambda>pending. if pending then athrow (App ErrHouseholdHasPendingPayment)
            else abind (\<lambda>c. PickupRepository_Insert c (new_pickup cmd newID now))
                   (\<lambda>_. areturn (new_pickup cmd newID now))))) c"
  by (rule ext) (simp add: pickup_Create_def service_defs clocked_def Let_def,
    rule arg_cong [where f = "\<lambda>k. tx_Do NewTxManager c k _"],
    auto simp: fun_eq_iff abind_def areturn_def athrow_def new_pickup_def split: prod.splits sum.splits)

interpretation CreatePickup: port_method "pg_view store_of" pg_ok online "{None}"
    "\<lambda>c. pickup_Create (pickupService cfg) c cmd newID" "spec_CreatePickup cmd newID"
  for cfg cmd newID
proof -
  have "pg_method {None} (\<lambda>c. pickup_Create (pickupService cfg) c cmd newID)
      (sclocked (\<lambda>now. sbind (has_pending (cp_HouseholdID cmd))
         (\<lambda>pending. if pending then sthrow (App ErrHouseholdHasPendingPayment)
            else sbind (add_pickup (new_pickup cmd newID now)) (\<lambda>_. sreturn (new_pickup cmd newID now)))))"
    unfolding pickup_Create_flow pickup_calls payment_calls
    by (intro clocked_method pg_tx.transaction sequence_method
        port_method.subset_ctxs [OF has_pending.port.port_method_axioms]
        port_method.subset_ctxs [OF insert_pickup.port.port_method_axioms] if_method pg_return pg_throw)
      auto
  then show "pg_method {None} (\<lambda>c. pickup_Create (pickupService cfg) c cmd newID)
      (spec_CreatePickup cmd newID)"
    by (rule port_method.same_spec)
      (auto simp: spec_flow has_pending_def add_pickup_def spec_CreatePickup_def new_pickup_def
        Let_def pg_ok_def)
qed



text \<open>Charging for a pickup of the store: the references of the payment resolve.\<close>

lemma add_payment_due:
  assumes "pk_HouseholdID p \<in> dom (st_households s)" and "pk_ID p \<in> dom (st_pickups s)"
  shows "add_payment (due pricing newID (st_now s) p) s =
    (case charge pricing newID p s of Inl e \<Rightarrow> Inl e | Inr (y, t) \<Rightarrow> Inr ((), t))"
  using assms by (auto simp: add_payment_def charge_def due_def Let_def)

lemma charge_pickups:
  "charge pricing newID p (s\<lparr>st_pickups := m\<rparr>) =
    (case charge pricing newID p s of Inl e \<Rightarrow> Inl e | Inr (y, t) \<Rightarrow> Inr (y, t\<lparr>st_pickups := m\<rparr>))"
  by (auto simp: charge_def Let_def)

lemma committed_references:
  assumes "world_ok w" and "st_pickups (committed w) i = Some p"
  shows "pk_ID p = i" "pk_HouseholdID p \<in> dom (st_households (committed w))"
  using assms schema_okD(5) [of "wd_db w"]
  by (auto simp: committed_def pickup_map_def world_ok_def dest!: lookup_by_SomeD)

lemma pickup_Complete_flow:
  "pickup_Complete (pickupService cfg) c i newID =
     clocked (\<lambda>now c. tx_Do NewTxManager c
       (abind (\<lambda>c. PickupRepository_Complete c i now)
         (\<lambda>r. case r of
            None \<Rightarrow> abind (\<lambda>c. PickupRepository_FindByID c i) (\<lambda>_. athrow (App ErrPickupNotScheduled))
          | Some p \<Rightarrow> abind (\<lambda>c. PaymentRepository_Insert c (due (app_pricing cfg) newID now p))
              (\<lambda>_. areturn p)))) c"
  by (rule ext) (simp add: pickup_Complete_def service_defs clocked_def Let_def,
    rule arg_cong [where f = "\<lambda>k. tx_Do NewTxManager c k _"],
    auto simp: fun_eq_iff abind_def areturn_def athrow_def due_def split: prod.splits sum.splits option.splits)

lemma insert_payment_then:
  "pg_method C k sk \<Longrightarrow> None \<notin> C \<Longrightarrow>
   pg_method C (abind (\<lambda>c. PaymentRepository_Insert c y) (\<lambda>_. k)) (sbind (add_payment y) (\<lambda>_. sk))"
  unfolding payment_calls
  by (intro sequence_method port_method.subset_ctxs [OF insert_payment.port.port_method_axioms]) auto

lemma option_method:
  "pg_method C k sk \<Longrightarrow> (\<And>p. pg_method C (l p) (sl p)) \<Longrightarrow>
   pg_method C (case r of None \<Rightarrow> k | Some p \<Rightarrow> l p) (case r of None \<Rightarrow> sk | Some p \<Rightarrow> sl p)"
  by (cases r) simp_all

interpretation CompletePickup: port_method "pg_view store_of" pg_ok online "{None}"
    "\<lambda>c. pickup_Complete (pickupService cfg) c i newID" "spec_CompletePickup (app_pricing cfg) i newID"
  for cfg i newID
proof -
  have "pg_method {None} (\<lambda>c. pickup_Complete (pickupService cfg) c i newID)
      (sclocked (\<lambda>now. sbind (change_pickup i (\<lambda>p. pk_Status p = PickupScheduled) (completed_at now))
         (\<lambda>r. case r of
            None \<Rightarrow> sbind (find_in st_pickups ErrPickupNotFound i) (\<lambda>_. sthrow (App ErrPickupNotScheduled))
          | Some p \<Rightarrow> sbind (add_payment (due (app_pricing cfg) newID now p)) (\<lambda>_. sreturn p))))"
    unfolding pickup_Complete_flow PickupRepository_Complete_def pickup_calls(3)
    by (intro clocked_method pg_tx.transaction sequence_method
        port_method.subset_ctxs [OF complete.update.port.port_method_axioms]
        option_method find_pickup_then insert_payment_then pg_return pg_throw)
      auto
  then show "pg_method {None} (\<lambda>c. pickup_Complete (pickupService cfg) c i newID)
      (spec_CompletePickup (app_pricing cfg) i newID)"
  proof (rule port_method.same_spec)
    fix c w
    assume "c \<in> {None}" and "pg_ok c w"
    then have c: "c = None" and ok: "world_ok w" by simp_all
    show "sclocked (\<lambda>now. sbind (change_pickup i (\<lambda>p. pk_Status p = PickupScheduled) (completed_at now))
         (\<lambda>r. case r of
            None \<Rightarrow> sbind (find_in st_pickups ErrPickupNotFound i) (\<lambda>_. sthrow (App ErrPickupNotScheduled))
          | Some p \<Rightarrow> sbind (add_payment (due (app_pricing cfg) newID now p)) (\<lambda>_. sreturn p)))
       (pg_view store_of c w) = spec_CompletePickup (app_pricing cfg) i newID (pg_view store_of c w)"
    proof (cases "st_pickups (committed w) i")
      case None
      then show ?thesis
        by (simp add: c spec_flow change_pickup_def find_in_def spec_CompletePickup_def)
    next
      case (Some p)
      let ?s = "committed w" and ?q = "completed_at (st_now (committed w)) p"
      from committed_references [OF ok Some]
      have "add_payment (due (app_pricing cfg) newID (st_now ?s) ?q) (?s\<lparr>st_pickups := (st_pickups ?s)(i \<mapsto> ?q)\<rparr>) =
          (case charge (app_pricing cfg) newID ?q ?s of Inl e \<Rightarrow> Inl e
           | Inr (y, t) \<Rightarrow> Inr ((), t\<lparr>st_pickups := (st_pickups ?s)(i \<mapsto> ?q)\<rparr>))"
        using add_payment_due [of ?q "?s\<lparr>st_pickups := (st_pickups ?s)(i \<mapsto> ?q)\<rparr>"]
        by (simp add: completed_at_def charge_pickups split: sum.splits prod.splits)
      moreover have "charge (app_pricing cfg) newID ?q ?s = Inr (y, t) \<Longrightarrow> st_pickups t = st_pickups ?s" for y t
        by (auto simp: charge_def Let_def split: if_splits)
      ultimately show ?thesis
        using Some
        by (auto simp: c spec_flow change_pickup_def find_in_def spec_CompletePickup_def Let_def
            completed_at_def split: sum.splits prod.splits)
    qed
  qed
qed


section \<open>Payments\<close>

lemma payment_Create_flow:
  "payment_Create (paymentService cfg) c cmd newID =
     abind (\<lambda>c. PickupRepository_FindByID c (cy_WasteID cmd))
       (\<lambda>p. if pk_HouseholdID p \<noteq> cy_HouseholdID cmd then athrow (App ErrPaymentHouseholdMismatch)
         else clocked (\<lambda>now. let y = due (app_pricing cfg) newID now (p\<lparr>pk_ID := cy_WasteID cmd\<rparr>)
              in abind (\<lambda>c. PaymentRepository_Insert c y) (\<lambda>_. areturn y))) c"
  by (rule ext) (auto simp: payment_Create_def service_defs clocked_def abind_def areturn_def athrow_def
      due_def Let_def split: prod.splits sum.splits)

lemma insert_payment_return:
  "pg_method C (abind (\<lambda>c. PaymentRepository_Insert c y) (\<lambda>_. areturn a))
     (sbind (add_payment y) (\<lambda>_. sreturn a))"
  unfolding payment_calls
  by (intro sequence_method port_method.subset_ctxs [OF insert_payment.port.port_method_axioms]
      pg_return) auto

interpretation CreatePayment: port_method "pg_view store_of" pg_ok online "{None}"
    "\<lambda>c. payment_Create (paymentService cfg) c cmd newID" "spec_CreatePayment (app_pricing cfg) cmd newID"
  for cfg cmd newID
proof -
  have "pg_method {None} (\<lambda>c. payment_Create (paymentService cfg) c cmd newID)
      (sbind (find_in st_pickups ErrPickupNotFound (cy_WasteID cmd))
        (\<lambda>p. if pk_HouseholdID p \<noteq> cy_HouseholdID cmd then sthrow (App ErrPaymentHouseholdMismatch)
          else sclocked (\<lambda>now. let y = due (app_pricing cfg) newID now (p\<lparr>pk_ID := cy_WasteID cmd\<rparr>)
               in sbind (add_payment y) (\<lambda>_. sreturn y))))"
    unfolding payment_Create_flow Let_def
    by (intro find_pickup_then if_method clocked_method insert_payment_return pg_throw)
  then show "pg_method {None} (\<lambda>c. payment_Create (paymentService cfg) c cmd newID)
      (spec_CreatePayment (app_pricing cfg) cmd newID)"
  proof (rule port_method.same_spec)
    fix c w
    assume "c \<in> {None}" and "pg_ok c w"
    then have c: "c = None" and ok: "world_ok w" by simp_all
    show "sbind (find_in st_pickups ErrPickupNotFound (cy_WasteID cmd))
        (\<lambda>p. if pk_HouseholdID p \<noteq> cy_HouseholdID cmd then sthrow (App ErrPaymentHouseholdMismatch)
          else sclocked (\<lambda>now. let y = due (app_pricing cfg) newID now (p\<lparr>pk_ID := cy_WasteID cmd\<rparr>)
               in sbind (add_payment y) (\<lambda>_. sreturn y))) (pg_view store_of c w) =
       spec_CreatePayment (app_pricing cfg) cmd newID (pg_view store_of c w)"
    proof (cases "st_pickups (committed w) (cy_WasteID cmd)")
      case None
      then show ?thesis by (simp add: c spec_flow find_in_def spec_CreatePayment_def)
    next
      case (Some p)
      note refs = committed_references [OF ok Some]
      have "add_payment (due (app_pricing cfg) newID (st_now (committed w)) p) (committed w) =
          (case charge (app_pricing cfg) newID p (committed w) of Inl e \<Rightarrow> Inl e | Inr (y, t) \<Rightarrow> Inr ((), t))"
        by (rule add_payment_due) (use refs Some in auto)
      moreover have "charge (app_pricing cfg) newID p (committed w) = Inr (y, t) \<Longrightarrow>
          y = due (app_pricing cfg) newID (st_now (committed w)) p" for y t
        by (auto simp: charge_def Let_def split: if_splits)
      moreover have "p\<lparr>pk_ID := cy_WasteID cmd\<rparr> = p"
        using refs(1) by (cases p) simp
      ultimately show ?thesis
        using Some
        by (auto simp: c spec_flow find_in_def spec_CreatePayment_def Let_def
            split: sum.splits prod.splits)
    qed
  qed
qed

definition proof_key :: "(uuid \<Rightarrow> string) \<Rightarrow> uuid \<Rightarrow> uuid \<Rightarrow> string \<Rightarrow> string" where
  "proof_key show_uuid i newID contentType =
    ''payments/'' @ show_uuid i @ ''/'' @ show_uuid newID @ extensionFor contentType"

definition proof_url :: "(uuid \<Rightarrow> string) \<Rightarrow> Config \<Rightarrow> uuid \<Rightarrow> uuid \<Rightarrow> string \<Rightarrow> string" where
  "proof_url show_uuid cfg i newID contentType =
    object_url (NewMinIO (cf_MinIO cfg)) (proof_key show_uuid i newID contentType)"

lemma payment_Confirm_flow:
  "payment_Confirm show_uuid (paymentService cfg) c i input newID =
     abind (\<lambda>c. PaymentRepository_FindByID c i)
       (\<lambda>y. if pm_Status y \<noteq> PaymentPending then athrow (App ErrPaymentNotPending)
         else abind (upload (NewMinIO (cf_MinIO cfg)) (proof_key show_uuid i newID (ci_ContentType input))
                (ci_Reader input) (ci_Size input) (ci_ContentType input))
           (\<lambda>url. clocked (\<lambda>now. abind (\<lambda>c. PaymentRepository_Confirm c i url now)
              (\<lambda>r. case r of None \<Rightarrow> athrow (App ErrPaymentNotPending) | Some y \<Rightarrow> areturn y)))) c"
  by (rule ext) (auto simp: payment_Confirm_def service_defs clocked_def abind_def areturn_def athrow_def
      proof_key_def upload_def Let_def split: prod.splits sum.splits option.splits)

interpretation ConfirmPayment: port_method "pg_view store_of" pg_ok online UNIV
    "\<lambda>c. payment_Confirm show_uuid (paymentService cfg) c i input newID"
    "spec_ConfirmPayment i (proof_url show_uuid cfg i newID (ci_ContentType input))"
  for show_uuid cfg i input newID
proof -
  let ?url = "proof_url show_uuid cfg i newID (ci_ContentType input)"
  have "pg_method UNIV (\<lambda>c. payment_Confirm show_uuid (paymentService cfg) c i input newID)
      (sbind (find_in st_payments ErrPaymentNotFound i)
       (\<lambda>y. if pm_Status y \<noteq> PaymentPending then sthrow (App ErrPaymentNotPending)
         else sbind (sreturn ?url)
           (\<lambda>url. sclocked (\<lambda>now. sbind (confirm_payment i url now)
              (\<lambda>r. case r of None \<Rightarrow> sthrow (App ErrPaymentNotPending) | Some y \<Rightarrow> sreturn y)))))"
    unfolding payment_Confirm_flow payment_calls proof_url_def
    by (intro sequence_method if_method clocked_method option_method pg_return pg_throw
        find_payment.port.port_method_axioms confirm.port.port_method_axioms
        upload.port_method_axioms)
      (auto simp: find_in_def sreturn_def confirm_payment_def Let_def split: option.splits if_splits)
  then show "pg_method UNIV (\<lambda>c. payment_Confirm show_uuid (paymentService cfg) c i input newID)
      (spec_ConfirmPayment i ?url)"
    by (rule port_method.same_spec)
      (auto simp: spec_flow find_in_def confirm_payment_def spec_ConfirmPayment_def Let_def
        split: option.splits)
qed

section \<open>Properties\<close>

text \<open>
  Creating a household. With every connection failure the script allows, the service
  returns what \<open>spec_CreateHousehold\<close> says and the store is as it says; only when the
  connection is not healthy may it instead fail with a server error, and then the household is
  stored entirely or not at all.
\<close>

theorem CreateHousehold_refines:
  assumes "world_ok w" and "household_Create householdService None cmd newID w = (r, w')"
  shows "world_ok w' \<and>
    refines (online w) (spec_CreateHousehold cmd newID (committed w)) (committed w) r (committed w')"
  using assms CreateHousehold.pool_call by fastforce

theorem CreateHousehold_refines_witness:
  "case household_Create householdService None \<lparr>ch_OwnerName = ''Cici'', ch_Address = ''Street 3''\<rparr> 3 (demo [ReplyLost NetError]) of
     (r, w') \<Rightarrow> world_ok w' \<and>
       refines False (spec_CreateHousehold \<lparr>ch_OwnerName = ''Cici'', ch_Address = ''Street 3''\<rparr> 3 (committed (demo [ReplyLost NetError])))
         (committed (demo [ReplyLost NetError])) r (committed w')"
  using CreateHousehold_refines [where w = "(demo [ReplyLost NetError])"
      and cmd = "\<lparr>ch_OwnerName = ''Cici'', ch_Address = ''Street 3''\<rparr>"
      and newID = "3"]
  by (auto simp: world_ok_demo split: prod.split)

text \<open>
  Deleting a household: one that pickups or payments refer to is refused with
  \<open>ErrHouseholdHasDependents\<close>, an unknown one with \<open>ErrHouseholdNotFound\<close>, in both
  cases without a change; a failure of the connection gives a server error and deletes the
  household or nothing.
\<close>

theorem DeleteHousehold_refines:
  assumes "world_ok w" and "household_Delete householdService None i w = (r, w')"
  shows "world_ok w' \<and>
    refines (online w) (remove_household i (committed w)) (committed w) r (committed w')"
  using assms DeleteHousehold.pool_call by fastforce

theorem DeleteHousehold_refines_witness:
  "case household_Delete householdService None 1 (demo [Refused DeadlineExceeded]) of
     (r, w') \<Rightarrow> world_ok w' \<and>
       refines False (remove_household 1 (committed (demo [Refused DeadlineExceeded])))
         (committed (demo [Refused DeadlineExceeded])) r (committed w')"
  using DeleteHousehold_refines [where w = "(demo [Refused DeadlineExceeded])"
      and i = "1"]
  by (auto simp: world_ok_demo split: prod.split)

text \<open>
  Claim C9. Creating a pickup (Rule 1): a household with a pending payment is refused, otherwise the
  pickup is stored as pending with the type and safety check of the command. The check and the
  insertion are one transaction: when a round trip fails, including the commit, the pickup is
  stored entirely or not at all and the caller gets a server error.
\<close>

theorem CreatePickup_refines:
  assumes "world_ok w" and "pickup_Create (pickupService cfg) None cmd newID w = (r, w')"
  shows "world_ok w' \<and>
    refines (online w) (spec_CreatePickup cmd newID (committed w)) (committed w) r (committed w')"
  using assms CreatePickup.pool_call by fastforce

theorem CreatePickup_refines_witness:
  "case pickup_Create (pickupService demo_config) None \<lparr>cp_HouseholdID = 1, cp_Type = PickupPaper, cp_SafetyCheck = False\<rparr> 30 (demo [Reply, Reply, Reply, ReplyLost NetError]) of
     (r, w') \<Rightarrow> world_ok w' \<and>
       refines False (spec_CreatePickup \<lparr>cp_HouseholdID = 1, cp_Type = PickupPaper, cp_SafetyCheck = False\<rparr> 30 (committed (demo [Reply, Reply, Reply, ReplyLost NetError])))
         (committed (demo [Reply, Reply, Reply, ReplyLost NetError])) r (committed w')"
  using CreatePickup_refines [where w = "(demo [Reply, Reply, Reply, ReplyLost NetError])"
      and cfg = "demo_config"
      and cmd = "\<lparr>cp_HouseholdID = 1, cp_Type = PickupPaper, cp_SafetyCheck = False\<rparr>"
      and newID = "30"]
  by (auto simp: world_ok_demo split: prod.split)

text \<open>
  Claim C10. Scheduling a pickup (Rules 2 and 3): exactly a pending pickup that, when electronic, has
  passed its safety check becomes scheduled for the date of the command; every other pickup is
  left as it is and the error names the reason. A lost connection gives a server error.
\<close>

theorem SchedulePickup_refines:
  assumes "world_ok w" and "pickup_Schedule (pickupService cfg) None i cmd w = (r, w')"
  shows "world_ok w' \<and>
    refines (online w) (spec_SchedulePickup i (sp_PickupDate cmd) (committed w)) (committed w) r (committed w')"
  using assms SchedulePickup.pool_call by fastforce

theorem SchedulePickup_refines_witness:
  "case pickup_Schedule (pickupService demo_config) None 10 \<lparr>sp_PickupDate = 999\<rparr> (demo [ReplyLost Canceled]) of
     (r, w') \<Rightarrow> world_ok w' \<and>
       refines False (spec_SchedulePickup 10 (sp_PickupDate \<lparr>sp_PickupDate = 999\<rparr>) (committed (demo [ReplyLost Canceled])))
         (committed (demo [ReplyLost Canceled])) r (committed w')"
  using SchedulePickup_refines [where w = "(demo [ReplyLost Canceled])"
      and cfg = "demo_config"
      and i = "10"
      and cmd = "\<lparr>sp_PickupDate = 999\<rparr>"]
  by (auto simp: world_ok_demo split: prod.split)

text \<open>
  Claim C23. Canceling a pickup: exactly pending and scheduled pickups become canceled; completed and
  canceled ones are left alone with \<open>ErrPickupNotCancelable\<close>.
\<close>

theorem CancelPickup_refines:
  assumes "world_ok w" and "pickup_Cancel (pickupService cfg) None i w = (r, w')"
  shows "world_ok w' \<and>
    refines (online w) (spec_CancelPickup i (committed w)) (committed w) r (committed w')"
  using assms CancelPickup.pool_call by fastforce

theorem CancelPickup_refines_witness:
  "case pickup_Cancel (pickupService demo_config) None 12 (demo [Reply, Refused NetError]) of
     (r, w') \<Rightarrow> world_ok w' \<and>
       refines False (spec_CancelPickup 12 (committed (demo [Reply, Refused NetError])))
         (committed (demo [Reply, Refused NetError])) r (committed w')"
  using CancelPickup_refines [where w = "(demo [Reply, Refused NetError])"
      and cfg = "demo_config"
      and i = "12"]
  by (auto simp: world_ok_demo split: prod.split)

text \<open>
  Claim C5. Completing a pickup (Rule 4): exactly a scheduled pickup becomes completed, and in the same
  transaction a pending payment of its household over the price of its type is stored. If the
  payment cannot be stored, or any round trip fails, nothing of the transaction remains; only a
  commit whose answer is lost may have stored both, and the caller then gets a server error.
\<close>

theorem CompletePickup_refines:
  assumes "world_ok w" and "pickup_Complete (pickupService cfg) None i newID w = (r, w')"
  shows "world_ok w' \<and>
    refines (online w) (spec_CompletePickup (app_pricing cfg) i newID (committed w)) (committed w) r (committed w')"
  using assms CompletePickup.pool_call by fastforce

theorem CompletePickup_refines_witness:
  "case pickup_Complete (pickupService demo_config) None 11 40 (demo [Reply, Reply, Reply, ReplyLost NetError]) of
     (r, w') \<Rightarrow> world_ok w' \<and>
       refines False (spec_CompletePickup (app_pricing demo_config) 11 40 (committed (demo [Reply, Reply, Reply, ReplyLost NetError])))
         (committed (demo [Reply, Reply, Reply, ReplyLost NetError])) r (committed w')"
  using CompletePickup_refines [where w = "(demo [Reply, Reply, Reply, ReplyLost NetError])"
      and cfg = "demo_config"
      and i = "11"
      and newID = "40"]
  by (auto simp: world_ok_demo split: prod.split)

text \<open>
  Claim C13. The sweep (Rule 5): it cancels exactly the organic pickups that are pending or scheduled and
  were created before now minus the configured lifetime, and returns how many there were.
\<close>

theorem SweepStale_refines:
  assumes "world_ok w" and "pickup_CancelStaleOrganic (pickupService cfg) None w = (r, w')"
  shows "world_ok w' \<and>
    refines (online w) (spec_CancelStaleOrganic (kc_OrganicTTL (cf_Worker cfg)) (committed w)) (committed w) r (committed w')"
  using assms SweepStale.pool_call by fastforce

theorem SweepStale_refines_witness:
  "case pickup_CancelStaleOrganic (pickupService demo_config) None (demo [ReplyLost NetError]) of
     (r, w') \<Rightarrow> world_ok w' \<and>
       refines False (spec_CancelStaleOrganic (kc_OrganicTTL (cf_Worker demo_config)) (committed (demo [ReplyLost NetError])))
         (committed (demo [ReplyLost NetError])) r (committed w')"
  using SweepStale_refines [where w = "(demo [ReplyLost NetError])"
      and cfg = "demo_config"]
  by (auto simp: world_ok_demo split: prod.split)

text \<open>
  Claim C12. Creating a payment by hand: for an existing pickup of the given household that has no payment
  yet, whatever its status, a pending payment over the price of its type is stored; the errors
  for a missing pickup, another household and a second payment change nothing.
\<close>

theorem CreatePayment_refines:
  assumes "world_ok w" and "payment_Create (paymentService cfg) None cmd newID w = (r, w')"
  shows "world_ok w' \<and>
    refines (online w) (spec_CreatePayment (app_pricing cfg) cmd newID (committed w)) (committed w) r (committed w')"
  using assms CreatePayment.pool_call by fastforce

theorem CreatePayment_refines_witness:
  "case payment_Create (paymentService demo_config) None \<lparr>cy_HouseholdID = 1, cy_WasteID = 11\<rparr> 41 (demo [Reply, ReplyLost NetError]) of
     (r, w') \<Rightarrow> world_ok w' \<and>
       refines False (spec_CreatePayment (app_pricing demo_config) \<lparr>cy_HouseholdID = 1, cy_WasteID = 11\<rparr> 41 (committed (demo [Reply, ReplyLost NetError])))
         (committed (demo [Reply, ReplyLost NetError])) r (committed w')"
  using CreatePayment_refines [where w = "(demo [Reply, ReplyLost NetError])"
      and cfg = "demo_config"
      and cmd = "\<lparr>cy_HouseholdID = 1, cy_WasteID = 11\<rparr>"
      and newID = "41"]
  by (auto simp: world_ok_demo split: prod.split)

text \<open>
  Claim C11. Confirming a payment: exactly a pending payment becomes paid, with the URL of the uploaded
  proof and the current time; a failed upload changes no payment and gives a server error.
\<close>

theorem ConfirmPayment_refines:
  assumes "world_ok w" and "payment_Confirm show_uuid (paymentService cfg) None i input newID w = (r, w')"
  shows "world_ok w' \<and>
    refines (online w) (spec_ConfirmPayment i (proof_url show_uuid cfg i newID (ci_ContentType input)) (committed w)) (committed w) r (committed w')"
  using assms ConfirmPayment.pool_call by fastforce

theorem ConfirmPayment_refines_witness:
  "case payment_Confirm (\<lambda>_. ''id'') (paymentService demo_config) None 20 \<lparr>ci_Reader = ''PDF'', ci_Size = 3, ci_ContentType = ''application/pdf''\<rparr> 50 (demo [Reply, Refused NetError]) of
     (r, w') \<Rightarrow> world_ok w' \<and>
       refines False (spec_ConfirmPayment 20 (proof_url (\<lambda>_. ''id'') demo_config 20 50 (ci_ContentType \<lparr>ci_Reader = ''PDF'', ci_Size = 3, ci_ContentType = ''application/pdf''\<rparr>)) (committed (demo [Reply, Refused NetError])))
         (committed (demo [Reply, Refused NetError])) r (committed w')"
  using ConfirmPayment_refines [where w = "(demo [Reply, Refused NetError])"
      and show_uuid = "(\<lambda>_. ''id'')"
      and cfg = "demo_config"
      and i = "20"
      and input = "\<lparr>ci_Reader = ''PDF'', ci_Size = 3, ci_ContentType = ''application/pdf''\<rparr>"
      and newID = "50"]
  by (auto simp: world_ok_demo split: prod.split)

end
