(* ===== verification/Queries.thy ===== *)
theory Queries
  imports UseCases
begin

text \<open>
  The reading use cases: pages with their total count, the two summaries and the history of a
  household.
\<close>

section \<open>The statements only read\<close>

interpretation list_households: read_query "sql_list_households lmt off" "map householdRow_toDomain"
  for lmt off
  by unfold_locales (auto simp: sql_list_households_def split: sum.splits)

interpretation count_households: read_query sql_count_households "\<lambda>n. n"
  by unfold_locales (simp add: sql_count_households_def)

interpretation list_pickups: read_query "sql_list_pickups status household lmt off" "map pickupRow_toDomain"
  for status household lmt off
  by unfold_locales (auto simp: sql_list_pickups_def split: sum.splits if_splits)

interpretation count_pickups: read_query "sql_count_pickups status household" "\<lambda>n. n"
  for status household
  by unfold_locales (auto simp: sql_count_pickups_def split: if_splits)

interpretation list_payments: read_query "sql_list_payments status household from to lmt off"
    "map paymentRow_toDomain"
  for status household "from" to lmt off
  by unfold_locales (auto simp: sql_list_payments_def split: sum.splits if_splits)

interpretation count_payments: read_query "sql_count_payments status household from to" "\<lambda>n. n"
  for status household "from" to
  by unfold_locales (auto simp: sql_count_payments_def split: if_splits)

section \<open>A page and its total\<close>

interpretation ListHouseholds: port_sequence "pg_view tables" pg_ok online UNIV
    "\<lambda>c. HouseholdRepository_List c (Limit params) (Offset params)"
    "reading (sql_list_households (Limit params) (Offset params)) (map householdRow_toDomain)"
    "\<lambda>items. abind HouseholdRepository_Count (\<lambda>cnt. areturn (items, cnt))"
    "\<lambda>items. sbind (reading sql_count_households (\<lambda>n. n)) (\<lambda>cnt. sreturn (items, cnt))"
  for params
  unfolding household_calls
  by (intro port_sequence.intro port_sequence_axioms.intro list_households.port.port_method_axioms
      sequence_method count_households.port.port_method_axioms pg_return)
    (auto dest: list_households.reading_keeps count_households.reading_keeps)

lemma pickup_List_flow:
  "pickup_List (pickupService cfg) c flt params =
     abind (\<lambda>c. PickupRepository_List c (pf_Status flt) (pf_HouseholdID flt) (Limit params) (Offset params))
       (\<lambda>items. abind (\<lambda>c. PickupRepository_Count c (pf_Status flt) (pf_HouseholdID flt))
         (\<lambda>cnt. areturn (items, cnt))) c"
  by (rule ext) (simp add: pickup_List_def service_defs abind_def areturn_def split: prod.splits sum.splits)

lemma payment_List_flow:
  "payment_List (paymentService cfg) c flt params =
     abind (\<lambda>c. PaymentRepository_List c (yf_Status flt) (yf_HouseholdID flt) (yf_DateFrom flt)
         (yf_DateTo flt) (Limit params) (Offset params))
       (\<lambda>items. abind (\<lambda>c. PaymentRepository_Count c (yf_Status flt) (yf_HouseholdID flt)
           (yf_DateFrom flt) (yf_DateTo flt))
         (\<lambda>cnt. areturn (items, cnt))) c"
  by (rule ext) (simp add: payment_List_def service_defs abind_def areturn_def split: prod.splits sum.splits)

lemma household_List_flow:
  "household_List householdService c params =
     abind (\<lambda>c. HouseholdRepository_List c (Limit params) (Offset params))
       (\<lambda>items. abind HouseholdRepository_Count (\<lambda>cnt. areturn (items, cnt))) c"
  by (rule ext) (simp add: household_List_def service_defs abind_def areturn_def split: prod.splits sum.splits)

interpretation ListPickups: port_sequence "pg_view tables" pg_ok online UNIV
    "\<lambda>c. PickupRepository_List c status household (Limit params) (Offset params)"
    "reading (sql_list_pickups status household (Limit params) (Offset params)) (map pickupRow_toDomain)"
    "\<lambda>items. abind (\<lambda>c. PickupRepository_Count c status household) (\<lambda>cnt. areturn (items, cnt))"
    "\<lambda>items. sbind (reading (sql_count_pickups status household) (\<lambda>n. n)) (\<lambda>cnt. sreturn (items, cnt))"
  for status household params
  unfolding pickup_calls
  by (intro port_sequence.intro port_sequence_axioms.intro list_pickups.port.port_method_axioms
      sequence_method count_pickups.port.port_method_axioms pg_return)
    (auto dest: list_pickups.reading_keeps count_pickups.reading_keeps)

interpretation ListPayments: port_sequence "pg_view tables" pg_ok online UNIV
    "\<lambda>c. PaymentRepository_List c status household from to (Limit params) (Offset params)"
    "reading (sql_list_payments status household from to (Limit params) (Offset params))
      (map paymentRow_toDomain)"
    "\<lambda>items. abind (\<lambda>c. PaymentRepository_Count c status household from to) (\<lambda>cnt. areturn (items, cnt))"
    "\<lambda>items. sbind (reading (sql_count_payments status household from to) (\<lambda>n. n))
      (\<lambda>cnt. sreturn (items, cnt))"
  for status household "from" to params
  unfolding payment_calls
  by (intro port_sequence.intro port_sequence_axioms.intro list_payments.port.port_method_axioms
      sequence_method count_payments.port.port_method_axioms pg_return)
    (auto dest: list_payments.reading_keeps count_payments.reading_keeps)

text \<open>What a page shows.\<close>

definition page_rows :: "Params \<Rightarrow> 'r list \<Rightarrow> 'r list" where
  "page_rows p rs = take (nat (sint (Limit p))) (drop (nat (sint (Offset p))) rs)"

definition regular :: "Params \<Rightarrow> bool" where
  "regular p \<longleftrightarrow> 0 < sint (Page p) \<and> 0 < sint (PerPage p) \<and>
     (sint (Page p) - 1) * sint (PerPage p) < 2 ^ 63"

lemma limit_offset_regular:
  "regular p \<Longrightarrow> limit_offset (Limit p) (Offset p) rs = Inr (page_rows p rs)"
  using sint_Offset [of p] by (auto simp: limit_offset_def page_rows_def regular_def Limit_def)

lemma read_result:
  assumes "refines hl (Inr (a, s)) s r s'"
  shows "s' = s \<and> (r = Inr a \<or> (\<not> hl \<and> failed r))"
  using assms by (auto simp: refines_def)

section \<open>The summaries and the history\<close>

interpretation waste_summary: read_query sql_waste_summary
    "map (\<lambda>row. \<lparr>wc_Type = ww_type row, wc_Status = ww_status row, wc_Count = ww_count row\<rparr>)"
  by unfold_locales (simp add: sql_waste_summary_def)

interpretation payment_summary: read_query sql_payment_summary
    "map (\<lambda>row. \<lparr>pt_Status = yt_status row, pt_Count = yt_count row,
                pt_Amount = numericToDecimal (yt_amount row)\<rparr>)"
  by unfold_locales (simp add: sql_payment_summary_def)

interpretation household_pickups: read_query "sql_household_pickups h" "map pickupRow_toDomain"
  for h
  by unfold_locales (simp add: sql_household_pickups_def)

interpretation household_payments: read_query "sql_household_payments h" "map paymentRow_toDomain"
  for h
  by unfold_locales (simp add: sql_household_payments_def)

lemma report_calls:
  "ReportRepository_WasteSummary c = call sql_waste_summary map_error
     (\<lambda>rows. Inr (map (\<lambda>row. \<lparr>wc_Type = ww_type row, wc_Status = ww_status row,
        wc_Count = ww_count row\<rparr>) rows)) c"
  "ReportRepository_PaymentSummary c = call sql_payment_summary map_error
     (\<lambda>rows. Inr (map (\<lambda>row. \<lparr>pt_Status = yt_status row, pt_Count = yt_count row,
        pt_Amount = numericToDecimal (yt_amount row)\<rparr>) rows)) c"
  "ReportRepository_HouseholdPickups c h =
     call (sql_household_pickups h) map_error (\<lambda>rows. Inr (map pickupRow_toDomain rows)) c"
  "ReportRepository_HouseholdPayments c h =
     call (sql_household_payments h) map_error (\<lambda>rows. Inr (map paymentRow_toDomain rows)) c"
  by (rule ext, simp add: call_def ReportRepository_WasteSummary_def ReportRepository_PaymentSummary_def
    ReportRepository_HouseholdPickups_def ReportRepository_HouseholdPayments_def
    split: prod.splits sum.splits)+

lemmas report_defs = reportService_def report_NewService_def NewReportRepository_def

lemma report_WasteSummary_flow:
  "report_WasteSummary reportService c = abind ReportRepository_WasteSummary
     (\<lambda>counts. areturn \<lparr>ws_Counts = counts, ws_Total = foldl (\<lambda>n c. n + wc_Count c) 0 counts\<rparr>) c"
  by (rule ext) (simp add: report_WasteSummary_def report_defs abind_def areturn_def
      split: prod.splits sum.splits)

lemma report_PaymentSummary_flow:
  "report_PaymentSummary reportService c = abind ReportRepository_PaymentSummary
     (\<lambda>totals. areturn \<lparr>py_Totals = totals, py_TotalRevenue =
        foldl (\<lambda>revenue t. if pt_Status t = PaymentPaid then revenue + pt_Amount t else revenue) 0 totals\<rparr>) c"
  by (rule ext) (simp add: report_PaymentSummary_def report_defs abind_def areturn_def Let_def
      split: prod.splits sum.splits)

definition household_in :: "uuid \<Rightarrow> instant \<times> db \<Rightarrow> go_error + Household \<times> (instant \<times> db)" where
  "household_in i s =
    (case lookup_by hw_id (tb_households (snd s)) i of
       None \<Rightarrow> Inl (App ErrHouseholdNotFound)
     | Some r \<Rightarrow> Inr (householdRow_toDomain r, s))"

interpretation household_of: repository_call tables "sql_find_household i" map_error
    "one_row householdRow_toDomain ErrHouseholdNotFound" "household_in i"
  for i
proof
  fix d a d' n
  assume "schema_ok d" "sql_find_household i d = Inr (a, d')"
  then show "schema_ok d' \<and> agrees (one_row householdRow_toDomain ErrHouseholdNotFound a)
      (tables n d) (tables n d') (household_in i (tables n d))"
    by (auto simp: sql_find_household_def household_in_def one_row_def filter_key_only tables_def
        schema_ok_def split: option.splits)
qed (simp_all add: sql_find_household_def)

lemma report_HouseholdHistory_flow:
  "report_HouseholdHistory reportService c i =
     abind (\<lambda>c. HouseholdRepository_FindByID c i)
       (\<lambda>h. abind (\<lambda>c. ReportRepository_HouseholdPickups c i)
         (\<lambda>ps. abind (\<lambda>c. ReportRepository_HouseholdPayments c i)
           (\<lambda>ys. areturn \<lparr>hy_Household = h, hy_Pickups = ps, hy_Payments = ys\<rparr>))) c"
  by (rule ext) (simp add: report_HouseholdHistory_def report_defs NewHouseholdRepository_def
      abind_def areturn_def split: prod.splits sum.splits)

interpretation WasteReport: port_sequence "pg_view tables" pg_ok online UNIV ReportRepository_WasteSummary
    "reading sql_waste_summary (map (\<lambda>row. \<lparr>wc_Type = ww_type row, wc_Status = ww_status row,
       wc_Count = ww_count row\<rparr>))"
    "\<lambda>counts. areturn \<lparr>ws_Counts = counts, ws_Total = foldl (\<lambda>n c. n + wc_Count c) 0 counts\<rparr>"
    "\<lambda>counts. sreturn \<lparr>ws_Counts = counts, ws_Total = foldl (\<lambda>n c. n + wc_Count c) 0 counts\<rparr>"
  unfolding report_calls
  by (intro port_sequence.intro port_sequence_axioms.intro waste_summary.port.port_method_axioms
      pg_return) (auto dest: waste_summary.reading_keeps)

interpretation PaymentReport: port_sequence "pg_view tables" pg_ok online UNIV
    ReportRepository_PaymentSummary
    "reading sql_payment_summary (map (\<lambda>row. \<lparr>pt_Status = yt_status row, pt_Count = yt_count row,
       pt_Amount = numericToDecimal (yt_amount row)\<rparr>))"
    "\<lambda>totals. areturn \<lparr>py_Totals = totals, py_TotalRevenue =
       foldl (\<lambda>revenue t. if pt_Status t = PaymentPaid then revenue + pt_Amount t else revenue) 0 totals\<rparr>"
    "\<lambda>totals. sreturn \<lparr>py_Totals = totals, py_TotalRevenue =
       foldl (\<lambda>revenue t. if pt_Status t = PaymentPaid then revenue + pt_Amount t else revenue) 0 totals\<rparr>"
  unfolding report_calls
  by (intro port_sequence.intro port_sequence_axioms.intro payment_summary.port.port_method_axioms
      pg_return) (auto dest: payment_summary.reading_keeps)

interpretation History: port_sequence "pg_view tables" pg_ok online UNIV
    "\<lambda>c. HouseholdRepository_FindByID c i" "household_in i"
    "\<lambda>h. abind (\<lambda>c. ReportRepository_HouseholdPickups c i)
       (\<lambda>ps. abind (\<lambda>c. ReportRepository_HouseholdPayments c i)
         (\<lambda>ys. areturn \<lparr>hy_Household = h, hy_Pickups = ps, hy_Payments = ys\<rparr>))"
    "\<lambda>h. sbind (reading (sql_household_pickups i) (map pickupRow_toDomain))
       (\<lambda>ps. sbind (reading (sql_household_payments i) (map paymentRow_toDomain))
         (\<lambda>ys. sreturn \<lparr>hy_Household = h, hy_Pickups = ps, hy_Payments = ys\<rparr>))"
  for i
  unfolding report_calls household_calls
  by (intro port_sequence.intro port_sequence_axioms.intro household_of.port.port_method_axioms
      sequence_method household_pickups.port.port_method_axioms
      household_payments.port.port_method_axioms pg_return)
    (auto simp: household_in_def split: option.splits
      dest: household_pickups.reading_keeps household_payments.reading_keeps)

text \<open>Sums over the groups of a \<open>GROUP BY\<close>.\<close>

lemma group_keys_props:
  "distinct (group_keys key rs)" "set (group_keys key rs) = key ` set rs"
  by (simp_all add: group_keys_def)

lemma foldl_sum: "foldl (\<lambda>n x. n + f x) (a :: 'a :: comm_monoid_add) xs = a + (\<Sum>x\<leftarrow>xs. f x)"
  by (induction xs arbitrary: a) (simp_all add: add.assoc)

lemma group_counts:
  "(\<Sum>k\<leftarrow>group_keys key rs. length (filter (\<lambda>r. key r = k) rs)) = length rs"
  using sum_list_groups [of "group_keys key rs" key rs "\<lambda>_. 1 :: nat"] group_keys_props [of key rs]
  by (simp add: sum_list_triv)

lemma sum_one_key:
  assumes "distinct ks"
  shows "(\<Sum>k\<leftarrow>ks. if k = k0 then f k else (0 :: 'b :: comm_monoid_add)) = (if k0 \<in> set ks then f k0 else 0)"
  using assms by (induction ks) auto

definition page_items :: "go_error + 'e list \<times> nat \<Rightarrow> 'e list" where
  "page_items r = (case r of Inr (items, _) \<Rightarrow> items | Inl _ \<Rightarrow> [])"

lemma pickup_page_result:
  "regular params \<Longrightarrow> text_arg_ok status \<Longrightarrow>
   sbind (reading (sql_list_pickups status household (Limit params) (Offset params)) (map pickupRow_toDomain))
     (\<lambda>items. sbind (reading (sql_count_pickups status household) (\<lambda>n. n)) (\<lambda>cnt. sreturn (items, cnt))) (n, d) =
   Inr ((map pickupRow_toDomain (page_rows params (order_desc pw_created_at (tb_ties d \<circ> pw_id)
       (filter (pickup_matches status household) (tb_pickups d)))),
     length (filter (pickup_matches status household) (tb_pickups d))), (n, d))"
  by (simp add: spec_flow reading_def sql_list_pickups_def sql_count_pickups_def limit_offset_regular)

lemma pickup_List_online:
  assumes "world_ok w" and "online w" and "regular params" and "text_arg_ok (pf_Status flt)"
  shows "page_items (fst (pickup_List (pickupService cfg) None flt params w)) =
    map pickupRow_toDomain (page_rows params (order_desc pw_created_at (tb_ties (wd_db w) \<circ> pw_id)
      (filter (pickup_matches (pf_Status flt) (pf_HouseholdID flt)) (tb_pickups (wd_db w)))))"
proof -
  obtain r w' where run: "pickup_List (pickupService cfg) None flt params w = (r, w')"
    by fastforce
  with ListPickups.whole.pool_call [of w "pf_Status flt" "pf_HouseholdID flt" params r w'] assms
  show ?thesis
    by (simp add: pickup_List_flow pickup_page_result refines_healthy page_items_def)
qed

lemma sint_word_of_nat_64: "n < 2 ^ 63 \<Longrightarrow> sint (word_of_nat n :: gint) = int n"
  using sint_word_of_int_64 [of "int n"] by simp

lemma page_rows_nth:
  assumes "0 < n" and "m * n < 2 ^ 63" and "k < m"
  shows "regular \<lparr>Page = word_of_nat (Suc k), PerPage = word_of_nat n\<rparr>"
    "page_rows \<lparr>Page = word_of_nat (Suc k), PerPage = word_of_nat n\<rparr> rs = take n (drop (k * n) rs)"
proof -
  let ?p = "\<lparr>Page = word_of_nat (Suc k), PerPage = word_of_nat n\<rparr> :: Params"
  have "Suc k \<le> m * n" "n \<le> m * n" "k * n < m * n"
    using assms by (auto intro: order_trans [of "Suc k" m])
  with assms have lt: "Suc k < 2 ^ 63" "n < 2 ^ 63" "k * n < 2 ^ 63" by linarith+
  have s: "sint (Page ?p) = int (Suc k)" "sint (PerPage ?p) = int n"
    using lt by (simp_all only: Params.simps sint_word_of_nat_64)
  have prod: "(sint (Page ?p) - 1) * sint (PerPage ?p) = int (k * n)"
    using s by simp
  show reg: "regular ?p"
    unfolding regular_def prod unfolding s
    using assms(1) lt(3) by (simp del: of_nat_mult add: of_nat_less_numeral_power_cancel_iff)
  with sint_Offset [of ?p] prod have "sint (Offset ?p) = int (k * n)"
    by (simp only: regular_def)
  then show "page_rows ?p rs = take n (drop (k * n) rs)"
    using s(2) by (simp only: page_rows_def Limit_def nat_int)
qed

lemma text_arg_completed [simp]: "text_arg_ok (Some ''completed'')"
  by (simp add: text_arg_ok_def pg_text_ascii)

lemma sum_list_rat: "(\<Sum>y\<leftarrow>ys. of_int (f y) / 100) = (of_int (\<Sum>y\<leftarrow>ys. f y) / 100 :: rat)"
  by (induction ys) (simp_all add: add_divide_distrib)

lemma sum_filter_key:
  fixes N :: "'k \<Rightarrow> 'b :: comm_monoid_add"
  assumes "distinct ks" and "k0 \<notin> set ks \<Longrightarrow> N k0 = 0"
  shows "(\<Sum>k\<leftarrow>filter (\<lambda>k. k = k0) ks. N k) = N k0"
proof -
  have "filter (\<lambda>k. k = k0) ks = (if k0 \<in> set ks then [k0] else [])"
    using assms(1) by (induction ks) auto
  with assms(2) show ?thesis by auto
qed

definition waste_counts :: "db \<Rightarrow> WasteCount list" where
  "waste_counts d = map (\<lambda>k. \<lparr>wc_Type = fst k, wc_Status = snd k,
       wc_Count = length (filter (\<lambda>r. waste_key r = k) (tb_pickups d))\<rparr>) (group_keys waste_key (tb_pickups d))"

lemma waste_counts_keys:
  "map (\<lambda>c. (wc_Type c, wc_Status c)) (waste_counts d) = group_keys waste_key (tb_pickups d)"
  by (simp add: waste_counts_def comp_def)

lemma waste_counts_total: "foldl (\<lambda>n c. n + wc_Count c) 0 (waste_counts d) = length (tb_pickups d)"
  by (simp add: foldl_sum waste_counts_def comp_def group_counts)

lemma waste_counts_of:
  "(\<Sum>c\<leftarrow>filter (\<lambda>c. wc_Type c = t \<and> wc_Status c = st) (waste_counts d). wc_Count c) =
    length (filter (\<lambda>p. pw_type p = t \<and> pw_status p = st) (tb_pickups d))"
proof -
  have "(\<lambda>c. wc_Type c = t \<and> wc_Status c = st) \<circ>
      (\<lambda>k. \<lparr>wc_Type = fst k, wc_Status = snd k,
        wc_Count = length (filter (\<lambda>r. waste_key r = k) (tb_pickups d))\<rparr>) = (\<lambda>k. k = (t, st))"
    by auto
  moreover have "(\<Sum>k\<leftarrow>filter (\<lambda>k. k = (t, st)) (group_keys waste_key (tb_pickups d)).
      length (filter (\<lambda>r. waste_key r = k) (tb_pickups d))) =
    length (filter (\<lambda>r. waste_key r = (t, st)) (tb_pickups d))"
    by (rule sum_filter_key) (auto simp: group_keys_props filter_empty_conv image_iff)
  ultimately show ?thesis
    by (simp add: waste_counts_def filter_map comp_def waste_key_def)
qed

definition payment_totals :: "db \<Rightarrow> PaymentStatusTotal list" where
  "payment_totals d = map (\<lambda>k. \<lparr>pt_Status = k,
       pt_Count = length (filter (\<lambda>r. yw_status r = k) (tb_payments d)),
       pt_Amount = of_int (\<Sum>r\<leftarrow>filter (\<lambda>r. yw_status r = k) (tb_payments d). yw_amount r) / 100\<rparr>)
     (group_keys yw_status (tb_payments d))"

lemma payment_totals_of:
  "(\<Sum>c\<leftarrow>filter (\<lambda>c. pt_Status c = st) (payment_totals d). pt_Count c) =
    length (filter (\<lambda>r. yw_status r = st) (tb_payments d))"
  "(\<Sum>c\<leftarrow>filter (\<lambda>c. pt_Status c = st) (payment_totals d). pt_Amount c) =
    (\<Sum>y\<leftarrow>filter (\<lambda>r. yw_status r = st) (tb_payments d). pm_Amount (paymentRow_toDomain y))"
proof -
  let ?ks = "group_keys yw_status (tb_payments d)"
  have "(\<Sum>k\<leftarrow>filter (\<lambda>k. k = st) ?ks. length (filter (\<lambda>r. yw_status r = k) (tb_payments d))) =
      length (filter (\<lambda>r. yw_status r = st) (tb_payments d))"
    by (rule sum_filter_key) (auto simp: group_keys_props filter_empty_conv)
  then show "(\<Sum>c\<leftarrow>filter (\<lambda>c. pt_Status c = st) (payment_totals d). pt_Count c) =
    length (filter (\<lambda>r. yw_status r = st) (tb_payments d))"
    by (simp add: payment_totals_def filter_map comp_def)
  have none: "st \<notin> set ?ks \<Longrightarrow> filter (\<lambda>r. yw_status r = st) (tb_payments d) = []"
    by (auto simp: group_keys_props filter_empty_conv)
  have "(\<Sum>k\<leftarrow>filter (\<lambda>k. k = st) ?ks. of_int (\<Sum>r\<leftarrow>filter (\<lambda>r. yw_status r = k) (tb_payments d). yw_amount r) / 100) =
      (of_int (\<Sum>r\<leftarrow>filter (\<lambda>r. yw_status r = st) (tb_payments d). yw_amount r) / 100 :: rat)"
    by (rule sum_filter_key) (simp_all add: group_keys_props none)
  then show "(\<Sum>c\<leftarrow>filter (\<lambda>c. pt_Status c = st) (payment_totals d). pt_Amount c) =
    (\<Sum>y\<leftarrow>filter (\<lambda>r. yw_status r = st) (tb_payments d). pm_Amount (paymentRow_toDomain y))"
    by (simp add: payment_totals_def filter_map comp_def sum_list_rat)
qed

lemma foldl_if_sum:
  "foldl (\<lambda>n x. if P x then n + f x else n) (a :: 'a :: comm_monoid_add) xs = a + (\<Sum>x\<leftarrow>filter P xs. f x)"
  by (induction xs arbitrary: a) (simp_all add: add.assoc)

lemma sorted_order_desc: "sorted (rev (map key (order_desc key tie rs)))"
  using sorted_sort_key [of "\<lambda>r. - key r" "sort_key tie rs"]
  by (simp add: order_desc_def sorted_wrt_rev sorted_wrt_map)

lemma payment_page_result:
  "regular params \<Longrightarrow> text_arg_ok status \<Longrightarrow>
   sbind (reading (sql_list_payments status household from to (Limit params) (Offset params))
       (map paymentRow_toDomain))
     (\<lambda>items. sbind (reading (sql_count_payments status household from to) (\<lambda>n. n))
       (\<lambda>cnt. sreturn (items, cnt))) (n, d) =
   Inr ((map paymentRow_toDomain (page_rows params (order_desc yw_created_at (tb_ties d \<circ> yw_id)
       (filter (payment_matches status household from to) (tb_payments d)))),
     length (filter (payment_matches status household from to) (tb_payments d))), (n, d))"
  by (simp add: spec_flow reading_def sql_list_payments_def sql_count_payments_def limit_offset_regular)

lemma household_page_result:
  "regular params \<Longrightarrow>
   sbind (reading (sql_list_households (Limit params) (Offset params)) (map householdRow_toDomain))
     (\<lambda>items. sbind (reading sql_count_households (\<lambda>n. n)) (\<lambda>cnt. sreturn (items, cnt))) (n, d) =
   Inr ((map householdRow_toDomain (page_rows params (order_desc hw_created_at (tb_ties d \<circ> hw_id) (tb_households d))),
     length (tb_households d)), (n, d))"
  by (simp add: spec_flow reading_def sql_list_households_def sql_count_households_def limit_offset_regular)

section \<open>Properties\<close>

text \<open>
  A page of pickups holds the pickups of the requested status and household, newest first, cut
  to the requested page, and the total counts all of them; or, when the connection fails, the
  answer is a server error. Either way no table changes.
\<close>

theorem pickup_List_page:
  assumes "world_ok w" and "regular params" and "text_arg_ok (pf_Status flt)"
    and "pickup_List (pickupService cfg) None flt params w = (r, w')"
    and "rows = filter (pickup_matches (pf_Status flt) (pf_HouseholdID flt)) (tb_pickups (wd_db w))"
  shows "wd_db w' = wd_db w \<and>
    (r = Inr (map pickupRow_toDomain (page_rows params (order_desc pw_created_at (tb_ties (wd_db w) \<circ> pw_id) rows)), length rows) \<or>
     (\<not> online w \<and> failed r))"
  using ListPickups.whole.pool_call [of w "pf_Status flt" "pf_HouseholdID flt" params r w'] assms(1,4)
  by (auto simp: pickup_List_flow pickup_page_result [OF assms(2,3)] assms(5) dest: read_result)

theorem pickup_List_page_witness:
  "wd_db (snd (pickup_List (pickupService demo_config) None
      \<lparr>pf_Status = Some ''completed'', pf_HouseholdID = Some 2\<rparr> \<lparr>Page = 1, PerPage = 1\<rparr> (demo []))) = demo_db \<and>
   fst (pickup_List (pickupService demo_config) None
      \<lparr>pf_Status = Some ''completed'', pf_HouseholdID = Some 2\<rparr> \<lparr>Page = 1, PerPage = 1\<rparr> (demo [])) =
   Inr ([pickupRow_toDomain (demo_pickup_row 13 2 PickupPaper PickupCompleted (Some 600) False 400)], 2)"
  using pickup_List_page [where w = "demo []" and params = "\<lparr>Page = 1, PerPage = 1\<rparr>"
      and flt = "\<lparr>pf_Status = Some ''completed'', pf_HouseholdID = Some 2\<rparr>" and cfg = demo_config,
      OF _ _ _ prod.collapse [symmetric] refl]
  by (simp add: world_ok_demo regular_def demo_db_def demo_pickup_row_def pickup_matches_def
      order_desc_def page_rows_def Limit_def Offset_def status_defs)

text \<open>
  A page of payments holds the payments of the requested status, household and payment date
  (both bounds included; a payment without date matches no bound), newest first, and the total
  counts all of them; or the answer is a server error.
\<close>

theorem payment_List_page:
  assumes "world_ok w" and "regular params" and "text_arg_ok (yf_Status flt)"
    and "payment_List (paymentService cfg) None flt params w = (r, w')"
    and "rows = filter (payment_matches (yf_Status flt) (yf_HouseholdID flt) (yf_DateFrom flt)
      (yf_DateTo flt)) (tb_payments (wd_db w))"
  shows "wd_db w' = wd_db w \<and>
    (r = Inr (map paymentRow_toDomain (page_rows params (order_desc yw_created_at (tb_ties (wd_db w) \<circ> yw_id) rows)), length rows) \<or>
     (\<not> online w \<and> failed r))"
  using ListPayments.whole.pool_call [of w "yf_Status flt" "yf_HouseholdID flt" "yf_DateFrom flt"
      "yf_DateTo flt" params r w'] assms(1,4)
  by (auto simp: payment_List_flow payment_page_result [OF assms(2,3)] assms(5) dest: read_result)

theorem payment_List_page_witness:
  "fst (payment_List (paymentService demo_config) None
      \<lparr>yf_Status = None, yf_HouseholdID = Some 2, yf_DateFrom = Some 900, yf_DateTo = None\<rparr>
      \<lparr>Page = 1, PerPage = 10\<rparr> (demo [])) =
   Inr ([paymentRow_toDomain (tb_payments demo_db ! 1)], 1)"
  using payment_List_page [where w = "demo []" and params = "\<lparr>Page = 1, PerPage = 10\<rparr>"
      and flt = "\<lparr>yf_Status = None, yf_HouseholdID = Some 2, yf_DateFrom = Some 900, yf_DateTo = None\<rparr>"
      and cfg = demo_config, OF _ _ _ prod.collapse [symmetric] refl]
  by (simp add: world_ok_demo regular_def demo_db_def payment_matches_def date_from_ok_def date_to_ok_def
      text_arg_ok_def order_desc_def page_rows_def Limit_def Offset_def)

text \<open>
  A page of households holds the households of that page, newest first, and the total counts
  all of them; or the answer is a server error.
\<close>

theorem household_List_page:
  assumes "world_ok w" and "regular params"
    and "household_List householdService None params w = (r, w')"
  shows "wd_db w' = wd_db w \<and>
    (r = Inr (map householdRow_toDomain (page_rows params (order_desc hw_created_at (tb_ties (wd_db w) \<circ> hw_id) (tb_households (wd_db w)))),
        length (tb_households (wd_db w))) \<or>
     (\<not> online w \<and> failed r))"
  using ListHouseholds.whole.pool_call [of w params r w'] assms(1,3)
  by (auto simp: household_List_flow household_page_result [OF assms(2)] dest: read_result)

theorem household_List_page_witness:
  "map hh_ID (page_items (fst (household_List householdService None \<lparr>Page = 2, PerPage = 1\<rparr> (demo [])))) = [1]"
  using household_List_page [where w = "demo []" and params = "\<lparr>Page = 2, PerPage = 1\<rparr>",
      OF _ _ prod.collapse [symmetric]]
  by (simp add: world_ok_demo regular_def demo_db_def order_desc_def page_rows_def Limit_def Offset_def
      page_items_def)

text \<open>
  The waste summary has every combination of type and status at most once, with the number of
  pickups of that combination, and its total is the number of pickups.
\<close>

theorem WasteSummary_counts:
  assumes "world_ok w" and "report_WasteSummary reportService None w = (r, w')"
  shows "wd_db w' = wd_db w \<and>
    (case r of
       Inr s \<Rightarrow> ws_Total s = length (tb_pickups (wd_db w)) \<and>
         distinct (map (\<lambda>c. (wc_Type c, wc_Status c)) (ws_Counts s)) \<and>
         (\<forall>t st. (\<Sum>c\<leftarrow>filter (\<lambda>c. wc_Type c = t \<and> wc_Status c = st) (ws_Counts s). wc_Count c) =
            length (filter (\<lambda>p. pw_type p = t \<and> pw_status p = st) (tb_pickups (wd_db w))))
     | Inl e \<Rightarrow> infra e \<and> \<not> online w)"
proof -
  have "refines (online w) (Inr (\<lparr>ws_Counts = waste_counts (wd_db w), ws_Total = length (tb_pickups (wd_db w))\<rparr>,
      (wd_now w, wd_db w))) (wd_now w, wd_db w) r (wd_now w', wd_db w')"
    using WasteReport.whole.pool_call [of w r w'] assms
    by (simp add: report_WasteSummary_flow spec_flow reading_def sql_waste_summary_def comp_def
        waste_counts_total flip: waste_counts_def)
  then show ?thesis
    by (auto dest!: read_result simp: waste_counts_keys group_keys_props waste_counts_of
        failed_def split: sum.splits)
qed

theorem WasteSummary_counts_witness:
  "ws_Total (projr (fst (report_WasteSummary reportService None (demo [])))) = 5"
proof -
  have "isl (fst (report_WasteSummary reportService None (demo []))) \<longrightarrow> \<not> online (demo [])"
    using WasteSummary_counts [OF _ prod.collapse [symmetric], of "demo []"]
    by (auto simp: world_ok_demo split: sum.splits)
  then show ?thesis
    using WasteSummary_counts [OF _ prod.collapse [symmetric], of "demo []"]
    by (auto simp: world_ok_demo demo_db_def split: sum.splits)
qed

text \<open>
  Claim C36. The payment summary has for every status the number of payments and the sum of their
  amounts, and the revenue is exactly the sum of the amounts of the paid payments: there is no
  rounding between the column and the sum.
\<close>

theorem PaymentSummary_revenue:
  assumes "world_ok w" and "report_PaymentSummary reportService None w = (r, w')"
  shows "wd_db w' = wd_db w \<and>
    (case r of
       Inr s \<Rightarrow>
         py_TotalRevenue s = (\<Sum>y\<leftarrow>filter (\<lambda>y. yw_status y = PaymentPaid) (tb_payments (wd_db w)).
           pm_Amount (paymentRow_toDomain y)) \<and>
         (\<forall>st. (\<Sum>c\<leftarrow>filter (\<lambda>c. pt_Status c = st) (py_Totals s). pt_Count c) =
             length (filter (\<lambda>y. yw_status y = st) (tb_payments (wd_db w))) \<and>
           (\<Sum>c\<leftarrow>filter (\<lambda>c. pt_Status c = st) (py_Totals s). pt_Amount c) =
             (\<Sum>y\<leftarrow>filter (\<lambda>y. yw_status y = st) (tb_payments (wd_db w)). pm_Amount (paymentRow_toDomain y)))
     | Inl e \<Rightarrow> infra e \<and> \<not> online w)"
proof -
  have "refines (online w) (Inr (\<lparr>py_Totals = payment_totals (wd_db w),
      py_TotalRevenue = (\<Sum>c\<leftarrow>filter (\<lambda>c. pt_Status c = PaymentPaid) (payment_totals (wd_db w)). pt_Amount c)\<rparr>,
      (wd_now w, wd_db w))) (wd_now w, wd_db w) r (wd_now w', wd_db w')"
    using PaymentReport.whole.pool_call [of w r w'] assms
    by (simp add: report_PaymentSummary_flow spec_flow reading_def sql_payment_summary_def comp_def
        foldl_if_sum flip: payment_totals_def)
  then show ?thesis
    by (auto dest!: read_result simp: payment_totals_of failed_def split: sum.splits)
qed

theorem PaymentSummary_revenue_witness:
  "py_TotalRevenue (projr (fst (report_PaymentSummary reportService None (demo [])))) = 50000"
  using PaymentSummary_revenue [OF _ prod.collapse [symmetric], of "demo []"]
  by (auto simp: world_ok_demo demo_db_def paymentRow_toDomain_def split: sum.splits)

text \<open>
  Claim C37. The history of a household has exactly the pickups and the payments of that household, each
  newest first, and no other household's; an unknown household is an error.
\<close>

theorem HouseholdHistory_complete:
  assumes "world_ok w" and "report_HouseholdHistory reportService None i w = (r, w')"
  shows "wd_db w' = wd_db w \<and>
    (case r of
       Inr h \<Rightarrow> household_map (wd_db w) i = Some (hy_Household h) \<and>
         set (hy_Pickups h) = {p \<in> ran (pickup_map (wd_db w)). pk_HouseholdID p = i} \<and>
         set (hy_Payments h) = {y \<in> ran (payment_map (wd_db w)). pm_HouseholdID y = i} \<and>
         sorted (rev (map pk_CreatedAt (hy_Pickups h))) \<and> sorted (rev (map pm_CreatedAt (hy_Payments h)))
     | Inl e \<Rightarrow> e = App ErrHouseholdNotFound \<and> household_map (wd_db w) i = None \<or>
         infra e \<and> \<not> online w)"
proof -
  let ?d = "wd_db w"
  let ?ps = "order_desc pw_created_at (tb_ties ?d \<circ> pw_id) (filter (\<lambda>r. pw_household_id r = i) (tb_pickups ?d))"
  let ?ys = "order_desc yw_created_at (tb_ties ?d \<circ> yw_id) (filter (\<lambda>r. yw_household_id r = i) (tb_payments ?d))"
  let ?spec = "case lookup_by hw_id (tb_households ?d) i of None \<Rightarrow> Inl (App ErrHouseholdNotFound)
    | Some h \<Rightarrow> Inr (\<lparr>hy_Household = householdRow_toDomain h, hy_Pickups = map pickupRow_toDomain ?ps,
                  hy_Payments = map paymentRow_toDomain ?ys\<rparr>, (wd_now w, ?d))"
  have "refines (online w) ?spec (wd_now w, ?d) r (wd_now w', wd_db w')"
    using History.whole.pool_call [of w i r w'] assms
    by (simp add: report_HouseholdHistory_flow spec_flow reading_def sql_household_pickups_def
        sql_household_payments_def household_in_def cong: option.case_cong split: option.splits)
  moreover have "set (map pickupRow_toDomain ?ps) = {p \<in> ran (pickup_map ?d). pk_HouseholdID p = i}"
    "set (map paymentRow_toDomain ?ys) = {y \<in> ran (payment_map ?d). pm_HouseholdID y = i}"
    using assms(1) by (auto simp: world_ok_def ran_pickup_map ran_payment_map)
  moreover have "sorted (rev (map pk_CreatedAt (map pickupRow_toDomain ?ps)))"
    "sorted (rev (map pm_CreatedAt (map paymentRow_toDomain ?ys)))"
    by (simp_all add: comp_def sorted_order_desc)
  ultimately show ?thesis
    by (auto simp: household_map_def refines_def failed_def split: option.splits sum.splits)
qed

theorem HouseholdHistory_complete_witness:
  "pk_ID ` set (hy_Pickups (projr (fst (report_HouseholdHistory reportService None 1 (demo []))))) = {10, 11} \<and>
   fst (report_HouseholdHistory reportService None 3 (demo [])) = Inl (App ErrHouseholdNotFound)"
proof -
  note h = HouseholdHistory_complete [OF _ prod.collapse [symmetric], of "demo []"]
  have "household_map demo_db 3 = None" "household_map demo_db 1 \<noteq> None"
    by (simp_all add: household_map_def demo_db_def)
  moreover have "{p \<in> ran (pickup_map demo_db). pk_HouseholdID p = 1} =
      pickupRow_toDomain ` {r \<in> set (tb_pickups demo_db). pw_household_id r = 1}"
    by (auto simp: ran_pickup_map)
  moreover have "{r \<in> set (tb_pickups demo_db). pw_household_id r = 1} =
      {demo_pickup_row 10 1 PickupOrganic PickupPending None False 100,
       demo_pickup_row 11 1 PickupElectronic PickupScheduled (Some 500) True 200}"
    by (auto simp: demo_db_def demo_pickup_row_def)
  ultimately show ?thesis
    using h [of 1] h [of 3] by (auto simp: world_ok_demo demo_pickup_row_def split: sum.splits)
qed

end
