(* ===== verification/Machine.thy ===== *)
theory Machine
  imports Store
begin

text \<open>
  The specification as a state machine: the states of the store, the successful use cases as its
  steps, and what holds in every state that is reachable from the empty store.
\<close>

section \<open>Successful use cases\<close>

lemma spec_CreateHousehold_Inr:
  "spec_CreateHousehold cmd newID s = Inr (h, t) \<longleftrightarrow>
     pg_text (ch_OwnerName cmd) \<and> pg_text (ch_Address cmd) \<and> newID \<notin> dom (st_households s) \<and>
     h = \<lparr>hh_ID = newID, hh_OwnerName = ch_OwnerName cmd, hh_Address = ch_Address cmd,
          hh_CreatedAt = st_now s, hh_UpdatedAt = st_now s\<rparr> \<and>
     t = s\<lparr>st_households := (st_households s)(newID \<mapsto> h)\<rparr>"
  by (auto simp: spec_CreateHousehold_def Let_def)

lemma remove_household_Inr:
  "remove_household i s = Inr (u, t) \<longleftrightarrow>
     i \<in> dom (st_households s) \<and> (\<forall>p \<in> ran (st_pickups s). pk_HouseholdID p \<noteq> i) \<and>
     (\<forall>y \<in> ran (st_payments s). pm_HouseholdID y \<noteq> i) \<and>
     t = s\<lparr>st_households := (st_households s)(i := None)\<rparr>"
  by (auto simp: remove_household_def)

lemma spec_CreatePickup_Inr:
  "spec_CreatePickup cmd newID s = Inr (p, t) \<longleftrightarrow>
     (\<forall>y \<in> ran (st_payments s). pm_HouseholdID y = cp_HouseholdID cmd \<longrightarrow> pm_Status y \<noteq> PaymentPending) \<and>
     pg_text (cp_Type cmd) \<and> PickupType_Valid (cp_Type cmd) \<and> newID \<notin> dom (st_pickups s) \<and>
     cp_HouseholdID cmd \<in> dom (st_households s) \<and>
     p = \<lparr>pk_ID = newID, pk_HouseholdID = cp_HouseholdID cmd, pk_Type = cp_Type cmd,
          pk_Status = PickupPending, pk_PickupDate = None, pk_SafetyCheck = cp_SafetyCheck cmd,
          pk_CreatedAt = st_now s, pk_UpdatedAt = st_now s\<rparr> \<and>
     t = s\<lparr>st_pickups := (st_pickups s)(newID \<mapsto> p)\<rparr>"
  by (auto simp: spec_CreatePickup_def Let_def)

lemma spec_SchedulePickup_Inr:
  "spec_SchedulePickup i date s = Inr (q, t) \<longleftrightarrow>
     (\<exists>p. st_pickups s i = Some p \<and> CanSchedule p = None \<and>
        q = p\<lparr>pk_Status := PickupScheduled, pk_PickupDate := Some date, pk_UpdatedAt := st_now s\<rparr> \<and>
        t = s\<lparr>st_pickups := (st_pickups s)(i \<mapsto> q)\<rparr>)"
  by (auto simp: spec_SchedulePickup_def Let_def split: option.splits)

lemma spec_CancelPickup_Inr:
  "spec_CancelPickup i s = Inr (q, t) \<longleftrightarrow>
     (\<exists>p. st_pickups s i = Some p \<and> pk_Status p \<in> {PickupPending, PickupScheduled} \<and>
        q = canceled (st_now s) p \<and> t = s\<lparr>st_pickups := (st_pickups s)(i \<mapsto> q)\<rparr>)"
  by (auto simp: spec_CancelPickup_def split: option.splits)

lemma charge_Inr:
  "charge pricing newID p s = Inr (y, t) \<longleftrightarrow>
     fits_numeric_14_2 (pm_Amount y) \<and> newID \<notin> dom (st_payments s) \<and>
     (\<forall>z \<in> ran (st_payments s). pm_WasteID z \<noteq> pk_ID p) \<and> y = due pricing newID (st_now s) p \<and>
     t = s\<lparr>st_payments := (st_payments s)(newID \<mapsto> y\<lparr>pm_Amount := cents (pm_Amount y)\<rparr>)\<rparr>"
  by (auto simp: charge_def Let_def)

lemma spec_CompletePickup_Inr:
  "spec_CompletePickup pricing i newID s = Inr (q, t) \<longleftrightarrow>
     (\<exists>p y t'. st_pickups s i = Some p \<and> pk_Status p = PickupScheduled \<and>
        q = p\<lparr>pk_Status := PickupCompleted, pk_UpdatedAt := st_now s\<rparr> \<and>
        charge pricing newID q s = Inr (y, t') \<and>
        t = t'\<lparr>st_pickups := (st_pickups s)(i \<mapsto> q)\<rparr>)"
proof -
  have "charge pricing newID q s = Inr (y, t') \<Longrightarrow> st_pickups t' = st_pickups s" for q y t'
    by (auto simp: charge_Inr)
  then show ?thesis
    by (auto simp: spec_CompletePickup_def Let_def split: option.splits sum.splits prod.splits)
qed

lemma spec_CreatePayment_Inr:
  "spec_CreatePayment pricing cmd newID s = Inr (y, t) \<longleftrightarrow>
     (\<exists>p. st_pickups s (cy_WasteID cmd) = Some p \<and> pk_HouseholdID p = cy_HouseholdID cmd \<and>
        charge pricing newID p s = Inr (y, t))"
  by (auto simp: spec_CreatePayment_def split: option.splits)

lemma spec_ConfirmPayment_Inr:
  "spec_ConfirmPayment i url s = Inr (z, t) \<longleftrightarrow>
     (\<exists>y. st_payments s i = Some y \<and> pm_Status y = PaymentPending \<and> pg_text url \<and>
        z = y\<lparr>pm_Status := PaymentPaid, pm_ProofFileURL := Some url,
              pm_PaymentDate := Some (st_now s), pm_UpdatedAt := st_now s\<rparr> \<and>
        t = s\<lparr>st_payments := (st_payments s)(i \<mapsto> z)\<rparr>)"
  by (auto simp: spec_ConfirmPayment_def Let_def split: option.splits)

lemmas success_simps =
  spec_CreateHousehold_Inr remove_household_Inr spec_CreatePickup_Inr spec_SchedulePickup_Inr
  spec_CancelPickup_Inr charge_Inr spec_CompletePickup_Inr spec_CreatePayment_Inr
  spec_ConfirmPayment_Inr

section \<open>Steps\<close>

inductive store_step :: "Pricing \<Rightarrow> duration \<Rightarrow> store \<Rightarrow> store \<Rightarrow> bool" for pricing ttl where
  clock: "st_now s \<le> n \<Longrightarrow> store_step pricing ttl s (s\<lparr>st_now := n\<rparr>)"
| household_created: "spec_CreateHousehold cmd i s = Inr (h, t) \<Longrightarrow> store_step pricing ttl s t"
| household_deleted: "remove_household i s = Inr (u, t) \<Longrightarrow> store_step pricing ttl s t"
| pickup_created: "spec_CreatePickup cp i s = Inr (p, t) \<Longrightarrow> store_step pricing ttl s t"
| pickup_scheduled: "spec_SchedulePickup i date s = Inr (p, t) \<Longrightarrow> store_step pricing ttl s t"
| pickup_canceled: "spec_CancelPickup i s = Inr (p, t) \<Longrightarrow> store_step pricing ttl s t"
| pickup_completed: "spec_CompletePickup pricing i j s = Inr (p, t) \<Longrightarrow> store_step pricing ttl s t"
| stale_swept: "spec_CancelStaleOrganic ttl s = Inr (n, t) \<Longrightarrow> store_step pricing ttl s t"
| payment_created: "spec_CreatePayment pricing cy i s = Inr (y, t) \<Longrightarrow> store_step pricing ttl s t"
| payment_confirmed: "spec_ConfirmPayment i url s = Inr (y, t) \<Longrightarrow> store_step pricing ttl s t"

section \<open>The invariant\<close>

definition good_pickup :: "store \<Rightarrow> Pickup \<Rightarrow> bool" where
  "good_pickup s p \<longleftrightarrow>
     pk_HouseholdID p \<in> dom (st_households s) \<and> PickupType_Valid (pk_Type p) \<and>
     pk_Status p \<in> {PickupPending, PickupScheduled, PickupCompleted, PickupCanceled} \<and>
     (pk_Status p = PickupPending \<longrightarrow> pk_PickupDate p = None) \<and>
     (pk_Status p \<in> {PickupScheduled, PickupCompleted} \<longrightarrow>
        pk_PickupDate p \<noteq> None \<and> (pk_Type p = PickupElectronic \<longrightarrow> pk_SafetyCheck p)) \<and>
     (pk_Status p = PickupCompleted \<longrightarrow> (\<exists>y \<in> ran (st_payments s). pm_WasteID y = pk_ID p)) \<and>
     pk_CreatedAt p \<le> pk_UpdatedAt p \<and> pk_UpdatedAt p \<le> st_now s"

definition good_payment :: "Pricing \<Rightarrow> store \<Rightarrow> Payment \<Rightarrow> bool" where
  "good_payment pricing s y \<longleftrightarrow>
     (\<exists>p. st_pickups s (pm_WasteID y) = Some p \<and> pk_HouseholdID p = pm_HouseholdID y \<and>
        pm_Amount y = cents (AmountFor pricing (pk_Type p))) \<and>
     (pm_Status y = PaymentPending \<and> pm_ProofFileURL y = None \<and> pm_PaymentDate y = None \<or>
      pm_Status y = PaymentPaid \<and> pm_ProofFileURL y \<noteq> None \<and> pm_PaymentDate y \<noteq> None) \<and>
     pm_CreatedAt y \<le> pm_UpdatedAt y \<and> pm_UpdatedAt y \<le> st_now s"

definition good_store :: "Pricing \<Rightarrow> store \<Rightarrow> bool" where
  "good_store pricing s \<longleftrightarrow>
     (\<forall>i p. st_pickups s i = Some p \<longrightarrow> pk_ID p = i \<and> good_pickup s p) \<and>
     (\<forall>i y. st_payments s i = Some y \<longrightarrow> pm_ID y = i \<and> good_payment pricing s y) \<and>
     (\<forall>i j y z. st_payments s i = Some y \<longrightarrow> st_payments s j = Some z \<longrightarrow>
        pm_WasteID y = pm_WasteID z \<longrightarrow> i = j)"

definition empty_store :: "instant \<Rightarrow> store" where
  "empty_store now =
    \<lparr>st_now = now, st_households = Map.empty, st_pickups = Map.empty, st_payments = Map.empty\<rparr>"

lemma good_empty: "good_store pricing (empty_store n)"
  by (simp add: good_store_def empty_store_def)

lemmas good_defs = good_store_def good_pickup_def good_payment_def


lemma good_storeI:
  assumes "\<And>i p. st_pickups s i = Some p \<Longrightarrow> pk_ID p = i \<and> good_pickup s p"
    and "\<And>i y. st_payments s i = Some y \<Longrightarrow> pm_ID y = i \<and> good_payment pricing s y"
    and "\<And>i j y z. st_payments s i = Some y \<Longrightarrow> st_payments s j = Some z \<Longrightarrow>
        pm_WasteID y = pm_WasteID z \<Longrightarrow> i = j"
  shows "good_store pricing s"
  using assms by (simp add: good_store_def)

lemma good_storeD:
  assumes "good_store pricing s"
  shows "st_pickups s i = Some p \<Longrightarrow> pk_ID p = i \<and> good_pickup s p"
    "st_payments s i = Some y \<Longrightarrow> pm_ID y = i \<and> good_payment pricing s y"
    "st_payments s i = Some y \<Longrightarrow> st_payments s j = Some z \<Longrightarrow> pm_WasteID y = pm_WasteID z \<Longrightarrow> i = j"
  using assms by (auto simp: good_store_def)

lemma good_pickup_frame [simp]: "good_pickup (s\<lparr>st_pickups := m\<rparr>) p = good_pickup s p"
  by (simp add: good_pickup_def)

text \<open>A pickup that changes keeps its identity, its household and its type.\<close>

lemma good_change_pickup:
  assumes g: "good_store pricing s" and i: "st_pickups s i = Some p"
    and q: "pk_ID q = pk_ID p" "pk_HouseholdID q = pk_HouseholdID p" "pk_Type q = pk_Type p"
    and "good_pickup s q"
  shows "good_store pricing (s\<lparr>st_pickups := (st_pickups s)(i \<mapsto> q)\<rparr>)"
proof (rule good_storeI)
  fix j r assume "st_pickups (s\<lparr>st_pickups := (st_pickups s)(i \<mapsto> q)\<rparr>) j = Some r"
  then show "pk_ID r = j \<and> good_pickup (s\<lparr>st_pickups := (st_pickups s)(i \<mapsto> q)\<rparr>) r"
    using good_storeD(1) [OF g] i q assms(6) by (auto simp: good_pickup_def split: if_splits)
next
  fix j y assume "st_payments (s\<lparr>st_pickups := (st_pickups s)(i \<mapsto> q)\<rparr>) j = Some y"
  then have "pm_ID y = j \<and> good_payment pricing s y" using good_storeD(2) [OF g] by simp
  then show "pm_ID y = j \<and> good_payment pricing (s\<lparr>st_pickups := (st_pickups s)(i \<mapsto> q)\<rparr>) y"
    using i q by (auto simp: good_payment_def)
qed (use good_storeD(3) [OF g] in auto)

lemma good_add_pickup:
  assumes g: "good_store pricing s" and "i \<notin> dom (st_pickups s)" and "pk_ID q = i" and "good_pickup s q"
  shows "good_store pricing (s\<lparr>st_pickups := (st_pickups s)(i \<mapsto> q)\<rparr>)"
proof (rule good_storeI)
  fix j r assume "st_pickups (s\<lparr>st_pickups := (st_pickups s)(i \<mapsto> q)\<rparr>) j = Some r"
  then show "pk_ID r = j \<and> good_pickup (s\<lparr>st_pickups := (st_pickups s)(i \<mapsto> q)\<rparr>) r"
    using good_storeD(1) [OF g] assms by (auto simp: good_pickup_def split: if_splits)
next
  fix j y assume "st_payments (s\<lparr>st_pickups := (st_pickups s)(i \<mapsto> q)\<rparr>) j = Some y"
  then have "pm_ID y = j \<and> good_payment pricing s y" using good_storeD(2) [OF g] by simp
  then show "pm_ID y = j \<and> good_payment pricing (s\<lparr>st_pickups := (st_pickups s)(i \<mapsto> q)\<rparr>) y"
    using assms(2) by (auto simp: good_payment_def)
qed (use good_storeD(3) [OF g] in auto)

lemma ran_upd_new: "i \<notin> dom m \<Longrightarrow> ran (m(i \<mapsto> y)) = insert y (ran m)"
  by (rule ran_map_upd) (simp add: domIff)

lemma good_charge:
  assumes g: "good_store pricing s" and "charge pricing newID p s = Inr (y, t)"
    and p: "st_pickups s (pk_ID p) = Some p0" "pk_HouseholdID p0 = pk_HouseholdID p" "pk_Type p0 = pk_Type p"
  shows "good_store pricing t"
proof -
  let ?y = "(due pricing newID (st_now s) p)\<lparr>pm_Amount := cents (AmountFor pricing (pk_Type p))\<rparr>"
  have new: "newID \<notin> dom (st_payments s)" "\<forall>z \<in> ran (st_payments s). pm_WasteID z \<noteq> pk_ID p"
    and t: "t = s\<lparr>st_payments := (st_payments s)(newID \<mapsto> ?y)\<rparr>"
    using assms(2) by (auto simp: charge_Inr due_def)
  show ?thesis
  proof (rule good_storeI)
    fix j r assume "st_pickups t j = Some r"
    then have "pk_ID r = j \<and> good_pickup s r" using good_storeD(1) [OF g] by (simp add: t)
    then show "pk_ID r = j \<and> good_pickup t r"
      using new by (auto simp: good_pickup_def t ran_upd_new)
  next
    fix j z assume "st_payments t j = Some z"
    then show "pm_ID z = j \<and> good_payment pricing t z"
      using good_storeD(2) [OF g] p by (auto simp: t good_payment_def due_def split: if_splits)
  next
    fix j k u v
    assume "st_payments t j = Some u" "st_payments t k = Some v" "pm_WasteID u = pm_WasteID v"
    then show "j = k"
      using good_storeD(3) [OF g] new by (auto simp: t due_def ranI split: if_splits)
  qed
qed


lemma good_complete:
  assumes g: "good_store pricing s" and step: "spec_CompletePickup pricing i j s = Inr (q, t)"
  shows "good_store pricing t"
proof -
  from step obtain p y t' where p: "st_pickups s i = Some p" "pk_Status p = PickupScheduled"
    and q: "q = p\<lparr>pk_Status := PickupCompleted, pk_UpdatedAt := st_now s\<rparr>"
    and c: "charge pricing j q s = Inr (y, t')" and t: "t = t'\<lparr>st_pickups := (st_pickups s)(i \<mapsto> q)\<rparr>"
    by (auto simp: spec_CompletePickup_Inr)
  note gp = good_storeD(1) [OF g p(1)]
  have "good_store pricing t'"
    by (rule good_charge [OF g c]) (use gp p in \<open>simp_all add: q\<close>)
  moreover have t': "t' = s\<lparr>st_payments := (st_payments s)(j \<mapsto> y\<lparr>pm_Amount := cents (pm_Amount y)\<rparr>)\<rparr>"
    and "pm_WasteID y = pk_ID q" and "j \<notin> dom (st_payments s)"
    using c by (auto simp: charge_Inr due_def)
  then have "\<exists>z \<in> ran (st_payments t'). pm_WasteID z = pk_ID q"
    by (auto simp: ran_upd_new)
  then have "good_pickup t' q"
    using gp p by (auto simp: good_pickup_def q t')
  ultimately show ?thesis
    unfolding t using good_change_pickup [of pricing t' i p q] p by (simp add: q t')
qed

lemma good_map_pickups:
  assumes g: "good_store pricing s"
    and f: "\<And>p. pk_ID (f p) = pk_ID p \<and> pk_HouseholdID (f p) = pk_HouseholdID p \<and> pk_Type (f p) = pk_Type p"
    and "\<And>p. good_pickup s p \<Longrightarrow> good_pickup s (f p)"
  shows "good_store pricing (s\<lparr>st_pickups := (\<lambda>i. map_option f (st_pickups s i))\<rparr>)"
proof (rule good_storeI)
  fix j r assume "st_pickups (s\<lparr>st_pickups := (\<lambda>i. map_option f (st_pickups s i))\<rparr>) j = Some r"
  then show "pk_ID r = j \<and> good_pickup (s\<lparr>st_pickups := (\<lambda>i. map_option f (st_pickups s i))\<rparr>) r"
    using good_storeD(1) [OF g] assms(3) f by auto
next
  fix j y assume "st_payments (s\<lparr>st_pickups := (\<lambda>i. map_option f (st_pickups s i))\<rparr>) j = Some y"
  then have "pm_ID y = j \<and> good_payment pricing s y" using good_storeD(2) [OF g] by simp
  then show "pm_ID y = j \<and> good_payment pricing (s\<lparr>st_pickups := (\<lambda>i. map_option f (st_pickups s i))\<rparr>) y"
    using f by (auto simp: good_payment_def)
qed (use good_storeD(3) [OF g] in auto)

lemma canceled_sel [simp]:
  "pk_ID (canceled n p) = pk_ID p" "pk_HouseholdID (canceled n p) = pk_HouseholdID p"
  "pk_Type (canceled n p) = pk_Type p" "pk_Status (canceled n p) = PickupCanceled"
  "pk_PickupDate (canceled n p) = pk_PickupDate p" "pk_SafetyCheck (canceled n p) = pk_SafetyCheck p"
  "pk_CreatedAt (canceled n p) = pk_CreatedAt p" "pk_UpdatedAt (canceled n p) = n"
  by (simp_all add: canceled_def)

lemma good_canceled: "good_pickup s p \<Longrightarrow> good_pickup s (canceled (st_now s) p)"
  by (auto simp: good_pickup_def)

lemma good_confirm:
  assumes g: "good_store pricing s" and y: "st_payments s i = Some y"
    and z: "z = y\<lparr>pm_Status := PaymentPaid, pm_ProofFileURL := Some url,
              pm_PaymentDate := Some (st_now s), pm_UpdatedAt := st_now s\<rparr>"
  shows "good_store pricing (s\<lparr>st_payments := (st_payments s)(i \<mapsto> z)\<rparr>)"
proof (rule good_storeI)
  fix j r assume "st_pickups (s\<lparr>st_payments := (st_payments s)(i \<mapsto> z)\<rparr>) j = Some r"
  then have r: "pk_ID r = j" "good_pickup s r" using good_storeD(1) [OF g] by auto
  have "\<exists>u \<in> ran ((st_payments s)(i \<mapsto> z)). pm_WasteID u = k"
    if "\<exists>u \<in> ran (st_payments s). pm_WasteID u = k" for k
  proof -
    from that obtain l u where u: "st_payments s l = Some u" "pm_WasteID u = k"
      by (auto simp: ran_def)
    show ?thesis
    proof (cases "l = i")
      case True
      with u y have "pm_WasteID z = k" by (simp add: z)
      then show ?thesis by (auto simp: ran_def)
    next
      case False
      with u show ?thesis by (auto simp: ran_def intro!: exI [of _ u] exI [of _ l])
    qed
  qed
  with r show "pk_ID r = j \<and> good_pickup (s\<lparr>st_payments := (st_payments s)(i \<mapsto> z)\<rparr>) r"
    by (auto simp: good_pickup_def)
next
  fix j u assume "st_payments (s\<lparr>st_payments := (st_payments s)(i \<mapsto> z)\<rparr>) j = Some u"
  then show "pm_ID u = j \<and> good_payment pricing (s\<lparr>st_payments := (st_payments s)(i \<mapsto> z)\<rparr>) u"
    using good_storeD(2) [OF g] y by (fastforce simp: good_payment_def z split: if_splits)
next
  fix j k u v
  assume "st_payments (s\<lparr>st_payments := (st_payments s)(i \<mapsto> z)\<rparr>) j = Some u"
    "st_payments (s\<lparr>st_payments := (st_payments s)(i \<mapsto> z)\<rparr>) k = Some v" "pm_WasteID u = pm_WasteID v"
  then show "j = k"
    using good_storeD(3) [OF g] y by (auto simp: z split: if_splits)
qed

lemma good_context:
  assumes "good_store pricing s" and "st_pickups t = st_pickups s" and "st_payments t = st_payments s"
    and "st_now s \<le> st_now t"
    and "\<And>i p. st_pickups s i = Some p \<Longrightarrow> pk_HouseholdID p \<in> dom (st_households s) \<Longrightarrow>
      pk_HouseholdID p \<in> dom (st_households t)"
  shows "good_store pricing t"
proof (rule good_storeI)
  fix i p assume "st_pickups t i = Some p"
  then have i: "st_pickups s i = Some p" and g: "pk_ID p = i \<and> good_pickup s p"
    using assms(2) good_storeD(1) [OF assms(1)] by auto
  then have "pk_HouseholdID p \<in> dom (st_households t)"
    using assms(5) by (simp add: good_pickup_def)
  with g assms(3,4) show "pk_ID p = i \<and> good_pickup t p"
    by (auto simp: good_pickup_def)
next
  fix i y assume "st_payments t i = Some y"
  then show "pm_ID y = i \<and> good_payment pricing t y"
    using assms(2,3,4) good_storeD(2) [OF assms(1), of i y] by (simp add: good_payment_def)
qed (use assms(3) good_storeD(3) [OF assms(1)] in auto)

lemma good_step: "store_step pricing ttl s t \<Longrightarrow> good_store pricing s \<Longrightarrow> good_store pricing t"
proof (induction rule: store_step.induct)
  case (pickup_scheduled i date s p t)
  then show ?case
    by (auto simp: spec_SchedulePickup_Inr CanSchedule_None_iff dest: good_storeD(1)
        intro!: good_change_pickup) (auto simp: good_pickup_def dest!: good_storeD(1))
next
  case (pickup_canceled i s p t)
  then show ?case
    by (auto simp: spec_CancelPickup_Inr intro!: good_change_pickup good_canceled dest: good_storeD(1))
next
  case (pickup_completed i j s p t)
  then show ?case using good_complete by blast
next
  case (stale_swept s n t)
  then show ?case
    by (auto simp: spec_CancelStaleOrganic_def cancel_stale_def intro!: good_map_pickups good_canceled)
next
  case (payment_confirmed i url s y t)
  then show ?case by (auto simp: spec_ConfirmPayment_Inr intro: good_confirm)
next
  case (payment_created cy i s y t)
  then obtain p where p: "st_pickups s (cy_WasteID cy) = Some p" "charge pricing i p s = Inr (y, t)"
    by (auto simp: spec_CreatePayment_Inr)
  moreover have "pk_ID p = cy_WasteID cy"
    using good_storeD(1) [OF payment_created(2) p(1)] by simp
  ultimately show ?case
    using good_charge [OF payment_created(2) p(2)] by simp
next
  case (pickup_created cp i s p t)
  then show ?case
    by (auto simp: spec_CreatePickup_Inr intro!: good_add_pickup simp: good_pickup_def)
next
  case (clock s n)
  show ?case by (rule good_context [OF clock(2)]) (simp_all add: clock(1))
next
  case (household_created cmd i s h t)
  then have t: "t = s\<lparr>st_households := (st_households s)(i \<mapsto> h)\<rparr>"
    by (metis spec_CreateHousehold_Inr)
  show ?case by (rule good_context [OF household_created(2)]) (simp_all add: t)
next
  case (household_deleted i s u t)
  then have t: "t = s\<lparr>st_households := (st_households s)(i := None)\<rparr>"
    and free: "\<forall>p \<in> ran (st_pickups s). pk_HouseholdID p \<noteq> i"
    by (auto simp only: remove_household_Inr)
  show ?case
    by (rule good_context [OF household_deleted(2)]) (use free in \<open>auto simp: t ran_def\<close>)
qed


section \<open>What a step keeps\<close>

definition same_pickup :: "Pickup \<Rightarrow> Pickup \<Rightarrow> bool" where
  "same_pickup p q \<longleftrightarrow> pk_ID q = pk_ID p \<and> pk_HouseholdID q = pk_HouseholdID p \<and>
     pk_Type q = pk_Type p \<and> pk_SafetyCheck q = pk_SafetyCheck p \<and> pk_CreatedAt q = pk_CreatedAt p"

definition same_payment :: "Payment \<Rightarrow> Payment \<Rightarrow> bool" where
  "same_payment y z \<longleftrightarrow> pm_ID z = pm_ID y \<and> pm_HouseholdID z = pm_HouseholdID y \<and>
     pm_WasteID z = pm_WasteID y \<and> pm_Amount z = pm_Amount y \<and> pm_CreatedAt z = pm_CreatedAt y"

definition status_moves :: "(PickupStatus \<times> PickupStatus) set" where
  "status_moves = {(PickupPending, PickupScheduled), (PickupPending, PickupCanceled),
     (PickupScheduled, PickupCompleted), (PickupScheduled, PickupCanceled)}"

definition pickup_move :: "Pickup \<Rightarrow> Pickup \<Rightarrow> bool" where
  "pickup_move p q \<longleftrightarrow> q = p \<or> same_pickup p q \<and> (pk_Status p, pk_Status q) \<in> status_moves"

definition payment_move :: "Payment \<Rightarrow> Payment \<Rightarrow> bool" where
  "payment_move y z \<longleftrightarrow>
     z = y \<or> same_payment y z \<and> pm_Status y = PaymentPending \<and> pm_Status z = PaymentPaid"

lemma pickup_move_refl [simp]: "pickup_move p p"
  by (simp add: pickup_move_def)

lemma payment_move_refl [simp]: "payment_move y y"
  by (simp add: payment_move_def)

lemma step_pickup:
  "store_step pricing ttl s t \<Longrightarrow> st_pickups s i = Some p \<Longrightarrow>
   \<exists>q. st_pickups t i = Some q \<and> pickup_move p q"
proof (induction rule: store_step.induct)
  case (stale_swept s n t)
  then show ?case
    by (auto simp: spec_CancelStaleOrganic_def cancel_stale_def pickup_move_def same_pickup_def
        stale_def status_moves_def)
qed (auto simp: success_simps pickup_move_def same_pickup_def status_moves_def CanSchedule_None_iff
    split: if_splits)

lemma step_payment:
  "store_step pricing ttl s t \<Longrightarrow> st_payments s i = Some y \<Longrightarrow>
   \<exists>z. st_payments t i = Some z \<and> payment_move y z"
  by (induction rule: store_step.induct)
    (auto simp: success_simps spec_CancelStaleOrganic_def cancel_stale_def payment_move_def
      same_payment_def split: if_splits)

text \<open>A pickup that already has a payment is not completed by a step.\<close>

definition charged :: "store \<Rightarrow> uuid \<Rightarrow> bool" where
  "charged s i \<longleftrightarrow> (\<exists>y \<in> ran (st_payments s). pm_WasteID y = i)"

lemma step_charged: "store_step pricing ttl s t \<Longrightarrow> charged s i \<Longrightarrow> charged t i"
proof -
  assume step: "store_step pricing ttl s t" and "charged s i"
  then obtain j y where "st_payments s j = Some y" "pm_WasteID y = i"
    by (auto simp: charged_def ran_def)
  with step_payment [OF step this(1)] show "charged t i"
    by (auto simp: charged_def ran_def payment_move_def same_payment_def)
qed

lemma step_stuck:
  assumes "store_step pricing ttl s t" and g: "good_store pricing s" and "charged s i"
    and "st_pickups s i = Some p" and "pk_Status p \<noteq> PickupCompleted"
  shows "\<exists>q. st_pickups t i = Some q \<and> pk_Status q \<noteq> PickupCompleted"
  using assms
proof (induction rule: store_step.induct)
  case (pickup_completed k j s q t)
  moreover have "pk_ID p = i" using pickup_completed good_storeD(1) by blast
  ultimately show ?case
    by (cases "k = i") (auto simp: spec_CompletePickup_Inr charge_Inr charged_def)
next
  case (stale_swept s n t)
  then show ?case by (auto simp: spec_CancelStaleOrganic_def cancel_stale_def)
qed (auto simp: success_simps split: if_splits)

end
