(* ===== verification/System.thy ===== *)
theory System
  imports Queries Machine
begin

text \<open>
  The running system: requests served one after the other, with the clock and the network moving
  in between. Every step of it is a step of the machine of the specification or leaves the store
  alone, so what \<open>Machine\<close> proves of reachable stores holds of the tables.
\<close>

section \<open>Requests\<close>

datatype request =
    ReqCreateHousehold CreateHouseholdCommand uuid
  | ReqGetHousehold uuid
  | ReqListHouseholds Params
  | ReqDeleteHousehold uuid
  | ReqCreatePickup CreatePickupCommand uuid
  | ReqListPickups PickupFilter Params
  | ReqSchedulePickup uuid SchedulePickupCommand
  | ReqCompletePickup uuid uuid
  | ReqCancelPickup uuid
  | ReqSweep
  | ReqCreatePayment CreatePaymentCommand uuid
  | ReqListPayments PaymentFilter Params
  | ReqConfirmPayment uuid ConfirmPaymentInput uuid
  | ReqWasteSummary
  | ReqPaymentSummary
  | ReqHistory uuid

text \<open>Of the result of a use case, whether it is an error, and which.\<close>

definition verdict :: "(go_error + 'a) \<times> world \<Rightarrow> (go_error + unit) \<times> world" where
  "verdict x = (map_sum id (\<lambda>_. ()) (fst x), snd x)"

fun answer :: "(uuid \<Rightarrow> string) \<Rightarrow> Config \<Rightarrow> request \<Rightarrow> world \<Rightarrow> (go_error + unit) \<times> world" where
  "answer fmt cfg (ReqCreateHousehold cmd i) w = verdict (household_Create householdService None cmd i w)"
| "answer fmt cfg (ReqGetHousehold i) w = verdict (household_Get householdService None i w)"
| "answer fmt cfg (ReqListHouseholds p) w = verdict (household_List householdService None p w)"
| "answer fmt cfg (ReqDeleteHousehold i) w = verdict (household_Delete householdService None i w)"
| "answer fmt cfg (ReqCreatePickup cp i) w = verdict (pickup_Create (pickupService cfg) None cp i w)"
| "answer fmt cfg (ReqListPickups pf p) w = verdict (pickup_List (pickupService cfg) None pf p w)"
| "answer fmt cfg (ReqSchedulePickup i sp) w = verdict (pickup_Schedule (pickupService cfg) None i sp w)"
| "answer fmt cfg (ReqCompletePickup i j) w = verdict (pickup_Complete (pickupService cfg) None i j w)"
| "answer fmt cfg (ReqCancelPickup i) w = verdict (pickup_Cancel (pickupService cfg) None i w)"
| "answer fmt cfg ReqSweep w = verdict (pickup_CancelStaleOrganic (pickupService cfg) None w)"
| "answer fmt cfg (ReqCreatePayment cy i) w = verdict (payment_Create (paymentService cfg) None cy i w)"
| "answer fmt cfg (ReqListPayments yf p) w = verdict (payment_List (paymentService cfg) None yf p w)"
| "answer fmt cfg (ReqConfirmPayment i ci j) w =
     verdict (payment_Confirm fmt (paymentService cfg) None i ci j w)"
| "answer fmt cfg ReqWasteSummary w = verdict (report_WasteSummary reportService None w)"
| "answer fmt cfg ReqPaymentSummary w = verdict (report_PaymentSummary reportService None w)"
| "answer fmt cfg (ReqHistory i) w = verdict (report_HouseholdHistory reportService None i w)"

definition serve :: "(uuid \<Rightarrow> string) \<Rightarrow> Config \<Rightarrow> request \<Rightarrow> world \<Rightarrow> world" where
  "serve fmt cfg rq w = snd (answer fmt cfg rq w)"

lemma verdict_sel [simp]:
  "snd (verdict x) = snd x" "fst (verdict x) = Inl e \<longleftrightarrow> fst x = Inl e"
  by (cases "fst x"; simp add: verdict_def)+

lemma serve_simps [simp]:
  "serve fmt cfg (ReqCreateHousehold cmd i) w = snd (household_Create householdService None cmd i w)"
  "serve fmt cfg (ReqGetHousehold i) w = snd (household_Get householdService None i w)"
  "serve fmt cfg (ReqListHouseholds p) w = snd (household_List householdService None p w)"
  "serve fmt cfg (ReqDeleteHousehold i) w = snd (household_Delete householdService None i w)"
  "serve fmt cfg (ReqCreatePickup cp i) w = snd (pickup_Create (pickupService cfg) None cp i w)"
  "serve fmt cfg (ReqListPickups pf p) w = snd (pickup_List (pickupService cfg) None pf p w)"
  "serve fmt cfg (ReqSchedulePickup i sp) w = snd (pickup_Schedule (pickupService cfg) None i sp w)"
  "serve fmt cfg (ReqCompletePickup i j) w = snd (pickup_Complete (pickupService cfg) None i j w)"
  "serve fmt cfg (ReqCancelPickup i) w = snd (pickup_Cancel (pickupService cfg) None i w)"
  "serve fmt cfg ReqSweep w = snd (pickup_CancelStaleOrganic (pickupService cfg) None w)"
  "serve fmt cfg (ReqCreatePayment cy i) w = snd (payment_Create (paymentService cfg) None cy i w)"
  "serve fmt cfg (ReqListPayments yf p) w = snd (payment_List (paymentService cfg) None yf p w)"
  "serve fmt cfg (ReqConfirmPayment i ci j) w =
     snd (payment_Confirm fmt (paymentService cfg) None i ci j w)"
  "serve fmt cfg ReqWasteSummary w = snd (report_WasteSummary reportService None w)"
  "serve fmt cfg ReqPaymentSummary w = snd (report_PaymentSummary reportService None w)"
  "serve fmt cfg (ReqHistory i) w = snd (report_HouseholdHistory reportService None i w)"
  by (simp_all add: serve_def)

inductive step :: "(uuid \<Rightarrow> string) \<Rightarrow> Config \<Rightarrow> world \<Rightarrow> world \<Rightarrow> bool" for fmt cfg where
  request: "step fmt cfg w (serve fmt cfg rq w)"
| network: "\<forall>x \<in> set xs. outcome_ok x \<Longrightarrow> step fmt cfg w (w\<lparr>wd_net := xs\<rparr>)"
| time: "wd_now w \<le> n \<Longrightarrow> step fmt cfg w (w\<lparr>wd_now := n\<rparr>)"
| ties: "step fmt cfg w (w\<lparr>wd_db := (wd_db w)\<lparr>tb_ties := f\<rparr>\<rparr>)"

inductive reachable :: "(uuid \<Rightarrow> string) \<Rightarrow> Config \<Rightarrow> world \<Rightarrow> bool" for fmt cfg where
  start: "wd_db w = empty_db \<Longrightarrow> wd_tx w = None \<Longrightarrow> net_ok w \<Longrightarrow> reachable fmt cfg w"
| further: "reachable fmt cfg w \<Longrightarrow> step fmt cfg w w' \<Longrightarrow> reachable fmt cfg w'"

inductive later :: "(uuid \<Rightarrow> string) \<Rightarrow> Config \<Rightarrow> world \<Rightarrow> world \<Rightarrow> bool" for fmt cfg where
  now: "later fmt cfg w w"
| after: "later fmt cfg w w1 \<Longrightarrow> step fmt cfg w1 w2 \<Longrightarrow> later fmt cfg w w2"

inductive_cases stepE [elim]: "step fmt cfg w w'"

section \<open>Steps of the system are steps of the machine\<close>

abbreviation machine_step :: "Config \<Rightarrow> store \<Rightarrow> store \<Rightarrow> bool" where
  "machine_step cfg \<equiv> store_step (app_pricing cfg) (kc_OrganicTTL (cf_Worker cfg))"

definition simulated :: "Config \<Rightarrow> world \<Rightarrow> world \<Rightarrow> bool" where
  "simulated cfg w w' \<longleftrightarrow> world_ok w' \<and>
     (committed w' = committed w \<or> machine_step cfg (committed w) (committed w'))"

lemma write_simulated:
  assumes pm: "port_method (pg_view store_of) pg_ok online C op spec" and "None \<in> C" and "world_ok w"
    and "\<And>a t. spec (committed w) = Inr (a, t) \<Longrightarrow> machine_step cfg (committed w) t"
  shows "simulated cfg w (snd (op None w))"
proof -
  obtain r w' where run: "op None w = (r, w')" by fastforce
  with port_method.pool_call [OF pm assms(2) _ run] assms(3)
  have "world_ok w'" "refines (online w) (spec (committed w)) (committed w) r (committed w')" by auto
  with refines_state [OF this(2)] assms(4) run show ?thesis by (auto simp: simulated_def)
qed

text \<open>Operations that only read, and sequences of them.\<close>

definition keeps :: "('s \<Rightarrow> go_error + 'a \<times> 's) \<Rightarrow> bool" where
  "keeps spec \<longleftrightarrow> (\<forall>s a t. spec s = Inr (a, t) \<longrightarrow> t = s)"

lemma keepsD: "keeps spec \<Longrightarrow> spec s = Inr (a, t) \<Longrightarrow> t = s"
  by (simp add: keeps_def)

lemma keeps_sbind: "keeps m \<Longrightarrow> (\<And>a. keeps (k a)) \<Longrightarrow> keeps (sbind m k)"
  by (fastforce simp: keeps_def sbind_def split: sum.splits prod.splits)

lemma keeps_sreturn: "keeps (sreturn a)"
  by (simp add: keeps_def sreturn_def)

lemma keeps_reading: "keeps (reading st f)"
  by (auto simp: keeps_def reading_def split: sum.splits)

lemma keeps_household_in: "keeps (household_in i)"
  by (auto simp: keeps_def household_in_def split: option.splits)

lemmas keeps_intros = keeps_sbind keeps_sreturn keeps_reading keeps_household_in

lemma read_simulated:
  assumes pm: "port_method (pg_view tables) pg_ok online C op spec" and "None \<in> C" and "world_ok w"
    and k: "keeps spec"
  shows "simulated cfg w (snd (op None w))"
proof -
  obtain r w' where run: "op None w = (r, w')" by fastforce
  with port_method.pool_call [OF pm assms(2) _ run] assms(3)
  have "world_ok w'" and
    "refines (online w) (spec (wd_now w, wd_db w)) (wd_now w, wd_db w) r (wd_now w', wd_db w')" by auto
  moreover from refines_state [OF this(2)] k have "(wd_now w', wd_db w') = (wd_now w, wd_db w)"
    by (auto dest: keepsD)
  ultimately show ?thesis using run by (simp add: simulated_def committed_def)
qed

lemma serve_simulated:
  assumes ok: "world_ok w"
  shows "simulated cfg w (serve fmt cfg rq w)"
proof (cases rq)
  case (ReqCreateHousehold cmd i)
  then show ?thesis
    using write_simulated [OF CreateHousehold.port_method_axioms _ ok household_created] by simp
next
  case (ReqGetHousehold i)
  then show ?thesis
    unfolding ReqGetHousehold serve_simps household_Get_flow household_calls
    by (intro read_simulated [OF household_of.port.port_method_axioms _ ok]) (simp, intro keeps_intros)
next
  case (ReqListHouseholds p)
  show ?thesis
    unfolding ReqListHouseholds serve_simps household_List_flow
    by (rule read_simulated [OF ListHouseholds.whole_method _ ok]) (simp, intro keeps_intros)
next
  case (ReqDeleteHousehold i)
  then show ?thesis
    using write_simulated [OF DeleteHousehold.port_method_axioms _ ok household_deleted] by simp
next
  case (ReqCreatePickup cp i)
  then show ?thesis
    using write_simulated [OF CreatePickup.port_method_axioms _ ok pickup_created] by simp
next
  case (ReqListPickups pf p)
  show ?thesis
    unfolding ReqListPickups serve_simps pickup_List_flow
    by (rule read_simulated [OF ListPickups.whole_method _ ok]) (simp, intro keeps_intros)
next
  case (ReqSchedulePickup i sp)
  then show ?thesis
    using write_simulated [OF SchedulePickup.port_method_axioms _ ok pickup_scheduled] by simp
next
  case (ReqCompletePickup i j)
  then show ?thesis
    using write_simulated [OF CompletePickup.port_method_axioms _ ok pickup_completed] by simp
next
  case (ReqCancelPickup i)
  then show ?thesis
    using write_simulated [OF CancelPickup.port_method_axioms _ ok pickup_canceled] by simp
next
  case ReqSweep
  then show ?thesis
    using write_simulated [OF SweepStale.port_method_axioms _ ok stale_swept] by simp
next
  case (ReqCreatePayment cy i)
  then show ?thesis
    using write_simulated [OF CreatePayment.port_method_axioms _ ok payment_created] by simp
next
  case (ReqListPayments yf p)
  show ?thesis
    unfolding ReqListPayments serve_simps payment_List_flow
    by (rule read_simulated [OF ListPayments.whole_method _ ok]) (simp, intro keeps_intros)
next
  case (ReqConfirmPayment i ci j)
  then show ?thesis
    using write_simulated [OF ConfirmPayment.port_method_axioms _ ok payment_confirmed] by simp
next
  case ReqWasteSummary
  show ?thesis
    unfolding ReqWasteSummary serve_simps report_WasteSummary_flow
    by (rule read_simulated [OF WasteReport.whole_method _ ok]) (simp, intro keeps_intros)
next
  case ReqPaymentSummary
  show ?thesis
    unfolding ReqPaymentSummary serve_simps report_PaymentSummary_flow
    by (rule read_simulated [OF PaymentReport.whole_method _ ok]) (simp, intro keeps_intros)
next
  case (ReqHistory i)
  show ?thesis
    unfolding ReqHistory serve_simps report_HouseholdHistory_flow
    by (rule read_simulated [OF History.whole_method _ ok]) (simp, intro keeps_intros)
qed

lemma step_simulated: "step fmt cfg w w' \<Longrightarrow> world_ok w \<Longrightarrow> simulated cfg w w'"
proof (induction rule: step.induct)
  case (request w rq)
  then show ?case by (rule serve_simulated)
next
  case (network xs w)
  then show ?case by (simp add: simulated_def world_ok_def net_ok_def committed_def)
next
  case (time w n)
  then show ?case
    using clock [of "committed w" n] by (simp add: simulated_def world_ok_def net_ok_def committed_def store_of_def)
next
  case (ties w f)
  then show ?case by (simp add: simulated_def world_ok_def net_ok_def committed_def store_of_def)
qed


section \<open>Reachable states\<close>

lemma committed_start:
  "wd_db w = empty_db \<Longrightarrow> committed w = empty_store (wd_now w)"
  by (simp add: committed_def store_of_def empty_store_def empty_db_def household_map_def pickup_map_def
      payment_map_def fun_eq_iff)

lemma reachable_good:
  "reachable fmt cfg w \<Longrightarrow> world_ok w \<and> good_store (app_pricing cfg) (committed w)"
proof (induction rule: reachable.induct)
  case (start w)
  then show ?case by (simp add: world_ok_def committed_start good_empty)
next
  case (further w w')
  then show ?case
    using step_simulated [of fmt cfg w w'] good_step by (auto simp: simulated_def)
qed

lemma reachable_pickup:
  "reachable fmt cfg w \<Longrightarrow> st_pickups (committed w) i = Some p \<Longrightarrow>
   pk_ID p = i \<and> good_pickup (committed w) p"
  using reachable_good good_storeD(1) by blast

lemma reachable_payment:
  "reachable fmt cfg w \<Longrightarrow> st_payments (committed w) i = Some y \<Longrightarrow>
   pm_ID y = i \<and> good_payment (app_pricing cfg) (committed w) y"
  using reachable_good good_storeD(2) by blast

lemma reachable_later: "later fmt cfg w w' \<Longrightarrow> reachable fmt cfg w \<Longrightarrow> reachable fmt cfg w'"
  by (induction rule: later.induct) (auto intro: reachable.further)

text \<open>What single steps keep, along whole runs.\<close>

lemma later_keeps:
  assumes "later fmt cfg w w'" and "reachable fmt cfg w"
    and "\<And>s t. machine_step cfg s t \<Longrightarrow> good_store (app_pricing cfg) s \<Longrightarrow> P s \<Longrightarrow> P t"
    and "P (committed w)"
  shows "P (committed w')"
  using assms(1,2,4)
proof (induction rule: later.induct)
  case (after w w1 w2)
  then have "reachable fmt cfg w1" using reachable_later by blast
  with reachable_good step_simulated [OF after(2)] after assms(3) show ?case
    by (auto simp: simulated_def)
qed

section \<open>An example run\<close>

text \<open>
  One pickup goes all the way to a paid payment; another one is scheduled and gets a payment by
  hand.
\<close>

definition fresh :: "outcome list \<Rightarrow> world" where
  "fresh xs = \<lparr>wd_db = empty_db, wd_tx = None, wd_net = xs, wd_now = 0, wd_blobs = []\<rparr>"

lemma reachable_fresh: "\<forall>x \<in> set xs. outcome_ok x \<Longrightarrow> reachable fmt cfg (fresh xs)"
  by (rule reachable.start) (simp_all add: fresh_def net_ok_def)

definition demo_requests :: "request list" where
  "demo_requests =
    [ReqCreateHousehold \<lparr>ch_OwnerName = ''Ana'', ch_Address = ''Street 1''\<rparr> 1,
     ReqCreatePickup \<lparr>cp_HouseholdID = 1, cp_Type = PickupElectronic, cp_SafetyCheck = True\<rparr> 10,
     ReqCreatePickup \<lparr>cp_HouseholdID = 1, cp_Type = PickupPaper, cp_SafetyCheck = False\<rparr> 11,
     ReqSchedulePickup 10 \<lparr>sp_PickupDate = 500\<rparr>,
     ReqSchedulePickup 11 \<lparr>sp_PickupDate = 600\<rparr>,
     ReqCompletePickup 10 20,
     ReqConfirmPayment 20 \<lparr>ci_Reader = ''PDF'', ci_Size = 3, ci_ContentType = ''application/pdf''\<rparr> 30,
     ReqCreatePayment \<lparr>cy_HouseholdID = 1, cy_WasteID = 11\<rparr> 21]"

definition demo_final :: db where
  "demo_final =
    \<lparr>tb_households = [\<lparr>hw_id = 1, hw_owner_name = ''Ana'', hw_address = ''Street 1'', hw_created_at = 0, hw_updated_at = 0\<rparr>],
     tb_pickups = [demo_pickup_row 10 1 PickupElectronic PickupCompleted (Some 500) True 0,
       demo_pickup_row 11 1 PickupPaper PickupScheduled (Some 600) False 0],
     tb_payments =
       [\<lparr>yw_id = 20, yw_household_id = 1, yw_waste_id = 10, yw_amount = 10000000,
         yw_payment_date = Some 0, yw_status = PaymentPaid,
         yw_proof_file_url = Some ''http://localhost:9000/proofs/payments/id/id.pdf'',
         yw_created_at = 0, yw_updated_at = 0\<rparr>,
        \<lparr>yw_id = 21, yw_household_id = 1, yw_waste_id = 11, yw_amount = 5000000,
         yw_payment_date = None, yw_status = PaymentPending, yw_proof_file_url = None,
         yw_created_at = 0, yw_updated_at = 0\<rparr>],
     tb_ties = (\<lambda>_. 0)\<rparr>"

lemmas run_defs = household_Create_def pickup_Create_def pickup_Schedule_def pickup_Complete_def
  payment_Confirm_def payment_Create_def service_defs household_calls pickup_calls payment_calls call_defs
  PickupRepository_Schedule_def PickupRepository_Complete_def
  Executor_def on_pool_def on_tx_def next_outcome_def txFromContext_def withTx_def
  NewTxManager_def TxManager_Do_def pool_Begin_def tx_Commit_def mapError_def
  sql_insert_household_def sql_insert_pickup_def sql_insert_payment_def sql_find_pickup_def sql_find_payment_def
  sql_update_pickup_def sql_has_pending_def sql_confirm_payment_def
  household_row_def pickup_row_def payment_row_def
  pickupRow_toDomain_def paymentRow_toDomain_def
  schedule_guard_def complete_guard_def schedule_set_def complete_set_def confirm_guard_def confirm_set_def
  check_pickup_type_Valid PickupType_Valid_def text_arg_ok_def pg_text_ascii
  MinIO_Put_def PutObject_def store_blob_def NewMinIO_def extensionFor_def
  app_pricing_def AmountFor_def fits_numeric_14_2_def
  demo_config_def demo_pickup_row_def

definition ran_world :: world where
  "ran_world = fold (serve (\<lambda>_. ''id'') demo_config) demo_requests (fresh [])"

lemma ran_db: "wd_db ran_world = demo_final \<and> wd_now ran_world = 0 \<and> wd_net ran_world = []"
  unfolding ran_world_def demo_requests_def demo_final_def
  by (simp add: run_defs fresh_def empty_db_def Let_def)

lemma reachable_fold: "reachable fmt cfg w \<Longrightarrow> reachable fmt cfg (fold (serve fmt cfg) rqs w)"
  by (induction rqs arbitrary: w) (auto intro: reachable.further step.request)

lemma reachable_ran: "reachable (\<lambda>_. ''id'') demo_config ran_world"
  unfolding ran_world_def by (intro reachable_fold reachable_fresh) simp

lemma committed_ran: "committed ran_world = store_of 0 demo_final"
  using ran_db by (simp add: committed_def)

lemma final_maps [simp]:
  "pickup_map demo_final 10 = Some \<lparr>pk_ID = 10, pk_HouseholdID = 1, pk_Type = PickupElectronic,
     pk_Status = PickupCompleted, pk_PickupDate = Some 500, pk_SafetyCheck = True, pk_CreatedAt = 0,
     pk_UpdatedAt = 0\<rparr>"
  "pickup_map demo_final 11 = Some \<lparr>pk_ID = 11, pk_HouseholdID = 1, pk_Type = PickupPaper,
     pk_Status = PickupScheduled, pk_PickupDate = Some 600, pk_SafetyCheck = False, pk_CreatedAt = 0,
     pk_UpdatedAt = 0\<rparr>"
  "payment_map demo_final 20 = Some \<lparr>pm_ID = 20, pm_HouseholdID = 1, pm_WasteID = 10, pm_Amount = 100000,
     pm_PaymentDate = Some 0, pm_Status = PaymentPaid,
     pm_ProofFileURL = Some ''http://localhost:9000/proofs/payments/id/id.pdf'', pm_CreatedAt = 0,
     pm_UpdatedAt = 0\<rparr>"
  "payment_map demo_final 21 = Some \<lparr>pm_ID = 21, pm_HouseholdID = 1, pm_WasteID = 11, pm_Amount = 50000,
     pm_PaymentDate = None, pm_Status = PaymentPending, pm_ProofFileURL = None, pm_CreatedAt = 0,
     pm_UpdatedAt = 0\<rparr>"
  by (simp_all add: pickup_map_def payment_map_def demo_final_def demo_pickup_row_def pickupRow_toDomain_def
      paymentRow_toDomain_def)

section \<open>Errors\<close>

text \<open>The errors of an abstract operation are application errors other than unavailability.\<close>

definition named_error :: "go_error \<Rightarrow> bool" where
  "named_error e \<longleftrightarrow> (case e of App ae \<Rightarrow> Kind ae \<noteq> KindUnavailable | _ \<Rightarrow> False)"

definition names_errors :: "('s \<Rightarrow> go_error + 'a \<times> 's) \<Rightarrow> bool" where
  "names_errors spec \<longleftrightarrow> (\<forall>s e. spec s = Inl e \<longrightarrow> named_error e)"

lemma named_error_simps [simp]:
  "named_error (App ae) \<longleftrightarrow> Kind ae \<noteq> KindUnavailable" "named_error (database_error code)"
  by (simp_all add: named_error_def database_error_def Internal_def)

lemma named_errorD: "named_error e \<Longrightarrow> \<exists>ae. e = App ae \<and> Kind ae \<noteq> KindUnavailable"
  by (cases e) (simp_all add: named_error_def)

lemma infraD: "infra e \<Longrightarrow> \<exists>ae. e = App ae"
  by (cases e) (simp_all add: infra_def)

lemma names_sbind: "names_errors m \<Longrightarrow> (\<And>a. names_errors (k a)) \<Longrightarrow> names_errors (sbind m k)"
  by (fastforce simp: names_errors_def sbind_def split: sum.splits prod.splits)

lemma names_sreturn: "names_errors (sreturn a)"
  by (simp add: names_errors_def sreturn_def)

lemma names_household_in: "names_errors (household_in i)"
  by (auto simp: names_errors_def household_in_def split: option.splits)

lemma names_reading:
  "(\<And>d code. st d = Inl code \<Longrightarrow> code \<in> {invalid_text, negative_limit, negative_offset}) \<Longrightarrow>
   names_errors (reading st f)"
  by (fastforce simp: names_errors_def reading_def map_error_PgError split: sum.splits)

lemma names_queries:
  "names_errors (reading (sql_list_households lmt off) f1)"
  "names_errors (reading (sql_list_pickups status h lmt off) f2)"
  "names_errors (reading (sql_list_payments status h from to lmt off) f3)"
  "names_errors (reading sql_count_households f4)"
  "names_errors (reading (sql_count_pickups status h) f5)"
  "names_errors (reading (sql_count_payments status h from to) f6)"
  "names_errors (reading sql_waste_summary f7)" "names_errors (reading sql_payment_summary f8)"
  "names_errors (reading (sql_household_pickups i) f9)"
  "names_errors (reading (sql_household_payments i) f10)"
  by (rule names_reading, auto simp: sql_list_households_def sql_list_pickups_def sql_list_payments_def
      sql_count_pickups_def sql_count_payments_def limit_offset_def sql_count_households_def
      sql_waste_summary_def sql_payment_summary_def sql_household_pickups_def
      sql_household_payments_def split: if_splits sum.splits)+

lemmas names_intros = names_sbind names_sreturn names_household_in names_queries

lemma CanSchedule_Kind: "CanSchedule p = Some e \<Longrightarrow> Kind e \<noteq> KindUnavailable"
  by (auto simp: CanSchedule_def split: if_splits)

lemma names_specs:
  "names_errors (spec_CreateHousehold ch i)" "names_errors (remove_household i)"
  "names_errors (spec_CreatePickup cp i)" "names_errors (spec_SchedulePickup i date)"
  "names_errors (spec_CancelPickup i)" "names_errors (spec_CompletePickup pricing i j)"
  "names_errors (spec_CancelStaleOrganic ttl)" "names_errors (spec_CreatePayment pricing cy i)"
  "names_errors (spec_ConfirmPayment i url)"
  by (auto simp: names_errors_def spec_CreateHousehold_def remove_household_def spec_CreatePickup_def
      spec_SchedulePickup_def spec_CancelPickup_def spec_CompletePickup_def spec_CancelStaleOrganic_def
      cancel_stale_def spec_CreatePayment_def spec_ConfirmPayment_def charge_def Let_def
      split: if_splits option.splits sum.splits dest: CanSchedule_Kind)

lemma method_error:
  assumes pm: "port_method view ok healthy C op spec" and "None \<in> C" and "ok None w"
    and "names_errors spec" and e: "fst (op None w) = Inl e"
  shows "\<exists>ae. e = App ae \<and> (healthy w \<longrightarrow> Kind ae \<noteq> KindUnavailable)"
proof -
  obtain w' where "op None w = (Inl e, w')" using e by (metis prod.collapse)
  with port_method.fails [OF pm assms(2,3) this] assms(4) show ?thesis
    using named_errorD [of e] infraD [of e] by (auto simp: names_errors_def)
qed

lemma answer_error:
  assumes ok: "world_ok w" and e: "fst (answer fmt cfg rq w) = Inl e"
  shows "\<exists>ae. e = App ae \<and> (online w \<longrightarrow> Kind ae \<noteq> KindUnavailable)"
proof -
  have ok': "pg_ok None w" using ok by simp
  show ?thesis
  proof (cases rq)
  case (ReqCreateHousehold cmd i)
  with e show ?thesis
    using method_error [OF CreateHousehold.port_method_axioms _ ok' names_specs(1)] by simp
next
  case (ReqDeleteHousehold i)
  with e show ?thesis
    using method_error [OF DeleteHousehold.port_method_axioms _ ok' names_specs(2)] by simp
next
  case (ReqCreatePickup cp i)
  with e show ?thesis
    using method_error [OF CreatePickup.port_method_axioms _ ok' names_specs(3)] by simp
next
  case (ReqSchedulePickup i sp)
  with e show ?thesis
    using method_error [OF SchedulePickup.port_method_axioms _ ok' names_specs(4)] by simp
next
  case (ReqCompletePickup i j)
  with e show ?thesis
    using method_error [OF CompletePickup.port_method_axioms _ ok' names_specs(6)] by simp
next
  case (ReqCancelPickup i)
  with e show ?thesis
    using method_error [OF CancelPickup.port_method_axioms _ ok' names_specs(5)] by simp
next
  case ReqSweep
  with e show ?thesis
    using method_error [OF SweepStale.port_method_axioms _ ok' names_specs(7)] by simp
next
  case (ReqCreatePayment cy i)
  with e show ?thesis
    using method_error [OF CreatePayment.port_method_axioms _ ok' names_specs(8)] by simp
next
  case (ReqConfirmPayment i ci j)
  with e show ?thesis
    using method_error [OF ConfirmPayment.port_method_axioms _ ok' names_specs(9)] by simp
next
  case (ReqGetHousehold i)
  show ?thesis
    by (rule method_error [OF household_of.port.port_method_axioms _ ok'], simp, intro names_intros, use e in \<open>simp add: ReqGetHousehold household_Get_flow household_calls\<close>)
next
  case (ReqListHouseholds p)
  show ?thesis
    by (rule method_error [OF ListHouseholds.whole_method _ ok'], simp, intro names_intros, use e in \<open>simp add: ReqListHouseholds household_List_flow\<close>)
next
  case (ReqListPickups pf p)
  show ?thesis
    by (rule method_error [OF ListPickups.whole_method _ ok'], simp, intro names_intros, use e in \<open>simp add: ReqListPickups pickup_List_flow\<close>)
next
  case (ReqListPayments yf p)
  show ?thesis
    by (rule method_error [OF ListPayments.whole_method _ ok'], simp, intro names_intros, use e in \<open>simp add: ReqListPayments payment_List_flow\<close>)
next
  case ReqWasteSummary
  show ?thesis
    by (rule method_error [OF WasteReport.whole_method _ ok'], simp, intro names_intros, use e in \<open>simp add: ReqWasteSummary report_WasteSummary_flow\<close>)
next
  case ReqPaymentSummary
  show ?thesis
    by (rule method_error [OF PaymentReport.whole_method _ ok'], simp, intro names_intros, use e in \<open>simp add: ReqPaymentSummary report_PaymentSummary_flow\<close>)
next
  case (ReqHistory i)
  show ?thesis
    by (rule method_error [OF History.whole_method _ ok'], simp, intro names_intros, use e in \<open>simp add: ReqHistory report_HouseholdHistory_flow\<close>)
  qed
qed

section \<open>Stored proofs\<close>

lemma Executor_blobs: "Executor c st w = (r, w') \<Longrightarrow> wd_blobs w' = wd_blobs w"
  by (cases w rule: next_outcome_cases)
    (auto simp: Executor_def on_pool_def on_tx_def split: if_splits sum.splits prod.splits
      option.splits tx_state.splits outcome.splits)

lemma call_blobs: "call st onerr onok c w = (r, w') \<Longrightarrow> wd_blobs w' = wd_blobs w"
  by (auto simp: call_def dest: Executor_blobs split: prod.splits sum.splits)

lemma upload_stores:
  assumes "upload m key content sz contentType c w = (Inr url, w')"
  shows "\<lparr>bl_key = key, bl_content = content, bl_type = contentType\<rparr> \<in> set (wd_blobs w')"
  using assms
  by (auto simp: upload_def MinIO_Put_def PutObject_def store_blob_def Let_def
      split: prod.splits sum.splits outcome.splits)

section \<open>Properties\<close>

text \<open>
  Claim C24. Every step of the running system, whatever request it serves and whatever becomes
  of its round trips, is a step of the specified machine or leaves the store as it is.
\<close>

theorem system_refines_machine:
  assumes "step fmt cfg w w'" and "world_ok w"
  shows "world_ok w' \<and> (committed w' = committed w \<or> machine_step cfg (committed w) (committed w'))"
  using step_simulated [OF assms] by (simp add: simulated_def)

theorem system_refines_machine_witness:
  "world_ok (serve (\<lambda>_. []) demo_config (ReqCompletePickup 11 40) (demo [Reply, Reply, Refused NetError]))"
proof -
  have "world_ok (demo [Reply, Reply, Refused NetError])"
    by (simp add: world_ok_demo)
  from system_refines_machine [OF step.request this] show ?thesis by blast
qed

text \<open>
  In every reachable state a completed pickup has exactly one payment; it belongs to
  the household of the pickup and is over the price of its type, rounded to two decimals.
\<close>

theorem completed_charged_once:
  assumes "reachable fmt cfg w" and "st_pickups (committed w) i = Some p"
    and "pk_Status p = PickupCompleted"
  shows "\<exists>j y. st_payments (committed w) j = Some y \<and> pm_WasteID y = i \<and>
      pm_HouseholdID y = pk_HouseholdID p \<and>
      pm_Amount y = cents (if pk_Type p = PickupElectronic then rc_Electronic (cf_Pricing cfg)
                           else rc_Standard (cf_Pricing cfg)) \<and>
      (\<forall>k z. st_payments (committed w) k = Some z \<and> pm_WasteID z = i \<longrightarrow> k = j)"
proof -
  have "pk_ID p = i" "\<exists>y \<in> ran (st_payments (committed w)). pm_WasteID y = i"
    using reachable_pickup [OF assms(1,2)] assms(3) by (auto simp: good_pickup_def)
  then obtain j y where y: "st_payments (committed w) j = Some y" "pm_WasteID y = i"
    by (auto simp: ran_def)
  with reachable_payment [OF assms(1) y(1)] assms(2)
  have "pm_HouseholdID y = pk_HouseholdID p \<and>
      pm_Amount y = cents (if pk_Type p = PickupElectronic then rc_Electronic (cf_Pricing cfg)
                           else rc_Standard (cf_Pricing cfg))"
    by (auto simp: good_payment_def AmountFor_def app_pricing_def)
  with y show ?thesis
    using good_storeD(3) reachable_good [OF assms(1)] by metis
qed

theorem completed_charged_once_witness:
  "\<exists>j y. st_payments (committed ran_world) j = Some y \<and> pm_WasteID y = 10"
proof -
  let ?p = "the (pickup_map demo_final 10)"
  have "st_pickups (committed ran_world) 10 = Some ?p" "pk_Status ?p = PickupCompleted"
    by (simp_all add: committed_ran)
  from completed_charged_once [OF reachable_ran this] show ?thesis by blast
qed

text \<open>
  In every reachable state a scheduled or completed pickup has a date, and it has
  passed the safety check if it is electronic.
\<close>

theorem scheduled_is_safe:
  assumes "reachable fmt cfg w" and "st_pickups (committed w) i = Some p"
    and "pk_Status p \<in> {PickupScheduled, PickupCompleted}"
  shows "pk_PickupDate p \<noteq> None \<and> (pk_Type p \<noteq> PickupElectronic \<or> pk_SafetyCheck p)"
  using reachable_pickup [OF assms(1,2)] assms(3) unfolding good_pickup_def by blast

theorem scheduled_is_safe_witness:
  "pk_SafetyCheck (the (st_pickups (committed ran_world) 10))"
  using scheduled_is_safe [OF reachable_ran, of 10] by (simp add: committed_ran)

text \<open>
  In every reachable state a payment is pending, without proof and payment date, or
  paid, with both; the status \<open>failed\<close> is never used.
\<close>

theorem paid_iff_proof:
  assumes "reachable fmt cfg w" and "st_payments (committed w) i = Some y"
  shows "pm_Status y \<in> {PaymentPending, PaymentPaid} \<and>
    (pm_Status y = PaymentPaid \<longleftrightarrow> pm_ProofFileURL y \<noteq> None) \<and>
    (pm_Status y = PaymentPaid \<longleftrightarrow> pm_PaymentDate y \<noteq> None)"
  using reachable_payment [OF assms] by (auto simp: good_payment_def)

theorem paid_iff_proof_witness:
  "pm_ProofFileURL (the (st_payments (committed ran_world) 20)) \<noteq> None \<and>
   pm_ProofFileURL (the (st_payments (committed ran_world) 21)) = None"
  using paid_iff_proof [OF reachable_ran, of 20] paid_iff_proof [OF reachable_ran, of 21]
  by (simp add: committed_ran)

text \<open>
  No request deletes a pickup or changes its household, type, safety check or
  creation time; its status moves along pending to scheduled to completed, and from pending or
  scheduled to canceled, and no other way.
\<close>

theorem pickup_lifecycle:
  assumes "step fmt cfg w w'" and "world_ok w" and "st_pickups (committed w) i = Some p"
  shows "\<exists>q. st_pickups (committed w') i = Some q \<and>
    (q = p \<or>
     (pk_ID q = pk_ID p \<and> pk_HouseholdID q = pk_HouseholdID p \<and> pk_Type q = pk_Type p \<and>
      pk_SafetyCheck q = pk_SafetyCheck p \<and> pk_CreatedAt q = pk_CreatedAt p \<and>
      (pk_Status p, pk_Status q) \<in>
        {(PickupPending, PickupScheduled), (PickupPending, PickupCanceled),
         (PickupScheduled, PickupCompleted), (PickupScheduled, PickupCanceled)}))"
  using step_simulated [OF assms(1,2)] step_pickup [OF _ assms(3)] assms(3)
  by (fastforce simp: simulated_def pickup_move_def same_pickup_def status_moves_def)

theorem pickup_lifecycle_witness:
  "\<exists>q. st_pickups (committed (serve (\<lambda>_. []) demo_config (ReqCancelPickup 12) (demo []))) 12 = Some q"
proof -
  have "world_ok (demo [])" "st_pickups (committed (demo [])) 12 =
      Some (pickupRow_toDomain (demo_pickup_row 12 2 PickupPlastic PickupCompleted (Some 500) False 300))"
    by (simp_all add: world_ok_demo committed_def pickup_map_def demo_db_def demo_pickup_row_def)
  from pickup_lifecycle [OF step.request this] show ?thesis by blast
qed

text \<open>
  Completed and canceled are final: from then on the pickup is the same in every
  later state.
\<close>

theorem final_status_final:
  assumes "later fmt cfg w w'" and "reachable fmt cfg w" and "st_pickups (committed w) i = Some p"
    and "pk_Status p \<in> {PickupCompleted, PickupCanceled}"
  shows "st_pickups (committed w') i = Some p"
proof (rule later_keeps [OF assms(1,2), where P = "\<lambda>s. st_pickups s i = Some p"])
  fix s t assume "machine_step cfg s t" "st_pickups s i = Some p"
  with step_pickup [OF this] assms(4) show "st_pickups t i = Some p"
    by (auto simp: pickup_move_def status_moves_def)
qed (rule assms(3))

theorem final_status_final_witness:
  "st_pickups (committed (serve (\<lambda>_. ''id'') demo_config (ReqCancelPickup 10) ran_world)) 10 =
   pickup_map demo_final 10"
proof -
  have "later (\<lambda>_. ''id'') demo_config ran_world
      (serve (\<lambda>_. ''id'') demo_config (ReqCancelPickup 10) ran_world)"
    by (rule later.after [OF later.now step.request])
  moreover have "st_pickups (committed ran_world) 10 = pickup_map demo_final 10"
    by (simp only: committed_ran store_of_sel)
  ultimately show ?thesis
    unfolding final_maps using final_status_final [OF _ reachable_ran, of _ 10]
    by (metis Pickup.select_convs(4) insertI1)
qed

text \<open>
  A payment is never deleted and never changes its household, its pickup or its
  amount; once paid it is the same in every later state.
\<close>

theorem payment_lifecycle:
  assumes "later fmt cfg w w'" and "reachable fmt cfg w" and "st_payments (committed w) i = Some y"
  shows "\<exists>z. st_payments (committed w') i = Some z \<and> pm_HouseholdID z = pm_HouseholdID y \<and>
    pm_WasteID z = pm_WasteID y \<and> pm_Amount z = pm_Amount y \<and> (pm_Status y = PaymentPaid \<longrightarrow> z = y)"
proof (rule later_keeps [OF assms(1,2), where P = "\<lambda>s. \<exists>z. st_payments s i = Some z \<and>
    pm_HouseholdID z = pm_HouseholdID y \<and> pm_WasteID z = pm_WasteID y \<and> pm_Amount z = pm_Amount y \<and>
    (pm_Status y = PaymentPaid \<longrightarrow> z = y)"])
  fix s t
  assume "machine_step cfg s t" and "\<exists>z. st_payments s i = Some z \<and> pm_HouseholdID z = pm_HouseholdID y \<and>
    pm_WasteID z = pm_WasteID y \<and> pm_Amount z = pm_Amount y \<and> (pm_Status y = PaymentPaid \<longrightarrow> z = y)"
  then show "\<exists>z. st_payments t i = Some z \<and> pm_HouseholdID z = pm_HouseholdID y \<and>
    pm_WasteID z = pm_WasteID y \<and> pm_Amount z = pm_Amount y \<and> (pm_Status y = PaymentPaid \<longrightarrow> z = y)"
    using step_payment by (fastforce simp: payment_move_def same_payment_def)
qed (use assms(3) in simp)

theorem payment_lifecycle_witness:
  "\<exists>z. st_payments (committed (serve (\<lambda>_. ''id'') demo_config (ReqCancelPickup 11) ran_world)) 20 = Some z \<and>
     pm_Status z = PaymentPaid"
proof -
  have l: "later (\<lambda>_. ''id'') demo_config ran_world
      (serve (\<lambda>_. ''id'') demo_config (ReqCancelPickup 11) ran_world)"
    by (rule later.after [OF later.now step.request])
  obtain y where y: "payment_map demo_final 20 = Some y" and paid: "pm_Status y = PaymentPaid"
    by simp
  have "st_payments (committed ran_world) 20 = Some y"
    by (simp only: committed_ran store_of_sel y)
  from payment_lifecycle [OF l reachable_ran this] paid show ?thesis by blast
qed

text \<open>
  Claim C33. A pickup that has a payment before it is completed can never be completed: in every
  later state it is still not completed, although it may be scheduled. Such a state is reached
  by creating the payment of a scheduled pickup by hand, which the service allows.
\<close>

theorem charged_early_never_completed:
  assumes "later fmt cfg w w'" and "reachable fmt cfg w" and "st_pickups (committed w) i = Some p"
    and "pk_Status p \<noteq> PickupCompleted"
    and "st_payments (committed w) j = Some y" and "pm_WasteID y = i"
  shows "\<exists>q. st_pickups (committed w') i = Some q \<and> pk_Status q \<noteq> PickupCompleted"
proof -
  let ?P = "\<lambda>s. charged s i \<and> (\<exists>q. st_pickups s i = Some q \<and> pk_Status q \<noteq> PickupCompleted)"
  have "?P (committed w')"
    by (rule later_keeps [OF assms(1,2), where P = ?P])
      (use step_charged step_stuck assms in \<open>auto simp: charged_def ran_def, blast+\<close>)
  then show ?thesis by simp
qed

theorem charged_early_never_completed_witness:
  "\<exists>q. st_pickups (committed (serve (\<lambda>_. ''id'') demo_config (ReqCompletePickup 11 40) ran_world)) 11 = Some q \<and>
     pk_Status q \<noteq> PickupCompleted"
proof -
  have l: "later (\<lambda>_. ''id'') demo_config ran_world
      (serve (\<lambda>_. ''id'') demo_config (ReqCompletePickup 11 40) ran_world)"
    by (rule later.after [OF later.now step.request])
  have p: "st_pickups (committed ran_world) 11 = pickup_map demo_final 11"
    and y: "st_payments (committed ran_world) 21 = payment_map demo_final 21"
    by (simp_all only: committed_ran store_of_sel)
  show ?thesis
    by (rule charged_early_never_completed [OF l reachable_ran p [unfolded final_maps] _
          y [unfolded final_maps]]) simp_all
qed

text \<open>
  The trap of the previous property as the caller sees it: completing a scheduled pickup that
  already has a payment fails with \<open>ErrPaymentAlreadyExists\<close>, every time, and the pickup
  stays scheduled.
\<close>

theorem complete_blocked:
  assumes "world_ok w" and "online w" and "st_pickups (committed w) i = Some p"
    and "pk_Status p = PickupScheduled" and "st_payments (committed w) j = Some y" and "pm_WasteID y = i"
    and "fits_numeric_14_2 (AmountFor (app_pricing cfg) (pk_Type p))"
  shows "fst (pickup_Complete (pickupService cfg) None i newID w) = Inl (App ErrPaymentAlreadyExists) \<and>
    committed (snd (pickup_Complete (pickupService cfg) None i newID w)) = committed w"
proof -
  have "spec_CompletePickup (app_pricing cfg) i newID (committed w) = Inl (App ErrPaymentAlreadyExists)"
    using assms(3-7) committed_references [OF assms(1,3)]
    by (auto simp: spec_CompletePickup_def charge_def due_def Let_def ran_def)
  with CompletePickup.pool_call [OF _ _ prod.collapse [symmetric], of w cfg i newID] assms(1,2)
  show ?thesis by (simp add: refines_healthy)
qed

theorem complete_blocked_witness:
  "fst (pickup_Complete (pickupService demo_config) None 11 40 ran_world) = Inl (App ErrPaymentAlreadyExists)"
proof -
  have ok: "world_ok ran_world" using reachable_good [OF reachable_ran] by simp
  have on: "online ran_world" using ran_db by (simp add: online_def)
  obtain p where p: "pickup_map demo_final 11 = Some p" "pk_Status p = PickupScheduled" "pk_Type p = PickupPaper"
    by simp
  obtain y where y: "payment_map demo_final 21 = Some y" "pm_WasteID y = 11"
    by simp
  have "fits_numeric_14_2 (AmountFor (app_pricing demo_config) (pk_Type p))"
    by (simp add: p fits_numeric_14_2_def AmountFor_def app_pricing_def demo_config_def)
  with p y show ?thesis
    using complete_blocked [OF ok on, of 11 p 21 y demo_config 40] by (simp add: committed_ran)
qed

text \<open>
  Claim C34. When a confirmation succeeds, whatever happened on the way, the proof is in the object store
  with the content and type of the upload, and the URL of the payment is the URL of that
  object.
\<close>

theorem confirmed_proof_stored:
  assumes "world_ok w"
    and "payment_Confirm fmt (paymentService cfg) None i input newID w = (Inr paid, w')"
  shows "pm_Status paid = PaymentPaid \<and>
    pm_ProofFileURL paid = Some (proof_url fmt cfg i newID (ci_ContentType input)) \<and>
    \<lparr>bl_key = proof_key fmt i newID (ci_ContentType input), bl_content = ci_Reader input,
     bl_type = ci_ContentType input\<rparr> \<in> set (wd_blobs w')"
proof -
  have "spec_ConfirmPayment i (proof_url fmt cfg i newID (ci_ContentType input)) (committed w) =
      Inr (paid, committed w')"
    using ConfirmPayment.returns [OF _ _ assms(2)] assms(1) by simp
  moreover have "\<lparr>bl_key = proof_key fmt i newID (ci_ContentType input), bl_content = ci_Reader input,
     bl_type = ci_ContentType input\<rparr> \<in> set (wd_blobs w')"
    using assms(2)
    by (auto simp: payment_Confirm_flow payment_calls abind_def clocked_def athrow_def areturn_def
        split: prod.splits sum.splits option.splits if_splits dest!: upload_stores dest: call_blobs)
  ultimately show ?thesis
    by (auto simp: spec_ConfirmPayment_Inr)
qed

theorem confirmed_proof_stored_witness:
  "\<exists>paid w'. payment_Confirm (\<lambda>_. ''id'') (paymentService demo_config) None 21
     \<lparr>ci_Reader = ''JPG'', ci_Size = 3, ci_ContentType = ''image/jpeg''\<rparr> 31 ran_world = (Inr paid, w') \<and>
     pm_Status paid = PaymentPaid \<and>
     \<lparr>bl_key = ''payments/id/id.jpg'', bl_content = ''JPG'', bl_type = ''image/jpeg''\<rparr> \<in> set (wd_blobs w')"
proof -
  let ?in = "\<lparr>ci_Reader = ''JPG'', ci_Size = 3, ci_ContentType = ''image/jpeg''\<rparr>"
  have ok: "world_ok ran_world" using reachable_good [OF reachable_ran] by simp
  obtain r w' where run: "payment_Confirm (\<lambda>_. ''id'') (paymentService demo_config) None 21 ?in 31 ran_world = (r, w')"
    by fastforce
  have "pg_text (proof_url (\<lambda>_. ''id'') demo_config 21 31 ''image/jpeg'')"
    by (rule pg_text_ascii)
      (simp add: proof_url_def proof_key_def object_url_def NewMinIO_def demo_config_def extensionFor_def)
  then have "isl (spec_ConfirmPayment 21 (proof_url (\<lambda>_. ''id'') demo_config 21 31 ''image/jpeg'')
      (committed ran_world)) = False"
    by (simp add: spec_ConfirmPayment_def committed_ran Let_def)
  moreover have "online ran_world" using ran_db by (simp add: online_def)
  ultimately obtain paid where "r = Inr paid"
    using ConfirmPayment.pool_call [OF _ _ run] ok by (auto simp: refines_healthy split: sum.splits)
  with confirmed_proof_stored [OF ok run [unfolded this]] run show ?thesis
    by (auto simp: proof_key_def extensionFor_def)
qed

text \<open>
  Claim C35. Whatever request is served and whatever fails on the way, an error that leaves a use case is
  one of the application's own: never a raw error of the driver or of the object store. On a
  healthy connection it is never of kind unavailable.
\<close>

theorem errors_are_application_errors:
  assumes "world_ok w" and "fst (answer fmt cfg rq w) = Inl e"
  shows "\<exists>ae. e = App ae \<and> (online w \<longrightarrow> Kind ae \<noteq> KindUnavailable)"
  by (rule answer_error [OF assms])

theorem errors_are_application_errors_witness:
  "\<exists>ae. fst (answer (\<lambda>_. []) demo_config (ReqGetHousehold 3) (demo [])) = Inl (App ae) \<and>
     Kind ae \<noteq> KindUnavailable"
proof -
  have e: "fst (answer (\<lambda>_. []) demo_config (ReqGetHousehold 3) (demo [])) = Inl (App ErrHouseholdNotFound)"
    by (simp add: household_Get_flow household_calls call_defs Executor_def txFromContext_def on_pool_def
        next_outcome_def sql_find_household_def demo_db_def)
  from errors_are_application_errors [OF _ e] show ?thesis
    using e by (auto simp: world_ok_demo)
qed

end
