(* ===== verification/GoTime.thy ===== *)
theory GoTime
  imports Pagination
begin

text \<open>
  The part of package \<open>time\<close> through which timestamps cross the HTTP boundary: \<open>time.Parse\<close> with
  the layout \<open>time.RFC3339\<close> (date filters of payments) and \<open>Time.MarshalJSON\<close> (timestamps of
  responses). An instant counts nanoseconds from 1970-01-01T00:00:00Z; the process runs in UTC, as
  its container image has no other zone. Dates are proleptic Gregorian, with years 0 to 9999.
\<close>

section \<open>The calendar\<close>

definition leap :: "int \<Rightarrow> bool" where
  "leap y \<longleftrightarrow> 4 dvd y \<and> (\<not> 100 dvd y \<or> 400 dvd y)"

text \<open>Days from 0000-01-01 to the first of January of a year.\<close>

definition year_start :: "int \<Rightarrow> int" where
  "year_start y = 365 * y + (y + 3) div 4 - (y + 99) div 100 + (y + 399) div 400"

definition month_days :: "int \<Rightarrow> int \<Rightarrow> int" where
  "month_days y m =
    (if m = 2 then (if leap y then 29 else 28)
     else if m = 4 \<or> m = 6 \<or> m = 9 \<or> m = 11 then 30 else 31)"

definition month_start :: "int \<Rightarrow> int \<Rightarrow> int" where
  "month_start y m =
    [0, 31, 59, 90, 120, 151, 181, 212, 243, 273, 304, 334] ! nat (m - 1) +
    (if leap y \<and> 2 < m then 1 else 0)"

definition epoch_day :: int where "epoch_day = 719528"

text \<open>\<open>time.Date\<close> in a zone \<open>off\<close> seconds east of Greenwich.\<close>

definition Date :: "int \<Rightarrow> int \<Rightarrow> int \<Rightarrow> int \<Rightarrow> int \<Rightarrow> int \<Rightarrow> int \<Rightarrow> int \<Rightarrow> instant" where
  "Date y mo d h mi s ns off =
    ((year_start y + month_start y mo + (d - 1) - epoch_day) * 86400 + h * 3600 + mi * 60 + s - off)
      * 1000000000 + ns"

definition year_of_day :: "int \<Rightarrow> int" where
  "year_of_day n =
    (let y = n * 400 div 146097
     in if n < year_start y then y - 1 else if year_start (y + 1) \<le> n then y + 1 else y)"

fun month_of_day :: "int \<Rightarrow> int \<Rightarrow> nat \<Rightarrow> int" where
  "month_of_day y n 0 = 1"
| "month_of_day y n (Suc k) = (if month_start y (int k + 2) \<le> n then int k + 2 else month_of_day y n k)"

section \<open>Printing\<close>

definition digit :: "int \<Rightarrow> char" where
  "digit n = char_of (48 + nat n)"

definition pad2 :: "int \<Rightarrow> string" where
  "pad2 n = [digit (n div 10), digit (n mod 10)]"

definition pad4 :: "int \<Rightarrow> string" where
  "pad4 n = pad2 (n div 100) @ pad2 (n mod 100)"

fun pad :: "nat \<Rightarrow> int \<Rightarrow> string" where
  "pad 0 n = []"
| "pad (Suc k) n = pad k (n div 10) @ [digit (n mod 10)]"

text \<open>The fraction of \<open>RFC3339Nano\<close>: nine digits without the zeros at the end.\<close>

definition fraction :: "int \<Rightarrow> string" where
  "fraction ns = (if ns = 0 then [] else CHR ''.'' # rev (dropWhile (\<lambda>c. c = CHR ''0'') (rev (pad 9 ns))))"

definition format_RFC3339Nano :: "instant \<Rightarrow> string" where
  "format_RFC3339Nano t =
    (let secs = t div 1000000000; n = secs div 86400 + epoch_day; r = secs mod 86400;
         y = year_of_day n; m = month_of_day y (n - year_start y) 11;
         d = n - year_start y - month_start y m + 1
     in pad4 y @ ''-'' @ pad2 m @ ''-'' @ pad2 d @ ''T'' @ pad2 (r div 3600) @ '':''
        @ pad2 (r div 60 mod 60) @ '':'' @ pad2 (r mod 60) @ fraction (t mod 1000000000) @ ''Z'')"

text \<open>\<open>MarshalJSON\<close> fails outside the years 0 to 9999.\<close>

definition MarshalJSON :: "instant \<Rightarrow> string option" where
  "MarshalJSON t =
    (let y = year_of_day (t div 1000000000 div 86400 + epoch_day)
     in if 0 \<le> y \<and> y \<le> 9999 then Some (format_RFC3339Nano t) else None)"

section \<open>Parsing\<close>

text \<open>\<open>getnum\<close>: two digits, or one when \<open>fixed\<close> is false.\<close>

definition getnum :: "bool \<Rightarrow> string \<Rightarrow> (int \<times> string) option" where
  "getnum fixed s =
    (case s of
       [] \<Rightarrow> None
     | a # s' \<Rightarrow>
         (case digit_of a of
            None \<Rightarrow> None
          | Some m \<Rightarrow>
              (case s' of
                 [] \<Rightarrow> if fixed then None else Some (m, s')
               | b # s'' \<Rightarrow>
                   (case digit_of b of
                      None \<Rightarrow> if fixed then None else Some (m, s')
                    | Some n \<Rightarrow> Some (10 * m + n, s'')))))"

definition in_range :: "int \<Rightarrow> int \<Rightarrow> (int \<times> string) option \<Rightarrow> (int \<times> string) option" where
  "in_range lo hi r = (case r of Some (n, s) \<Rightarrow> if lo \<le> n \<and> n < hi then Some (n, s) else None | None \<Rightarrow> None)"

definition getyear :: "string \<Rightarrow> (int \<times> string) option" where
  "getyear s =
    (if length s < 4 then None
     else map_option (\<lambda>y. (y, drop 4 s)) (digits_value 0 (take 4 s)))"

definition skip :: "char \<Rightarrow> string \<Rightarrow> string option" where
  "skip c s = (case s of [] \<Rightarrow> None | d # s' \<Rightarrow> if d = c then Some s' else None)"

definition is_digit :: "char \<Rightarrow> bool" where
  "is_digit c \<longleftrightarrow> digit_of c \<noteq> None"

text \<open>A fraction after the seconds, of which nine digits count.\<close>

definition nanoseconds :: "string \<Rightarrow> int" where
  "nanoseconds ds =
    (let ds = take 9 ds
     in (case digits_value 0 ds of Some n \<Rightarrow> n | None \<Rightarrow> 0) * 10 ^ (9 - length ds))"

definition getfraction :: "string \<Rightarrow> int \<times> string" where
  "getfraction s =
    (case s of
       p # d # s' \<Rightarrow>
         if (p = CHR ''.'' \<or> p = CHR '','') \<and> is_digit d
         then (nanoseconds (takeWhile is_digit (d # s')), dropWhile is_digit (d # s')) else (0, s)
     | _ \<Rightarrow> (0, s))"

definition getzone :: "string \<Rightarrow> (int \<times> string) option" where
  "getzone s =
    (case s of
       [] \<Rightarrow> None
     | c # s' \<Rightarrow>
         if c = CHR ''Z'' then Some (0, s')
         else if length s < 6 \<or> s ! 3 \<noteq> CHR '':'' then None
         else
           (case getnum True (take 2 s') of
              None \<Rightarrow> None
            | Some (hr, _) \<Rightarrow>
                (case getnum True (take 2 (drop 3 s')) of
                   None \<Rightarrow> None
                 | Some (mm, _) \<Rightarrow>
                     if 24 < hr \<or> 60 < mm then None
                     else if c = CHR ''+'' then Some ((hr * 60 + mm) * 60, drop 5 s')
                     else if c = CHR ''-'' then Some (- ((hr * 60 + mm) * 60), drop 5 s')
                     else None)))"

definition obind :: "'a option \<Rightarrow> ('a \<Rightarrow> 'b option) \<Rightarrow> 'b option" where
  "obind m f = (case m of None \<Rightarrow> None | Some a \<Rightarrow> f a)"

definition Parse_RFC3339 :: "string \<Rightarrow> instant option" where
  "Parse_RFC3339 s =
    obind (getyear s) (\<lambda>(y, s).
    obind (skip CHR ''-'' s) (\<lambda>s.
    obind (in_range 1 13 (getnum True s)) (\<lambda>(mo, s).
    obind (skip CHR ''-'' s) (\<lambda>s.
    obind (getnum True s) (\<lambda>(d, s).
    obind (skip CHR ''T'' s) (\<lambda>s.
    obind (in_range 0 24 (getnum False s)) (\<lambda>(h, s).
    obind (skip CHR '':'' s) (\<lambda>s.
    obind (in_range 0 60 (getnum True s)) (\<lambda>(mi, s).
    obind (skip CHR '':'' s) (\<lambda>s.
    obind (in_range 0 60 (getnum True s)) (\<lambda>(sec, s).
    (let (ns, s) = getfraction s
     in obind (getzone s) (\<lambda>(off, s).
          if s \<noteq> [] then None
          else if d < 1 \<or> month_days y mo < d then None
          else Some (Date y mo d h mi sec ns off))))))))))))))"

section \<open>The calendar: lemmas\<close>

lemma div_bounds:
  fixes n k :: int
  assumes "0 < k"
  shows "k * (n div k) \<le> n" "n < k * (n div k) + k"
  using assms mult_div_mod_eq [of k n] pos_mod_bound [of k n] pos_mod_sign [of k n] by linarith+

lemma quotient:
  fixes n k :: int
  assumes "0 < k"
  obtains q where "n div k = q" "k * q \<le> n" "n < k * q + k"
  using div_bounds [OF assms] by blast

lemma year_start_bounds:
  "146097 * y - 396 \<le> 400 * year_start y" "400 * year_start y \<le> 146097 * y + 699"
proof -
  obtain a where a: "(y + 3) div 4 = a" "4 * a \<le> y + 3" "y + 3 < 4 * a + 4"
    by (rule quotient [of 4 "y + 3"]) simp
  obtain b where b: "(y + 99) div 100 = b" "100 * b \<le> y + 99" "y + 99 < 100 * b + 100"
    by (rule quotient [of 100 "y + 99"]) simp
  obtain c where c: "(y + 399) div 400 = c" "400 * c \<le> y + 399" "y + 399 < 400 * c + 400"
    by (rule quotient [of 400 "y + 399"]) simp
  show "146097 * y - 396 \<le> 400 * year_start y"
    unfolding year_start_def a(1) b(1) c(1) ring_distribs using a(3) b(2) c(3) by linarith
  show "400 * year_start y \<le> 146097 * y + 699"
    unfolding year_start_def a(1) b(1) c(1) ring_distribs using a(2) b(3) c(2) by linarith
qed

lemma year_of_day:
  "year_start (year_of_day n) \<le> n \<and> n < year_start (year_of_day n + 1)"
proof -
  obtain y where y: "n * 400 div 146097 = y" "146097 * y \<le> n * 400" "n * 400 < 146097 * y + 146097"
    by (rule quotient [of 146097 "n * 400"]) simp
  have "year_start (y - 1) \<le> n"
    using y(2) year_start_bounds(2) [of "y - 1"] unfolding ring_distribs by linarith
  moreover have "n < year_start (y + 2)"
    using y(3) year_start_bounds(1) [of "y + 2"] unfolding ring_distribs by linarith
  ultimately show ?thesis
    by (simp add: year_of_day_def y(1) Let_def add.commute)
qed

text \<open>A new multiple of \<open>k\<close> is passed exactly at the multiples of \<open>k\<close>.\<close>

lemma div_step:
  fixes y k :: int
  assumes "0 < k"
  shows "(y + k) div k = (y + (k - 1)) div k + (if k dvd y then 1 else 0)"
proof -
  have "y + (k - 1) = (y mod k + (k - 1)) + k * (y div k)"
    by (simp add: algebra_simps)
  then have "(y + (k - 1)) div k = (y mod k + (k - 1)) div k + y div k"
    using assms by (metis add.commute div_mult_self2 less_irrefl)
  moreover have "(y mod k + (k - 1)) div k = (if k dvd y then 0 else 1)"
  proof (cases "k dvd y")
    case False
    then have "0 < y mod k" using assms pos_mod_sign [of k y] by (simp add: dvd_eq_mod_eq_0 order_less_le)
    moreover have "y mod k < k" using assms by simp
    ultimately have "(y mod k + (k - 1)) div k = (y mod k - 1 + k * 1) div k"
      by (simp add: algebra_simps)
    also have "\<dots> = 1 + (y mod k - 1) div k"
      using assms by (metis div_mult_self2 less_irrefl)
    also have "(y mod k - 1) div k = 0"
      using \<open>0 < y mod k\<close> \<open>y mod k < k\<close> by (intro div_pos_pos_trivial) auto
    finally show ?thesis using False by simp
  qed (use assms in \<open>simp add: div_pos_pos_trivial\<close>)
  ultimately show ?thesis using assms by simp
qed

lemma year_start_Suc: "year_start (y + 1) = year_start y + (if leap y then 366 else 365)"
proof -
  have d: "400 dvd y \<Longrightarrow> 100 dvd y" "100 dvd y \<Longrightarrow> 4 dvd y"
    by (erule dvd_trans [rotated], simp)+
  have "(y + 4) div 4 = (y + 3) div 4 + (if 4 dvd y then 1 else 0)"
    "(y + 100) div 100 = (y + 99) div 100 + (if 100 dvd y then 1 else 0)"
    "(y + 400) div 400 = (y + 399) div 400 + (if 400 dvd y then 1 else 0)"
    "y + 1 + 3 = y + 4" "y + 1 + 99 = y + 100" "y + 1 + 399 = y + 400"
    using div_step [of 4 y] div_step [of 100 y] div_step [of 400 y] by simp_all
  moreover have "365 * (y + 1) + (a + p) - (b + q) + (c + r) =
      365 * y + a - b + c + 365 + p - q + r" for a b c p q r :: int
    by (simp add: algebra_simps)
  ultimately have "year_start (y + 1) = year_start y + 365 + (if 4 dvd y then 1 else 0)
      - (if 100 dvd y then 1 else 0) + (if 400 dvd y then 1 else 0)"
    unfolding year_start_def by (simp only:)
  then show ?thesis
    using d by (cases "400 dvd y"; cases "100 dvd y"; cases "4 dvd y") (simp_all only: leap_def, simp_all)
qed

lemma year_start_mono:
  assumes "y \<le> z"
  shows "year_start y \<le> year_start z"
proof -
  have "year_start y \<le> year_start (y + int k)" for k
  proof (induction k)
    case (Suc k)
    then show ?case
      using year_start_Suc [of "y + int k"] by (simp add: ac_simps split: if_splits)
  qed simp
  from this [of "nat (z - y)"] assms show ?thesis by simp
qed
  
lemma year_of_day_unique:
  assumes "year_start y \<le> n" and "n < year_start (y + 1)"
  shows "year_of_day n = y"
  using assms year_of_day [of n] year_start_mono [of "year_of_day n + 1" y]
    year_start_mono [of "y + 1" "year_of_day n"] by linarith

lemma year_of_day_le_iff: "year_of_day n \<le> y \<longleftrightarrow> n < year_start (y + 1)"
  using year_of_day [of n] year_start_mono [of "year_of_day n + 1" "y + 1"]
    year_start_mono [of "y + 1" "year_of_day n"] by linarith

lemma month_of_day:
  assumes "0 \<le> n" and "n < (if leap y then 366 else 365)"
  defines "m \<equiv> month_of_day y n 11"
  shows "1 \<le> m \<and> m \<le> 12 \<and> month_start y m \<le> n \<and> n < month_start y m + month_days y m"
  using assms(1,2) unfolding m_def
  by (cases "leap y") (simp_all add: numeral_eq_Suc month_start_def month_days_def)

section \<open>Digits\<close>

lemma digit_of_digit [simp]: "0 \<le> n \<Longrightarrow> n \<le> 9 \<Longrightarrow> digit_of (digit n) = Some n"
proof -
  assume n: "0 \<le> n" "n \<le> 9"
  then have "(of_char (digit n) :: nat) = 48 + nat n"
    by (simp add: digit_def of_char_of)
  then have "(of_char (digit n) :: int) = 48 + n"
    using n by (metis of_nat_add of_nat_numeral of_nat_of_char nat_0_le)
  with n show ?thesis by (simp add: digit_of_def Let_def)
qed

lemma digit_neq: "0 \<le> n \<Longrightarrow> n \<le> 9 \<Longrightarrow> digit_of c = None \<Longrightarrow> digit n \<noteq> c"
  using digit_of_digit by force

lemma mod_10 [simp]: "0 \<le> n mod 10" "n mod (10::int) \<le> 9"
  using pos_mod_bound [of 10 n] by auto

lemma getnum_pad2 [simp]:
  assumes "0 \<le> n" and "n < 100"
  shows "getnum b (pad2 n @ s) = Some (n, s)"
proof -
  have "0 \<le> n div 10" "n div 10 \<le> 9" using assms by auto
  then show ?thesis by (simp add: getnum_def pad2_def)
qed

lemma digits_value_append:
  "digits_value a (xs @ ys) = obind (digits_value a xs) (\<lambda>v. digits_value v ys)"
  by (induction xs arbitrary: a) (auto simp: obind_def split: option.splits)

lemma digits_value_pad2:
  assumes "0 \<le> n" and "n < 100"
  shows "digits_value a (pad2 n @ s) = digits_value (a * 100 + n) s"
proof -
  have "0 \<le> n div 10" "n div 10 \<le> 9" using assms by auto
  moreover have "10 * (10 * a + n div 10) + n mod 10 = a * 100 + n" by simp
  ultimately show ?thesis by (simp add: pad2_def algebra_simps)
qed

lemma getyear_pad4 [simp]:
  assumes "0 \<le> n" and "n < 10000"
  shows "getyear (pad4 n @ s) = Some (n, s)"
proof -
  have "0 \<le> n div 100" "n div 100 < 100" "0 \<le> n mod 100" "n mod 100 < 100" using assms by auto
  then have "digits_value 0 (pad4 n) = Some n"
    using digits_value_pad2 [of "n mod 100" "n div 100" "[]"] by (simp add: pad4_def digits_value_pad2)
  moreover have "take 4 (pad4 n @ s) = pad4 n" "drop 4 (pad4 n @ s) = s" "4 \<le> length (pad4 n @ s)"
    by (simp_all add: pad4_def pad2_def)
  ultimately show ?thesis by (simp add: getyear_def)
qed

lemma length_pad [simp]: "length (pad k n) = k"
  by (induction k arbitrary: n) auto

lemma digits_value_pad: "0 \<le> n \<Longrightarrow> n < 10 ^ k \<Longrightarrow> digits_value a (pad k n) = Some (a * 10 ^ k + n)"
proof (induction k arbitrary: n a)
  case (Suc k)
  then have "digits_value a (pad k (n div 10)) = Some (a * 10 ^ k + n div 10)" by simp
  then show ?case by (simp add: digits_value_append obind_def algebra_simps)
qed simp

lemma pad_digits: "c \<in> set (pad k n) \<Longrightarrow> is_digit c"
  by (induction k arbitrary: n) (auto simp: is_digit_def)

lemma digits_value_zeros: "digits_value a (replicate j CHR ''0'') = Some (a * 10 ^ j)"
  by (induction j arbitrary: a) (auto simp: digit_of_def)

lemma trim_zeros:
  obtains j where "ds = rev (dropWhile (\<lambda>c. c = z) (rev ds)) @ replicate j z"
proof -
  have "takeWhile (\<lambda>c. c = z) (rev ds) = replicate (length (takeWhile (\<lambda>c. c = z) (rev ds))) z"
    by (rule replicate_eqI [symmetric, THEN sym]) (auto dest: set_takeWhileD)
  then have "rev ds = replicate (length (takeWhile (\<lambda>c. c = z) (rev ds))) z @ dropWhile (\<lambda>c. c = z) (rev ds)"
    using takeWhile_dropWhile_id [of "\<lambda>c. c = z" "rev ds"] by metis
  from arg_cong [OF this, of rev] that show ?thesis by simp
qed

lemma getfraction_fraction:
  assumes "0 \<le> ns" and "ns < 1000000000"
  shows "getfraction (fraction ns @ CHR ''Z'' # s) = (ns, CHR ''Z'' # s)"
proof (cases "ns = 0")
  case True
  then show ?thesis by (cases s) (simp_all add: fraction_def getfraction_def)
next
  case False
  define tr where "tr = rev (dropWhile (\<lambda>c. c = CHR ''0'') (rev (pad 9 ns)))"
  obtain j where j: "pad 9 ns = tr @ replicate j CHR ''0''"
    by (rule trim_zeros [of "pad 9 ns" "CHR ''0''", folded tr_def])
  have val: "digits_value 0 (pad 9 ns) = Some ns"
    using digits_value_pad [of ns 9 0] assms by simp
  then obtain v where v: "digits_value 0 tr = Some v" "v * 10 ^ j = ns"
    by (auto simp: j digits_value_append obind_def digits_value_zeros split: option.splits)
  with False have ne: "tr \<noteq> []" by auto
  have dig: "\<forall>c \<in> set tr. is_digit c" using pad_digits [of _ 9 ns] by (auto simp: j)
  have len: "length tr \<le> 9" "9 - length tr = j" using arg_cong [OF j, of length] by simp_all
  have z: "\<not> is_digit CHR ''Z''" by (simp add: is_digit_def digit_of_def)
  have "nanoseconds tr = ns"
    using v len by (simp add: nanoseconds_def Let_def)
  moreover have "takeWhile is_digit (tr @ CHR ''Z'' # s) = tr" "dropWhile is_digit (tr @ CHR ''Z'' # s) = CHR ''Z'' # s"
    using dig z by (auto simp: takeWhile_append2 dropWhile_append2)
  moreover have "fraction ns = CHR ''.'' # tr" using False by (simp add: fraction_def tr_def)
  ultimately show ?thesis
    using ne dig by (cases tr) (simp_all add: getfraction_def)
qed

section \<open>Printing and parsing\<close>

lemma year_of_day_range:
  "MarshalJSON t = (if - 62167219200 * 1000000000 \<le> t \<and> t < 253402300800 * 1000000000
     then Some (format_RFC3339Nano t) else None)"
proof -
  define n where "n = t div 1000000000 div 86400 + epoch_day"
  have n: "n = t div 86400000000000 + 719528"
    by (simp add: n_def epoch_day_def div_mult2_eq [symmetric] zdiv_zmult2_eq [symmetric])
  have "0 \<le> year_of_day n \<longleftrightarrow> 0 \<le> n"
    using year_of_day_le_iff [of n "- 1"] by (auto simp: year_start_def)
  moreover have "year_of_day n \<le> 9999 \<longleftrightarrow> n < 3652425"
    using year_of_day_le_iff [of n 9999] by (simp add: year_start_def)
  moreover have "0 \<le> n \<longleftrightarrow> - 62167219200 * 1000000000 \<le> t" "n < 3652425 \<longleftrightarrow> t < 253402300800 * 1000000000"
    unfolding n using div_bounds [of 86400000000000 t] by linarith+
  ultimately show ?thesis unfolding MarshalJSON_def n_def [symmetric] Let_def by simp
qed

lemma obind_simps [simp]: "obind (Some a) f = f a" "obind None f = None"
  by (simp_all add: obind_def)

lemma skip_Cons [simp]: "skip c (c # s) = Some s"
  by (simp add: skip_def)

lemma in_range_Some [simp]: "lo \<le> n \<Longrightarrow> n < hi \<Longrightarrow> in_range lo hi (Some (n, s)) = Some (n, s)"
  by (simp add: in_range_def)

lemma month_days_le: "month_days y m \<le> 31"
  by (simp add: month_days_def)

lemma clock_of_seconds:
  fixes r :: int
  assumes "0 \<le> r" and "r < 86400"
  shows "0 \<le> r div 3600" "r div 3600 < 24" "0 \<le> r div 60 mod 60" "r div 60 mod 60 < 60"
    "0 \<le> r mod 60" "r mod 60 < 60" "r div 3600 * 3600 + r div 60 mod 60 * 60 + r mod 60 = r"
proof -
  have "r div 3600 = r div 60 div 60" by (simp add: zdiv_zmult2_eq [symmetric])
  moreover have "a * 3600 + b * 60 = q * 60" if "a * 60 + b = q" for a b q :: int
    using that by simp
  note this [OF div_mult_mod_eq [of "r div 60" 60]]
  ultimately have "r div 3600 * 3600 + r div 60 mod 60 * 60 = r div 60 * 60"
    by (simp only:)
  then show "r div 3600 * 3600 + r div 60 mod 60 * 60 + r mod 60 = r"
    using div_mult_mod_eq [of r 60] by simp
qed (use assms in auto)

lemma Parse_format:
  assumes "0 \<le> year_of_day (t div 1000000000 div 86400 + epoch_day)"
    and "year_of_day (t div 1000000000 div 86400 + epoch_day) \<le> 9999"
  shows "Parse_RFC3339 (format_RFC3339Nano t) = Some t"
proof -
  define secs where "secs = t div 1000000000"
  define n where "n = secs div 86400 + epoch_day"
  define r where "r = secs mod 86400"
  define y where "y = year_of_day n"
  define m where "m = month_of_day y (n - year_start y) 11"
  define d where "d = n - year_start y - month_start y m + 1"
  have y: "0 \<le> y" "y < 10000" using assms by (simp_all add: y_def n_def secs_def)
  have doy: "0 \<le> n - year_start y" "n - year_start y < (if leap y then 366 else 365)"
    using year_of_day [of n] year_start_Suc [of y] by (simp_all add: y_def)
  from month_of_day [OF this, folded m_def] have m: "1 \<le> m" "m < 13" "1 \<le> d" "d \<le> month_days y m"
    by (simp_all add: d_def)
  have d: "0 \<le> d" "d < 100" using m month_days_le [of y m] by linarith+
  have r: "0 \<le> r" "r < 86400" by (simp_all add: r_def)
  note c = clock_of_seconds [OF r]
  have ns: "0 \<le> t mod 1000000000" "t mod 1000000000 < 1000000000" by simp_all
  have zone: "getzone ''Z'' = Some (0, [])" by (simp add: getzone_def)
  have "Date y m d h mi s ns 0 =
      ((n - epoch_day) * 86400 + (h * 3600 + mi * 60 + s)) * 1000000000 + ns" for h mi s ns
    by (simp add: Date_def d_def algebra_simps)
  then have "Date y m d (r div 3600) (r div 60 mod 60) (r mod 60) (t mod 1000000000) 0 =
      ((n - epoch_day) * 86400 + r) * 1000000000 + t mod 1000000000"
    by (simp only: c(7))
  also have "(n - epoch_day) * 86400 + r = secs"
    by (simp add: n_def r_def)
  also have "secs * 1000000000 + t mod 1000000000 = t"
    by (simp add: secs_def)
  finally have date: "Date y m d (r div 3600) (r div 60 mod 60) (r mod 60) (t mod 1000000000) 0 = t" .
  have fmt: "format_RFC3339Nano t = pad4 y @ ''-'' @ pad2 m @ ''-'' @ pad2 d @ ''T'' @ pad2 (r div 3600) @ '':''
        @ pad2 (r div 60 mod 60) @ '':'' @ pad2 (r mod 60) @ fraction (t mod 1000000000) @ ''Z''"
    by (simp add: format_RFC3339Nano_def Let_def flip: secs_def n_def r_def y_def m_def d_def)
  show ?thesis
    unfolding fmt Parse_RFC3339_def
    using y m d c(1-6) ns by (simp add: getfraction_fraction zone date)
qed

end
