(* ===== verification/Fiber.thy ===== *)
theory Fiber
  imports GoErrors GoTime
begin

text \<open>
  What the program uses of its HTTP framework. Fiber is a third-party package: of a request the
  model has the values that the source reads from \<open>*fiber.Ctx\<close>, of a response the status and the
  body it sets, and of the per-request locals the two it stores. A response body is kept as the
  value that is encoded, with \<open>encoding/json\<close>'s one failure: a \<open>time.Time\<close> outside the years
  0 to 9999. Log lines are the entries handed to the request's \<open>*zap.Logger\<close>.
\<close>

section \<open>JSON values\<close>

datatype json =
    JNull
  | JBool bool
  | JInt int
  | JString string
  | JTime instant
  | JArray "json list"
  | JObject "(string \<times> json) list"

fun encodable :: "json \<Rightarrow> bool" where
  "encodable (JTime t) \<longleftrightarrow> MarshalJSON t \<noteq> None"
| "encodable (JArray js) \<longleftrightarrow> list_all encodable js"
| "encodable (JObject kvs) \<longleftrightarrow> list_all (\<lambda>(k, j). encodable j) kvs"
| "encodable _ \<longleftrightarrow> True"

text \<open>A pointer field: \<open>null\<close> for \<open>nil\<close>.\<close>

definition json_ptr :: "('a \<Rightarrow> json) \<Rightarrow> 'a option \<Rightarrow> json" where
  "json_ptr f x = (case x of None \<Rightarrow> JNull | Some a \<Rightarrow> f a)"

section \<open>Log entries\<close>

datatype level = LevelInfo | LevelWarn | LevelError

datatype field =
    IntField string int
  | StringField string string
  | ErrorField go_error
  | DetailsField string "FieldError list"
  | DurationField string duration
  | AnyField string string
  | StackField string

record entry =
  en_Level :: level
  en_Message :: string
  en_Fields :: "field list"

text \<open>A \<open>*zap.Logger\<close> is determined by the fields bound with \<open>With\<close>.\<close>

type_synonym logger = "field list"

section \<open>The request context\<close>

datatype reply = EmptyReply | StatusText int | JSONReply json

record fctx =
  fc_Method :: string
  fc_Path :: string
  fc_Route :: string
  fc_IP :: string
  fc_Get :: "string \<Rightarrow> string"
  fc_Params :: "string \<Rightarrow> string"
  fc_Query :: "string \<Rightarrow> string"
  fc_Body :: string
  fc_Deadline :: "duration option"
  fc_RequestID :: "string option"
  fc_Logger :: "logger option"
  fc_Set :: "(string \<times> string) list"
  fc_Status :: int
  fc_Reply :: reply
  fc_Log :: "entry list"

definition JSON :: "fctx \<Rightarrow> json \<Rightarrow> go_error option \<times> fctx" where
  "JSON c j =
    (if encodable j then (None, c\<lparr>fc_Reply := JSONReply j\<rparr>)
     else (Some (Opaque ''json: error calling MarshalJSON''), c))"

text \<open>\<open>SendStatus\<close> writes the text of the status when there is no body yet.\<close>

definition SendStatus :: "fctx \<Rightarrow> int \<Rightarrow> go_error option \<times> fctx" where
  "SendStatus c n =
    (None, c\<lparr>fc_Status := n,
      fc_Reply := (if fc_Reply c = EmptyReply then StatusText n else fc_Reply c)\<rparr>)"

text \<open>
  A handler returns an error or nil, or panics, and changes the state \<open>'w\<close> behind the services
  and the context.
\<close>

datatype result = Returned "go_error option" | Panicked string

type_synonym 'w handler = "'w \<times> fctx \<Rightarrow> result \<times> ('w \<times> fctx)"

definition respond :: "(fctx \<Rightarrow> go_error option \<times> fctx) \<Rightarrow> 'w handler" where
  "respond f s = (case s of (w, c) \<Rightarrow> (case f c of (err, c) \<Rightarrow> (Returned err, (w, c))))"

lemma respond_simps [simp]: "respond f (w, c) = (Returned (fst (f c)), (w, snd (f c)))"
  by (simp add: respond_def split: prod.split)

text \<open>A context for the examples.\<close>

definition blank_ctx :: fctx where
  "blank_ctx =
    \<lparr>fc_Method = ''GET'', fc_Path = ''/'', fc_Route = ''/'', fc_IP = ''10.0.0.1'', fc_Get = (\<lambda>_. []), fc_Params = (\<lambda>_. []),
     fc_Query = (\<lambda>_. []), fc_Body = [], fc_Deadline = None, fc_RequestID = None, fc_Logger = Some [],
     fc_Set = [], fc_Status = 200, fc_Reply = EmptyReply, fc_Log = []\<rparr>"

end
