(* ===== verification/Validator.thy ===== *)
theory Validator
  imports Text Fiber
begin

text \<open>
  \<open>internal/pkg/validator/validator.go\<close>. The rules are run by go-playground/validator, a
  third-party package that reads the \<open>validate\<close> tags of a struct by reflection; here it is an
  argument, a function from the tagged fields of a struct to its verdict. \<open>documented\<close> states what
  its documentation says of the tags that the requests of the program use.
\<close>

section \<open>Tagged structs\<close>

datatype fvalue = VString string | VBoolPtr "bool option" | VTimePtr "instant option"

text \<open>A struct field: its Go name, its \<open>json\<close> tag, its \<open>validate\<close> tag as pairs of a rule and a
  parameter, and its value.\<close>

record sfield =
  sf_Name :: string
  sf_JSON :: string
  sf_Rules :: "(string \<times> string) list"
  sf_Value :: fvalue

record ruleError =
  re_Field :: string
  re_Tag :: string
  re_Param :: string

datatype validation = ValidationErrors "ruleError list" | InvalidValidation

type_synonym playground = "(string \<Rightarrow> string) \<Rightarrow> sfield list \<Rightarrow> validation option"

section \<open>The package\<close>

text \<open>\<open>strings.SplitN(s, ",", 2)[0]\<close>.\<close>

definition before :: "char \<Rightarrow> string \<Rightarrow> string" where
  "before sep s = takeWhile (\<lambda>c. c \<noteq> sep) s"

definition tag_name :: "string \<Rightarrow> string" where
  "tag_name json =
    (let name = before CHR '','' json in if name = ''-'' then [] else name)"

definition instance_Struct :: "playground \<Rightarrow> sfield list \<Rightarrow> validation option" where
  "instance_Struct pg s = pg tag_name s"

text \<open>\<open>strings.ToLower\<close>, on the ASCII names that occur in tags.\<close>

definition ToLower :: "string \<Rightarrow> string" where
  "ToLower s = map (\<lambda>c. let n = of_char c :: nat in if 65 \<le> n \<and> n \<le> 90 then char_of (n + 32) else c) s"

definition reason :: "ruleError \<Rightarrow> string" where
  "reason fe =
    (if re_Tag fe = ''required'' then ''is required''
     else if re_Tag fe \<in> set [''required_if'', ''required_unless'', ''required_with'', ''required_without''] then
       (case Fields (re_Param fe) of
          [a, b] \<Rightarrow> ''is required when '' @ ToLower a @ '' is '' @ b
        | _ \<Rightarrow> ''is required'')
     else if re_Tag fe = ''oneof'' then ''must be one of: '' @ re_Param fe
     else if re_Tag fe \<in> set [''uuid'', ''uuid4''] then ''must be a valid uuid''
     else if re_Tag fe = ''min'' then ''must be at least '' @ re_Param fe
     else if re_Tag fe = ''max'' then ''must be at most '' @ re_Param fe
     else if re_Tag fe = ''email'' then ''must be a valid email''
     else if re_Tag fe = ''e164'' then ''must be a valid phone number''
     else if re_Tag fe = ''gt'' then ''must be greater than '' @ re_Param fe
     else if re_Tag fe = ''gte'' then ''must be greater than or equal to '' @ re_Param fe
     else ''is invalid'')"

fun asValidationErrors :: "validation \<Rightarrow> ruleError list option" where
  "asValidationErrors (ValidationErrors verrs) = Some verrs"
| "asValidationErrors InvalidValidation = None"

definition validator_Struct :: "playground \<Rightarrow> sfield list \<Rightarrow> app_error option" where
  "validator_Struct pg s =
    (case instance_Struct pg s of
       None \<Rightarrow> None
     | Some err \<Rightarrow>
         (case asValidationErrors err of
            None \<Rightarrow> Some (Validation CodeValidation ''invalid request'')
          | Some verrs \<Rightarrow>
              Some (WithDetails (Validation CodeValidation ''validation failed'')
                (map (\<lambda>fe. \<lparr>Field = re_Field fe, Reason = reason fe\<rparr>) verrs))))"

section \<open>What the documentation of the third-party package says\<close>

definition present :: "fvalue \<Rightarrow> bool" where
  "present v \<longleftrightarrow>
    (case v of VString s \<Rightarrow> s \<noteq> [] | VBoolPtr p \<Rightarrow> p \<noteq> None | VTimePtr p \<Rightarrow> p \<noteq> None)"

definition rule_holds :: "sfield list \<Rightarrow> fvalue \<Rightarrow> string \<times> string \<Rightarrow> bool" where
  "rule_holds s v r \<longleftrightarrow>
    (case r of (tag, param) \<Rightarrow>
      if tag = ''required'' then present v
      else if tag = ''max'' then
        (case v of VString t \<Rightarrow> (case Atoi_int param of Some n \<Rightarrow> int (length (runes t)) \<le> n | None \<Rightarrow> False)
         | _ \<Rightarrow> True)
      else if tag = ''oneof'' then (case v of VString t \<Rightarrow> t \<in> set (Fields param) | _ \<Rightarrow> True)
      else if tag = ''required_if'' then
        (case Fields param of
           [f, x] \<Rightarrow> list_ex (\<lambda>g. sf_Name g = f \<and> sf_Value g = VString x) s \<longrightarrow> present v
         | _ \<Rightarrow> True)
      else True)"

text \<open>The rules of a field run in order, the first failure counts, and \<open>omitempty\<close> ends the run
  of an empty field.\<close>

fun first_failure :: "sfield list \<Rightarrow> fvalue \<Rightarrow> (string \<times> string) list \<Rightarrow> (string \<times> string) option" where
  "first_failure s v [] = None"
| "first_failure s v (r # rs) =
    (if fst r = ''omitempty'' then (if present v then first_failure s v rs else None)
     else if rule_holds s v r then first_failure s v rs else Some r)"

definition field_error :: "(string \<Rightarrow> string) \<Rightarrow> sfield list \<Rightarrow> sfield \<Rightarrow> ruleError list" where
  "field_error name s f =
    (case first_failure s (sf_Value f) (sf_Rules f) of
       None \<Rightarrow> []
     | Some (tag, param) \<Rightarrow> [\<lparr>re_Field = name (sf_JSON f), re_Tag = tag, re_Param = param\<rparr>])"

definition documented_run :: playground where
  "documented_run name s =
    (let errs = concat (map (field_error name s) s)
     in if errs = [] then None else Some (ValidationErrors errs))"

definition documented :: "playground \<Rightarrow> bool" where
  "documented pg \<longleftrightarrow> (\<forall>name s. pg name s = documented_run name s)"

lemma documented_documented_run [simp]: "documented documented_run"
  by (simp add: documented_def)

lemma validator_Struct_None:
  assumes "documented pg" and "validator_Struct pg s = None" and "f \<in> set s"
  shows "first_failure s (sf_Value f) (sf_Rules f) = None"
proof -
  have "field_error tag_name s f = []"
    using assms by (auto simp: validator_Struct_def instance_Struct_def documented_def documented_run_def
        Let_def split: option.splits if_splits)
  then show ?thesis by (auto simp: field_error_def split: option.splits)
qed

lemma validator_Struct_Validation:
  "validator_Struct pg s = Some err \<Longrightarrow> Kind err = KindValidation \<and> Code err = CodeValidation"
  by (auto simp: validator_Struct_def Validation_def split: option.splits)

end
