(* ===== verification/Presenter.thy ===== *)
theory Presenter
  imports Fiber
begin

text \<open>
  \<open>internal/adapter/in/http/presenter/presenter.go\<close>: the success and error envelopes, and what of
  an error a client gets to see.
\<close>

record successEnvelope =
  se_Data :: json
  se_Meta :: "json option"

record errorBody =
  eb_Code :: string
  eb_Message :: string
  eb_Details :: "FieldError list"

record errorEnvelope =
  ee_Error :: errorBody

text \<open>The field tags of the envelopes: \<open>omitempty\<close> on \<open>meta\<close> and \<open>details\<close>.\<close>

definition successEnvelope_json :: "successEnvelope \<Rightarrow> json" where
  "successEnvelope_json e =
    JObject ((''data'', se_Data e) # (case se_Meta e of None \<Rightarrow> [] | Some m \<Rightarrow> [(''meta'', m)]))"

definition FieldError_json :: "FieldError \<Rightarrow> json" where
  "FieldError_json f = JObject [(''field'', JString (Field f)), (''reason'', JString (Reason f))]"

definition errorBody_json :: "errorBody \<Rightarrow> json" where
  "errorBody_json b =
    JObject ([(''code'', JString (eb_Code b)), (''message'', JString (eb_Message b))] @
      (if eb_Details b = [] then []
       else [(''details'', JArray (map FieldError_json (eb_Details b)))]))"

definition errorEnvelope_json :: "errorEnvelope \<Rightarrow> json" where
  "errorEnvelope_json e = JObject [(''error'', errorBody_json (ee_Error e))]"

section \<open>Logging\<close>

definition WithLogger :: "fctx \<Rightarrow> logger \<Rightarrow> fctx" where
  "WithLogger c lg = c\<lparr>fc_Logger := Some lg\<rparr>"

text \<open>\<open>LoggerFrom(c)\<close> writing one entry; the no-op logger drops it.\<close>

definition LoggerFrom :: "fctx \<Rightarrow> level \<Rightarrow> string \<Rightarrow> field list \<Rightarrow> fctx" where
  "LoggerFrom c lvl msg fs =
    (case fc_Logger c of
       Some lg \<Rightarrow>
         c\<lparr>fc_Log := fc_Log c @ [\<lparr>en_Level = lvl, en_Message = msg, en_Fields = lg @ fs\<rparr>]\<rparr>
     | None \<Rightarrow> c)"

text \<open>The fields every entry about an error starts with.\<close>

definition log_fields :: "fctx \<Rightarrow> int \<Rightarrow> string \<Rightarrow> field list" where
  "log_fields c status code =
    [IntField ''status'' status, StringField ''code'' code,
     StringField ''method'' (fc_Method c), StringField ''route'' (fc_Route c)]"

definition logFailed :: "fctx \<Rightarrow> int \<Rightarrow> app_error \<Rightarrow> fctx" where
  "logFailed c status ae =
    LoggerFrom c LevelError ''request_failed''
      (log_fields c status (Code ae) @
       (case Err_Cause ae of
          Some e \<Rightarrow> [ErrorField e]
        | None \<Rightarrow> [StringField ''error'' (Err_Error (\<lambda>_. []) ae)]))"

definition logRejected ::
  "fctx \<Rightarrow> int \<Rightarrow> string \<Rightarrow> go_error option \<Rightarrow> FieldError list \<Rightarrow> fctx" where
  "logRejected c status code err details =
    LoggerFrom c LevelWarn ''request_rejected''
      (log_fields c status code @
       (case err of Some e \<Rightarrow> [ErrorField e] | None \<Rightarrow> []) @
       (if details = [] then [] else [DetailsField ''details'' details]))"

section \<open>Responses\<close>

definition presenter_Success :: "fctx \<Rightarrow> int \<Rightarrow> json \<Rightarrow> go_error option \<times> fctx" where
  "presenter_Success c status data =
    JSON (c\<lparr>fc_Status := status\<rparr>) (successEnvelope_json \<lparr>se_Data = data, se_Meta = None\<rparr>)"

definition presenter_List :: "fctx \<Rightarrow> int \<Rightarrow> json \<Rightarrow> json \<Rightarrow> go_error option \<times> fctx" where
  "presenter_List c status data meta =
    JSON (c\<lparr>fc_Status := status\<rparr>) (successEnvelope_json \<lparr>se_Data = data, se_Meta = Some meta\<rparr>)"

definition presenter_NoContent :: "fctx \<Rightarrow> go_error option \<times> fctx" where
  "presenter_NoContent c = SendStatus c 204"

definition presenter_write ::
  "fctx \<Rightarrow> int \<Rightarrow> string \<Rightarrow> string \<Rightarrow> FieldError list \<Rightarrow> go_error option \<times> fctx" where
  "presenter_write c status code message details =
    JSON (c\<lparr>fc_Status := status\<rparr>)
      (errorEnvelope_json \<lparr>ee_Error = \<lparr>eb_Code = code, eb_Message = message, eb_Details = details\<rparr>\<rparr>)"

definition codeForStatus :: "int \<Rightarrow> string" where
  "codeForStatus status =
    (if status = 404 then CodeNotFound
     else if status = 405 then CodeMethodNotAllowed
     else CodeRequestError)"

definition writeAppError :: "fctx \<Rightarrow> app_error \<Rightarrow> go_error option \<times> fctx" where
  "writeAppError c ae =
    (let status = Err_Status ae
     in if Err_IsServerError ae then
          (let c = logFailed c status ae
           in presenter_write c status (ClientCode ae) (ClientMessage ae) [])
        else
          (let c = logRejected c status (Code ae) (Err_Cause ae) (Details ae)
           in presenter_write c status (Code ae) (Message ae) (Details ae)))"

definition presenter_Error :: "fctx \<Rightarrow> go_error \<Rightarrow> go_error option \<times> fctx" where
  "presenter_Error c err =
    (case From err of
       Some ae \<Rightarrow> writeAppError c ae
     | None \<Rightarrow>
         (case errors_As as_FiberError err of
            Some (status, message) \<Rightarrow>
              (let code = codeForStatus status;
                   c = logRejected c status code (Some err) []
               in presenter_write c status code message [])
          | None \<Rightarrow> writeAppError c (WithCause (Internal CodeInternal ''unhandled error'') err)))"

definition StatusCode :: "go_error \<Rightarrow> int" where
  "StatusCode err =
    (case From err of
       Some ae \<Rightarrow> Err_Status ae
     | None \<Rightarrow>
         (case errors_As as_FiberError err of
            Some (status, _) \<Rightarrow> status
          | None \<Rightarrow> 500))"

section \<open>Lemmas\<close>

lemma encodable_errorEnvelope [simp]: "encodable (errorEnvelope_json e)"
  by (simp add: errorEnvelope_json_def errorBody_json_def FieldError_json_def list_all_iff)

lemma LoggerFrom_sel [simp]:
  "fc_Status (LoggerFrom c l m fs) = fc_Status c" "fc_Reply (LoggerFrom c l m fs) = fc_Reply c"
  "fc_Logger (LoggerFrom c l m fs) = fc_Logger c" "fc_Set (LoggerFrom c l m fs) = fc_Set c"
  "fc_RequestID (LoggerFrom c l m fs) = fc_RequestID c" "fc_IP (LoggerFrom c l m fs) = fc_IP c"
  "fc_Method (LoggerFrom c l m fs) = fc_Method c" "fc_Route (LoggerFrom c l m fs) = fc_Route c"
  by (simp_all add: LoggerFrom_def split: option.split)

lemma presenter_write_simps [simp]:
  "fst (presenter_write c status code message details) = None"
  "snd (presenter_write c status code message details) =
     c\<lparr>fc_Status := status, fc_Reply := JSONReply (errorEnvelope_json
       \<lparr>ee_Error = \<lparr>eb_Code = code, eb_Message = message, eb_Details = details\<rparr>\<rparr>)\<rparr>"
  by (simp_all add: presenter_write_def JSON_def)

lemmas log_defs = logFailed_def logRejected_def

lemma presenter_Error_None [simp]: "fst (presenter_Error c err) = None"
  by (simp add: presenter_Error_def writeAppError_def Let_def split: option.split prod.split)

lemma presenter_Error_Status: "fc_Status (snd (presenter_Error c err)) = StatusCode err"
  by (simp add: presenter_Error_def writeAppError_def StatusCode_def Let_def Err_Status_def Internal_def
      split: option.split prod.split)

lemma presenter_Success_cases:
  "presenter_Success c status data =
    (if encodable data
     then (None, c\<lparr>fc_Status := status, fc_Reply := JSONReply (JObject [(''data'', data)])\<rparr>)
     else (Some (Opaque ''json: error calling MarshalJSON''), c\<lparr>fc_Status := status\<rparr>))"
  by (simp add: presenter_Success_def JSON_def successEnvelope_json_def)

lemma presenter_List_cases:
  "presenter_List c status data meta =
    (if encodable data \<and> encodable meta
     then (None, c\<lparr>fc_Status := status,
       fc_Reply := JSONReply (JObject [(''data'', data), (''meta'', meta)])\<rparr>)
     else (Some (Opaque ''json: error calling MarshalJSON''), c\<lparr>fc_Status := status\<rparr>))"
  by (simp add: presenter_List_def JSON_def successEnvelope_json_def)

section \<open>Properties\<close>

text \<open>
  An error that stands for an internal failure, an unhandled one or one of kind internal, and the
  entry the log gets about it.
\<close>

definition internal_error :: "go_error \<Rightarrow> bool" where
  "internal_error err \<longleftrightarrow>
    (case From err of
       Some ae \<Rightarrow> Kind ae = KindInternal
     | None \<Rightarrow> errors_As as_FiberError err = None)"

definition failure_fields :: "fctx \<Rightarrow> go_error \<Rightarrow> field list" where
  "failure_fields c err =
    (case From err of
       None \<Rightarrow> log_fields c 500 ''INTERNAL_ERROR'' @ [ErrorField err]
     | Some ae \<Rightarrow> log_fields c 500 (Code ae) @
         [case cause ae of Some e \<Rightarrow> ErrorField e | None \<Rightarrow> StringField ''error'' (Message ae)])"

definition generic_reply :: reply where
  "generic_reply = JSONReply (JObject [(''error'', JObject
     [(''code'', JString ''INTERNAL_ERROR''),
      (''message'', JString ''an unexpected error occurred, please try again later'')])])"

lemma writeAppError_internal:
  "Kind ae = KindInternal \<Longrightarrow> snd (writeAppError c ae) =
     (LoggerFrom c LevelError ''request_failed'' (failure_fields c (App ae)))
       \<lparr>fc_Status := 500, fc_Reply := generic_reply\<rparr>"
  by (cases ae; cases "cause ae")
    (auto simp: writeAppError_def Let_def Err_Status_def Err_IsServerError_def failure_fields_def
        Kind_IsServerError_def logFailed_def Err_Cause_def ClientCode_def ClientMessage_def
        generic_reply_def errorEnvelope_json_def errorBody_json_def MessageFor_def
        defaultMessages_def code_defs)

lemma presenter_Error_internal:
  assumes "internal_error err"
  shows "snd (presenter_Error c err) =
    (LoggerFrom c LevelError ''request_failed'' (failure_fields c err))
      \<lparr>fc_Status := 500, fc_Reply := generic_reply\<rparr>"
proof (cases "From err")
  case None
  with assms have "snd (presenter_Error c err) =
      snd (writeAppError c (WithCause (Internal CodeInternal ''unhandled error'') err))"
    by (simp add: presenter_Error_def internal_error_def)
  with None show ?thesis
    by (simp add: writeAppError_internal Internal_def failure_fields_def CodeInternal_def)
next
  case (Some ae)
  with assms show ?thesis
    by (simp add: presenter_Error_def internal_error_def writeAppError_internal failure_fields_def)
qed

text \<open>
  Claim C16. Whatever goes wrong inside, the client of a request that fails with an internal error
  gets status 500 and one fixed body: no code, message, detail or cause of the error. The cause is
  not lost: the request's logger writes one error entry that carries it.
\<close>

theorem internal_errors_concealed:
  assumes "internal_error err"
  shows "snd (presenter_Error c err) =
    (LoggerFrom c LevelError ''request_failed'' (failure_fields c err))
      \<lparr>fc_Status := 500, fc_Reply := generic_reply\<rparr>"
  by (rule presenter_Error_internal [OF assms])

theorem internal_errors_concealed_witness:
  "fc_Reply (snd (presenter_Error blank_ctx
     (App (WithCause (Internal ''DB_OOPS'' ''duplicate key'') (PgError ''23505''))))) = generic_reply \<and>
   fc_Log (snd (presenter_Error blank_ctx
     (App (WithCause (Internal ''DB_OOPS'' ''duplicate key'') (PgError ''23505''))))) =
     [\<lparr>en_Level = LevelError, en_Message = ''request_failed'',
       en_Fields = [IntField ''status'' 500, StringField ''code'' ''DB_OOPS'',
         StringField ''method'' ''GET'', StringField ''route'' ''/'', ErrorField (PgError ''23505'')]\<rparr>]"
  using internal_errors_concealed
    [of "App (WithCause (Internal ''DB_OOPS'' ''duplicate key'') (PgError ''23505''))" blank_ctx]
  by (simp add: internal_error_def Internal_def LoggerFrom_def failure_fields_def log_fields_def blank_ctx_def)

end
