(* ===== verification/Dto.thy ===== *)
theory Dto
  imports Validator Schema Presenter
begin

text \<open>
  \<open>internal/adapter/in/http/dto\<close>: the wire shapes. Requests with their tags and sanitising,
  responses with their conversion from the entities of the domain and their JSON field names.
  The printing of a UUID (third-party) is the argument \<open>fmt\<close>.
\<close>

section \<open>Requests\<close>

record CreateHouseholdRequest =
  hq_OwnerName :: string
  hq_Address :: string

definition CreateHouseholdRequest_tags :: "CreateHouseholdRequest \<Rightarrow> sfield list" where
  "CreateHouseholdRequest_tags r =
    [\<lparr>sf_Name = ''OwnerName'', sf_JSON = ''owner_name'',
      sf_Rules = [(''required'', ''''), (''max'', ''255'')], sf_Value = VString (hq_OwnerName r)\<rparr>,
     \<lparr>sf_Name = ''Address'', sf_JSON = ''address'',
      sf_Rules = [(''required'', ''''), (''max'', ''1000'')], sf_Value = VString (hq_Address r)\<rparr>]"

definition CreateHouseholdRequest_Sanitize :: "CreateHouseholdRequest \<Rightarrow> CreateHouseholdRequest" where
  "CreateHouseholdRequest_Sanitize r =
    r\<lparr>hq_OwnerName := sanitizeText (hq_OwnerName r), hq_Address := sanitizeText (hq_Address r)\<rparr>"

record CreatePickupRequest =
  pq_HouseholdID :: string
  pq_Type :: string
  pq_SafetyCheck :: "bool option"

definition CreatePickupRequest_tags :: "CreatePickupRequest \<Rightarrow> sfield list" where
  "CreatePickupRequest_tags r =
    [\<lparr>sf_Name = ''HouseholdID'', sf_JSON = ''household_id'', sf_Rules = [(''required'', '''')],
      sf_Value = VString (pq_HouseholdID r)\<rparr>,
     \<lparr>sf_Name = ''Type'', sf_JSON = ''type'',
      sf_Rules = [(''required'', ''''), (''oneof'', ''organic plastic paper electronic'')],
      sf_Value = VString (pq_Type r)\<rparr>,
     \<lparr>sf_Name = ''SafetyCheck'', sf_JSON = ''safety_check'',
      sf_Rules = [(''required_if'', ''Type electronic'')], sf_Value = VBoolPtr (pq_SafetyCheck r)\<rparr>]"

definition CreatePickupRequest_Sanitize :: "CreatePickupRequest \<Rightarrow> CreatePickupRequest" where
  "CreatePickupRequest_Sanitize r =
    r\<lparr>pq_HouseholdID := sanitizeText (pq_HouseholdID r), pq_Type := sanitizeText (pq_Type r)\<rparr>"

record ListPickupsQuery =
  pl_Status :: string
  pl_HouseholdID :: string

definition ListPickupsQuery_tags :: "ListPickupsQuery \<Rightarrow> sfield list" where
  "ListPickupsQuery_tags q =
    [\<lparr>sf_Name = ''Status'', sf_JSON = ''status'',
      sf_Rules = [(''omitempty'', ''''), (''oneof'', ''pending scheduled completed canceled'')],
      sf_Value = VString (pl_Status q)\<rparr>,
     \<lparr>sf_Name = ''HouseholdID'', sf_JSON = ''household_id'', sf_Rules = [],
      sf_Value = VString (pl_HouseholdID q)\<rparr>]"

definition ListPickupsQuery_Sanitize :: "ListPickupsQuery \<Rightarrow> ListPickupsQuery" where
  "ListPickupsQuery_Sanitize q =
    q\<lparr>pl_Status := sanitizeText (pl_Status q), pl_HouseholdID := sanitizeText (pl_HouseholdID q)\<rparr>"

record SchedulePickupRequest =
  sq_PickupDate :: "instant option"

definition SchedulePickupRequest_tags :: "SchedulePickupRequest \<Rightarrow> sfield list" where
  "SchedulePickupRequest_tags r =
    [\<lparr>sf_Name = ''PickupDate'', sf_JSON = ''pickup_date'', sf_Rules = [(''required'', '''')],
      sf_Value = VTimePtr (sq_PickupDate r)\<rparr>]"

record CreatePaymentRequest =
  yq_HouseholdID :: string
  yq_WasteID :: string

definition CreatePaymentRequest_tags :: "CreatePaymentRequest \<Rightarrow> sfield list" where
  "CreatePaymentRequest_tags r =
    [\<lparr>sf_Name = ''HouseholdID'', sf_JSON = ''household_id'', sf_Rules = [(''required'', '''')],
      sf_Value = VString (yq_HouseholdID r)\<rparr>,
     \<lparr>sf_Name = ''WasteID'', sf_JSON = ''waste_id'', sf_Rules = [(''required'', '''')],
      sf_Value = VString (yq_WasteID r)\<rparr>]"

definition CreatePaymentRequest_Sanitize :: "CreatePaymentRequest \<Rightarrow> CreatePaymentRequest" where
  "CreatePaymentRequest_Sanitize r =
    r\<lparr>yq_HouseholdID := sanitizeText (yq_HouseholdID r), yq_WasteID := sanitizeText (yq_WasteID r)\<rparr>"

record ListPaymentsQuery =
  yl_Status :: string
  yl_HouseholdID :: string
  yl_DateFrom :: string
  yl_DateTo :: string

definition ListPaymentsQuery_tags :: "ListPaymentsQuery \<Rightarrow> sfield list" where
  "ListPaymentsQuery_tags q =
    [\<lparr>sf_Name = ''Status'', sf_JSON = ''status'',
      sf_Rules = [(''omitempty'', ''''), (''oneof'', ''pending paid failed'')],
      sf_Value = VString (yl_Status q)\<rparr>,
     \<lparr>sf_Name = ''HouseholdID'', sf_JSON = ''household_id'', sf_Rules = [],
      sf_Value = VString (yl_HouseholdID q)\<rparr>,
     \<lparr>sf_Name = ''DateFrom'', sf_JSON = ''date_from'', sf_Rules = [], sf_Value = VString (yl_DateFrom q)\<rparr>,
     \<lparr>sf_Name = ''DateTo'', sf_JSON = ''date_to'', sf_Rules = [], sf_Value = VString (yl_DateTo q)\<rparr>]"

definition ListPaymentsQuery_Sanitize :: "ListPaymentsQuery \<Rightarrow> ListPaymentsQuery" where
  "ListPaymentsQuery_Sanitize q =
    q\<lparr>yl_Status := sanitizeText (yl_Status q), yl_HouseholdID := sanitizeText (yl_HouseholdID q),
      yl_DateFrom := sanitizeText (yl_DateFrom q), yl_DateTo := sanitizeText (yl_DateTo q)\<rparr>"

section \<open>Decimals as text\<close>

fun show_nat :: "nat \<Rightarrow> string" where
  "show_nat n = (if n < 10 then [digit (int n)] else show_nat (n div 10) @ [digit (int (n mod 10))])"

declare show_nat.simps [simp del]

text \<open>\<open>decimal.StringFixed(2)\<close>: rounded half away from zero.\<close>

definition StringFixed2 :: "decimal \<Rightarrow> string" where
  "StringFixed2 a =
    (let h = hundredths a; n = nat \<bar>h\<bar>
     in (if h < 0 then ''-'' else '''') @ show_nat (n div 100) @ ''.'' @ pad2 (int (n mod 100)))"

section \<open>Responses\<close>

record HouseholdResponse =
  ha_ID :: string
  ha_OwnerName :: string
  ha_Address :: string
  ha_CreatedAt :: instant
  ha_UpdatedAt :: instant

definition HouseholdResponse_json :: "HouseholdResponse \<Rightarrow> json" where
  "HouseholdResponse_json r =
    JObject [(''id'', JString (ha_ID r)), (''owner_name'', JString (ha_OwnerName r)),
      (''address'', JString (ha_Address r)), (''created_at'', JTime (ha_CreatedAt r)),
      (''updated_at'', JTime (ha_UpdatedAt r))]"

definition NewHouseholdResponse :: "(uuid \<Rightarrow> string) \<Rightarrow> Household \<Rightarrow> HouseholdResponse" where
  "NewHouseholdResponse fmt h =
    \<lparr>ha_ID = fmt (hh_ID h), ha_OwnerName = hh_OwnerName h, ha_Address = hh_Address h,
     ha_CreatedAt = hh_CreatedAt h, ha_UpdatedAt = hh_UpdatedAt h\<rparr>"

definition NewHouseholdResponses :: "(uuid \<Rightarrow> string) \<Rightarrow> Household list \<Rightarrow> HouseholdResponse list" where
  "NewHouseholdResponses fmt hs = map (NewHouseholdResponse fmt) hs"

record PickupResponse =
  pa_ID :: string
  pa_HouseholdID :: string
  pa_Type :: string
  pa_Status :: string
  pa_PickupDate :: "instant option"
  pa_SafetyCheck :: bool
  pa_CreatedAt :: instant
  pa_UpdatedAt :: instant

definition PickupResponse_json :: "PickupResponse \<Rightarrow> json" where
  "PickupResponse_json r =
    JObject [(''id'', JString (pa_ID r)), (''household_id'', JString (pa_HouseholdID r)),
      (''type'', JString (pa_Type r)), (''status'', JString (pa_Status r)),
      (''pickup_date'', json_ptr JTime (pa_PickupDate r)),
      (''safety_check'', JBool (pa_SafetyCheck r)), (''created_at'', JTime (pa_CreatedAt r)),
      (''updated_at'', JTime (pa_UpdatedAt r))]"

definition NewPickupResponse :: "(uuid \<Rightarrow> string) \<Rightarrow> Pickup \<Rightarrow> PickupResponse" where
  "NewPickupResponse fmt p =
    \<lparr>pa_ID = fmt (pk_ID p), pa_HouseholdID = fmt (pk_HouseholdID p), pa_Type = pk_Type p,
     pa_Status = pk_Status p, pa_PickupDate = pk_PickupDate p, pa_SafetyCheck = pk_SafetyCheck p,
     pa_CreatedAt = pk_CreatedAt p, pa_UpdatedAt = pk_UpdatedAt p\<rparr>"

definition NewPickupResponses :: "(uuid \<Rightarrow> string) \<Rightarrow> Pickup list \<Rightarrow> PickupResponse list" where
  "NewPickupResponses fmt ps = map (NewPickupResponse fmt) ps"

record PaymentResponse =
  ya_ID :: string
  ya_HouseholdID :: string
  ya_WasteID :: string
  ya_Amount :: string
  ya_PaymentDate :: "instant option"
  ya_Status :: string
  ya_ProofFileURL :: "string option"
  ya_CreatedAt :: instant
  ya_UpdatedAt :: instant

definition PaymentResponse_json :: "PaymentResponse \<Rightarrow> json" where
  "PaymentResponse_json r =
    JObject [(''id'', JString (ya_ID r)), (''household_id'', JString (ya_HouseholdID r)),
      (''waste_id'', JString (ya_WasteID r)), (''amount'', JString (ya_Amount r)),
      (''payment_date'', json_ptr JTime (ya_PaymentDate r)), (''status'', JString (ya_Status r)),
      (''proof_file_url'', json_ptr JString (ya_ProofFileURL r)),
      (''created_at'', JTime (ya_CreatedAt r)), (''updated_at'', JTime (ya_UpdatedAt r))]"

definition NewPaymentResponse :: "(uuid \<Rightarrow> string) \<Rightarrow> Payment \<Rightarrow> PaymentResponse" where
  "NewPaymentResponse fmt p =
    \<lparr>ya_ID = fmt (pm_ID p), ya_HouseholdID = fmt (pm_HouseholdID p), ya_WasteID = fmt (pm_WasteID p),
     ya_Amount = StringFixed2 (pm_Amount p), ya_PaymentDate = pm_PaymentDate p,
     ya_Status = pm_Status p, ya_ProofFileURL = pm_ProofFileURL p, ya_CreatedAt = pm_CreatedAt p,
     ya_UpdatedAt = pm_UpdatedAt p\<rparr>"

definition NewPaymentResponses :: "(uuid \<Rightarrow> string) \<Rightarrow> Payment list \<Rightarrow> PaymentResponse list" where
  "NewPaymentResponses fmt ps = map (NewPaymentResponse fmt) ps"

record WasteCountResponse =
  wa_Type :: string
  wa_Status :: string
  wa_Count :: int

record WasteSummaryResponse =
  wy_Counts :: "WasteCountResponse list"
  wy_Total :: int

definition WasteCountResponse_json :: "WasteCountResponse \<Rightarrow> json" where
  "WasteCountResponse_json r =
    JObject [(''type'', JString (wa_Type r)), (''status'', JString (wa_Status r)),
      (''count'', JInt (wa_Count r))]"

definition WasteSummaryResponse_json :: "WasteSummaryResponse \<Rightarrow> json" where
  "WasteSummaryResponse_json r =
    JObject [(''counts'', JArray (map WasteCountResponse_json (wy_Counts r))),
      (''total'', JInt (wy_Total r))]"

definition NewWasteSummaryResponse :: "WasteSummary \<Rightarrow> WasteSummaryResponse" where
  "NewWasteSummaryResponse s =
    \<lparr>wy_Counts = map (\<lambda>c. \<lparr>wa_Type = wc_Type c, wa_Status = wc_Status c, wa_Count = int (wc_Count c)\<rparr>)
       (ws_Counts s),
     wy_Total = int (ws_Total s)\<rparr>"

record PaymentStatusTotalResponse =
  ta_Status :: string
  ta_Count :: int
  ta_Amount :: string

record PaymentSummaryResponse =
  ty_Totals :: "PaymentStatusTotalResponse list"
  ty_TotalRevenue :: string

definition PaymentStatusTotalResponse_json :: "PaymentStatusTotalResponse \<Rightarrow> json" where
  "PaymentStatusTotalResponse_json r =
    JObject [(''status'', JString (ta_Status r)), (''count'', JInt (ta_Count r)),
      (''amount'', JString (ta_Amount r))]"

definition PaymentSummaryResponse_json :: "PaymentSummaryResponse \<Rightarrow> json" where
  "PaymentSummaryResponse_json r =
    JObject [(''totals'', JArray (map PaymentStatusTotalResponse_json (ty_Totals r))),
      (''total_revenue'', JString (ty_TotalRevenue r))]"

definition NewPaymentSummaryResponse :: "PaymentSummary \<Rightarrow> PaymentSummaryResponse" where
  "NewPaymentSummaryResponse s =
    \<lparr>ty_Totals = map (\<lambda>t. \<lparr>ta_Status = pt_Status t, ta_Count = int (pt_Count t),
         ta_Amount = StringFixed2 (pt_Amount t)\<rparr>) (py_Totals s),
     ty_TotalRevenue = StringFixed2 (py_TotalRevenue s)\<rparr>"

record HouseholdHistoryResponse =
  hi_Household :: HouseholdResponse
  hi_Pickups :: "PickupResponse list"
  hi_Payments :: "PaymentResponse list"

definition HouseholdHistoryResponse_json :: "HouseholdHistoryResponse \<Rightarrow> json" where
  "HouseholdHistoryResponse_json r =
    JObject [(''household'', HouseholdResponse_json (hi_Household r)),
      (''pickups'', JArray (map PickupResponse_json (hi_Pickups r))),
      (''payments'', JArray (map PaymentResponse_json (hi_Payments r)))]"

definition NewHouseholdHistoryResponse ::
  "(uuid \<Rightarrow> string) \<Rightarrow> HouseholdHistory \<Rightarrow> HouseholdHistoryResponse" where
  "NewHouseholdHistoryResponse fmt h =
    \<lparr>hi_Household = NewHouseholdResponse fmt (hy_Household h),
     hi_Pickups = NewPickupResponses fmt (hy_Pickups h),
     hi_Payments = NewPaymentResponses fmt (hy_Payments h)\<rparr>"

definition Meta_json :: "Meta \<Rightarrow> json" where
  "Meta_json m =
    JObject [(''page'', JInt (sint (mt_Page m))), (''per_page'', JInt (sint (mt_PerPage m))),
      (''total'', JInt (int (mt_Total m)))]"

end
