(* ===== verification/Driving.thy ===== *)
theory Driving
  imports HouseholdService PickupService PaymentService ReportService Dto
begin

text \<open>
  The driving side of the core. The interfaces of \<open>internal/core/port/in\<close> that handlers and worker
  hold are records of functions, which the services implement; a method that draws a new UUID takes
  it as an argument. \<open>Libs\<close> collects the third-party functions that handlers and server call: the
  validator, parsing and printing of UUIDs, and of Fiber the parsing of bodies, queries and forms,
  the matching of a path against a route pattern (the parameters of the path, if it matches), the
  error for a request without route, and the answer to a CORS preflight request.
\<close>

section \<open>port/in: the services as interfaces\<close>

record 'w HouseholdPort =
  ih_Create :: "ctx \<Rightarrow> CreateHouseholdCommand \<Rightarrow> uuid \<Rightarrow> ('w, Household) act"
  ih_List :: "ctx \<Rightarrow> Params \<Rightarrow> ('w, Household list \<times> nat) act"
  ih_Get :: "ctx \<Rightarrow> uuid \<Rightarrow> ('w, Household) act"
  ih_Delete :: "ctx \<Rightarrow> uuid \<Rightarrow> ('w, unit) act"

record 'w PickupPort =
  ip_Create :: "ctx \<Rightarrow> CreatePickupCommand \<Rightarrow> uuid \<Rightarrow> ('w, Pickup) act"
  ip_List :: "ctx \<Rightarrow> PickupFilter \<Rightarrow> Params \<Rightarrow> ('w, Pickup list \<times> nat) act"
  ip_Schedule :: "ctx \<Rightarrow> uuid \<Rightarrow> SchedulePickupCommand \<Rightarrow> ('w, Pickup) act"
  ip_Complete :: "ctx \<Rightarrow> uuid \<Rightarrow> uuid \<Rightarrow> ('w, Pickup) act"
  ip_Cancel :: "ctx \<Rightarrow> uuid \<Rightarrow> ('w, Pickup) act"
  ip_CancelStaleOrganic :: "ctx \<Rightarrow> ('w, nat) act"

record 'w PaymentPort =
  iy_Create :: "ctx \<Rightarrow> CreatePaymentCommand \<Rightarrow> uuid \<Rightarrow> ('w, Payment) act"
  iy_List :: "ctx \<Rightarrow> PaymentFilter \<Rightarrow> Params \<Rightarrow> ('w, Payment list \<times> nat) act"
  iy_Confirm :: "ctx \<Rightarrow> uuid \<Rightarrow> ConfirmPaymentInput \<Rightarrow> uuid \<Rightarrow> ('w, Payment) act"

record 'w ReportPort =
  ir_WasteSummary :: "ctx \<Rightarrow> ('w, WasteSummary) act"
  ir_PaymentSummary :: "ctx \<Rightarrow> ('w, PaymentSummary) act"
  ir_HouseholdHistory :: "ctx \<Rightarrow> uuid \<Rightarrow> ('w, HouseholdHistory) act"

definition household_port :: "'w HouseholdService \<Rightarrow> 'w HouseholdPort" where
  "household_port s =
    \<lparr>ih_Create = household_Create s, ih_List = household_List s, ih_Get = household_Get s,
     ih_Delete = household_Delete s\<rparr>"

definition pickup_port :: "'w PickupService \<Rightarrow> 'w PickupPort" where
  "pickup_port s =
    \<lparr>ip_Create = pickup_Create s, ip_List = pickup_List s, ip_Schedule = pickup_Schedule s,
     ip_Complete = pickup_Complete s, ip_Cancel = pickup_Cancel s,
     ip_CancelStaleOrganic = pickup_CancelStaleOrganic s\<rparr>"

definition payment_port :: "(uuid \<Rightarrow> string) \<Rightarrow> 'w PaymentService \<Rightarrow> 'w PaymentPort" where
  "payment_port fmt s =
    \<lparr>iy_Create = payment_Create s, iy_List = payment_List s, iy_Confirm = payment_Confirm fmt s\<rparr>"

definition report_port :: "'w ReportService \<Rightarrow> 'w ReportPort" where
  "report_port s =
    \<lparr>ir_WasteSummary = report_WasteSummary s, ir_PaymentSummary = report_PaymentSummary s,
     ir_HouseholdHistory = report_HouseholdHistory s\<rparr>"

section \<open>Third-party functions\<close>

text \<open>
  An uploaded file of \<open>mime/multipart\<close>: opening it, reading its head and rewinding it can fail.
\<close>

record File =
  fl_Content :: string
  fl_ReadFails :: bool
  fl_SeekFails :: bool

record FileHeader =
  fh_Size :: gint
  fh_Open :: "File option"

record Libs =
  lb_Validate :: playground
  lb_Parse :: "string \<Rightarrow> uuid option"
  lb_String :: "uuid \<Rightarrow> string"
  lb_CreateHousehold :: "fctx \<Rightarrow> CreateHouseholdRequest option"
  lb_CreatePickup :: "fctx \<Rightarrow> CreatePickupRequest option"
  lb_ListPickups :: "fctx \<Rightarrow> ListPickupsQuery option"
  lb_SchedulePickup :: "fctx \<Rightarrow> SchedulePickupRequest option"
  lb_CreatePayment :: "fctx \<Rightarrow> CreatePaymentRequest option"
  lb_ListPayments :: "fctx \<Rightarrow> ListPaymentsQuery option"
  lb_FormFile :: "fctx \<Rightarrow> string \<Rightarrow> FileHeader option"
  lb_Match :: "string \<Rightarrow> string \<Rightarrow> (string \<Rightarrow> string) option"
  lb_NoRoute :: "fctx \<Rightarrow> go_error"
  lb_Preflight :: "string \<Rightarrow> fctx \<Rightarrow> fctx option"

section \<open>What handlers share\<close>

text \<open>\<open>apperr.Validation(CodeValidation, msg)\<close>, and the same with one field in its details.\<close>

definition invalid :: "string \<Rightarrow> go_error" where
  "invalid msg = App (Validation CodeValidation msg)"

definition invalid_field :: "string \<Rightarrow> string \<Rightarrow> string \<Rightarrow> go_error" where
  "invalid_field msg fld rsn =
     App (WithDetails (Validation CodeValidation msg) [\<lparr>Field = fld, Reason = rsn\<rparr>])"

definition fail :: "go_error \<Rightarrow> 'w handler" where
  "fail err = respond (\<lambda>c. presenter_Error c err)"

definition parseID :: "Libs \<Rightarrow> string \<Rightarrow> go_error + uuid" where
  "parseID lib raw =
    (case lb_Parse lib raw of
       None \<Rightarrow> Inl (invalid_field ''invalid id'' ''id'' ''must be a valid uuid'')
     | Some i \<Rightarrow> Inr i)"

end
