(* ===== verification/HouseholdHandler.thy ===== *)
theory HouseholdHandler
  imports Driving
begin

text \<open>
  \<open>internal/adapter/in/http/handler/household.go\<close> and \<open>report.go\<close>.
\<close>

section \<open>Households\<close>

record 'w HouseholdHandler =
  hx_svc :: "'w HouseholdPort"

definition NewHouseholdHandler :: "'w HouseholdPort \<Rightarrow> 'w HouseholdHandler" where
  "NewHouseholdHandler svc = \<lparr>hx_svc = svc\<rparr>"

definition HouseholdHandler_Create :: "Libs \<Rightarrow> 'w HouseholdHandler \<Rightarrow> uuid \<Rightarrow> 'w handler" where
  "HouseholdHandler_Create lib h newID s =
    (case s of (w, c) \<Rightarrow>
     case lb_CreateHousehold lib c of
       None \<Rightarrow> fail (invalid ''invalid request body'') (w, c)
     | Some req \<Rightarrow>
         (let req = CreateHouseholdRequest_Sanitize req
          in case validator_Struct (lb_Validate lib) (CreateHouseholdRequest_tags req) of
               Some err \<Rightarrow> fail (App err) (w, c)
             | None \<Rightarrow>
                 (case ih_Create (hx_svc h) None
                         \<lparr>ch_OwnerName = hq_OwnerName req, ch_Address = hq_Address req\<rparr> newID w of
                    (Inl err, w) \<Rightarrow> fail err (w, c)
                  | (Inr household, w) \<Rightarrow>
                      respond (\<lambda>c. presenter_Success c 201
                        (HouseholdResponse_json (NewHouseholdResponse (lb_String lib) household))) (w, c))))"

definition HouseholdHandler_List :: "Libs \<Rightarrow> 'w HouseholdHandler \<Rightarrow> 'w handler" where
  "HouseholdHandler_List lib h s =
    (case s of (w, c) \<Rightarrow>
     let params = Parse (fc_Query c ''page'') (fc_Query c ''per_page'')
     in case ih_List (hx_svc h) None params w of
          (Inl err, w) \<Rightarrow> fail err (w, c)
        | (Inr (items, n), w) \<Rightarrow>
            respond (\<lambda>c. presenter_List c 200
              (JArray (map HouseholdResponse_json (NewHouseholdResponses (lb_String lib) items)))
              (Meta_json (NewMeta params n))) (w, c))"

definition HouseholdHandler_Get :: "Libs \<Rightarrow> 'w HouseholdHandler \<Rightarrow> 'w handler" where
  "HouseholdHandler_Get lib h s =
    (case s of (w, c) \<Rightarrow>
     case parseID lib (fc_Params c ''id'') of
       Inl err \<Rightarrow> fail err (w, c)
     | Inr i \<Rightarrow>
         (case ih_Get (hx_svc h) None i w of
            (Inl err, w) \<Rightarrow> fail err (w, c)
          | (Inr household, w) \<Rightarrow>
              respond (\<lambda>c. presenter_Success c 200
                (HouseholdResponse_json (NewHouseholdResponse (lb_String lib) household))) (w, c)))"

definition HouseholdHandler_Delete :: "Libs \<Rightarrow> 'w HouseholdHandler \<Rightarrow> 'w handler" where
  "HouseholdHandler_Delete lib h s =
    (case s of (w, c) \<Rightarrow>
     case parseID lib (fc_Params c ''id'') of
       Inl err \<Rightarrow> fail err (w, c)
     | Inr i \<Rightarrow>
         (case ih_Delete (hx_svc h) None i w of
            (Inl err, w) \<Rightarrow> fail err (w, c)
          | (Inr _, w) \<Rightarrow> respond presenter_NoContent (w, c)))"

section \<open>Reports\<close>

record 'w ReportHandler =
  rx_svc :: "'w ReportPort"

definition NewReportHandler :: "'w ReportPort \<Rightarrow> 'w ReportHandler" where
  "NewReportHandler svc = \<lparr>rx_svc = svc\<rparr>"

definition ReportHandler_WasteSummary :: "'w ReportHandler \<Rightarrow> 'w handler" where
  "ReportHandler_WasteSummary h s =
    (case s of (w, c) \<Rightarrow>
     case ir_WasteSummary (rx_svc h) None w of
       (Inl err, w) \<Rightarrow> fail err (w, c)
     | (Inr summary, w) \<Rightarrow>
         respond (\<lambda>c. presenter_Success c 200
           (WasteSummaryResponse_json (NewWasteSummaryResponse summary))) (w, c))"

definition ReportHandler_PaymentSummary :: "'w ReportHandler \<Rightarrow> 'w handler" where
  "ReportHandler_PaymentSummary h s =
    (case s of (w, c) \<Rightarrow>
     case ir_PaymentSummary (rx_svc h) None w of
       (Inl err, w) \<Rightarrow> fail err (w, c)
     | (Inr summary, w) \<Rightarrow>
         respond (\<lambda>c. presenter_Success c 200
           (PaymentSummaryResponse_json (NewPaymentSummaryResponse summary))) (w, c))"

definition ReportHandler_HouseholdHistory :: "Libs \<Rightarrow> 'w ReportHandler \<Rightarrow> 'w handler" where
  "ReportHandler_HouseholdHistory lib h s =
    (case s of (w, c) \<Rightarrow>
     case parseID lib (fc_Params c ''id'') of
       Inl err \<Rightarrow> fail err (w, c)
     | Inr i \<Rightarrow>
         (case ir_HouseholdHistory (rx_svc h) None i w of
            (Inl err, w) \<Rightarrow> fail err (w, c)
          | (Inr history, w) \<Rightarrow>
              respond (\<lambda>c. presenter_Success c 200
                (HouseholdHistoryResponse_json (NewHouseholdHistoryResponse (lb_String lib) history)))
                (w, c)))"

end
