(* ===== verification/PickupHandler.thy ===== *)
theory PickupHandler
  imports Driving
begin

text \<open>
  \<open>internal/adapter/in/http/handler/pickup.go\<close>. \<open>Schedule\<close> dereferences the date of the request after
  the validation: with a nil pointer it panics.
\<close>

record 'w PickupHandler =
  px_svc :: "'w PickupPort"

definition NewPickupHandler :: "'w PickupPort \<Rightarrow> 'w PickupHandler" where
  "NewPickupHandler svc = \<lparr>px_svc = svc\<rparr>"

definition nil_dereference :: string where
  "nil_dereference = ''runtime error: invalid memory address or nil pointer dereference''"

definition buildPickupFilter :: "Libs \<Rightarrow> ListPickupsQuery \<Rightarrow> go_error + PickupFilter" where
  "buildPickupFilter lib query =
    (let status = (if pl_Status query \<noteq> [] then Some (pl_Status query) else None)
     in if pl_HouseholdID query \<noteq> [] then
          (case lb_Parse lib (pl_HouseholdID query) of
             None \<Rightarrow> Inl (invalid_field ''invalid request'' ''household_id'' ''must be a valid uuid'')
           | Some i \<Rightarrow> Inr \<lparr>pf_Status = status, pf_HouseholdID = Some i\<rparr>)
        else Inr \<lparr>pf_Status = status, pf_HouseholdID = None\<rparr>)"

definition PickupHandler_Create :: "Libs \<Rightarrow> 'w PickupHandler \<Rightarrow> uuid \<Rightarrow> 'w handler" where
  "PickupHandler_Create lib h newID s =
    (case s of (w, c) \<Rightarrow>
     case lb_CreatePickup lib c of
       None \<Rightarrow> fail (invalid ''invalid request body'') (w, c)
     | Some req \<Rightarrow>
         (let req = CreatePickupRequest_Sanitize req
          in case validator_Struct (lb_Validate lib) (CreatePickupRequest_tags req) of
               Some err \<Rightarrow> fail (App err) (w, c)
             | None \<Rightarrow>
                 (case lb_Parse lib (pq_HouseholdID req) of
                    None \<Rightarrow> fail (invalid_field ''invalid request'' ''household_id'' ''must be a valid uuid'') (w, c)
                  | Some householdID \<Rightarrow>
                      (case ip_Create (px_svc h) None
                              \<lparr>cp_HouseholdID = householdID, cp_Type = pq_Type req,
                               cp_SafetyCheck = (case pq_SafetyCheck req of None \<Rightarrow> False | Some b \<Rightarrow> b)\<rparr>
                              newID w of
                         (Inl err, w) \<Rightarrow> fail err (w, c)
                       | (Inr pickup, w) \<Rightarrow>
                           respond (\<lambda>c. presenter_Success c 201
                             (PickupResponse_json (NewPickupResponse (lb_String lib) pickup))) (w, c)))))"

definition PickupHandler_List :: "Libs \<Rightarrow> 'w PickupHandler \<Rightarrow> 'w handler" where
  "PickupHandler_List lib h s =
    (case s of (w, c) \<Rightarrow>
     case lb_ListPickups lib c of
       None \<Rightarrow> fail (invalid ''invalid query parameters'') (w, c)
     | Some query \<Rightarrow>
         (let query = ListPickupsQuery_Sanitize query
          in case validator_Struct (lb_Validate lib) (ListPickupsQuery_tags query) of
               Some err \<Rightarrow> fail (App err) (w, c)
             | None \<Rightarrow>
                 (case buildPickupFilter lib query of
                    Inl err \<Rightarrow> fail err (w, c)
                  | Inr flt \<Rightarrow>
                      (let params = Parse (fc_Query c ''page'') (fc_Query c ''per_page'')
                       in case ip_List (px_svc h) None flt params w of
                            (Inl err, w) \<Rightarrow> fail err (w, c)
                          | (Inr (items, n), w) \<Rightarrow>
                              respond (\<lambda>c. presenter_List c 200
                                (JArray (map PickupResponse_json (NewPickupResponses (lb_String lib) items)))
                                (Meta_json (NewMeta params n))) (w, c)))))"

definition PickupHandler_Schedule :: "Libs \<Rightarrow> 'w PickupHandler \<Rightarrow> 'w handler" where
  "PickupHandler_Schedule lib h s =
    (case s of (w, c) \<Rightarrow>
     case parseID lib (fc_Params c ''id'') of
       Inl err \<Rightarrow> fail err (w, c)
     | Inr i \<Rightarrow>
         (case lb_SchedulePickup lib c of
            None \<Rightarrow> fail (invalid ''invalid request body'') (w, c)
          | Some req \<Rightarrow>
              (case validator_Struct (lb_Validate lib) (SchedulePickupRequest_tags req) of
                 Some err \<Rightarrow> fail (App err) (w, c)
               | None \<Rightarrow>
                   (case sq_PickupDate req of
                      None \<Rightarrow> (Panicked nil_dereference, (w, c))
                    | Some date \<Rightarrow>
                        (case ip_Schedule (px_svc h) None i \<lparr>sp_PickupDate = date\<rparr> w of
                           (Inl err, w) \<Rightarrow> fail err (w, c)
                         | (Inr pickup, w) \<Rightarrow>
                             respond (\<lambda>c. presenter_Success c 200
                               (PickupResponse_json (NewPickupResponse (lb_String lib) pickup))) (w, c))))))"

definition PickupHandler_Complete :: "Libs \<Rightarrow> 'w PickupHandler \<Rightarrow> uuid \<Rightarrow> 'w handler" where
  "PickupHandler_Complete lib h newID s =
    (case s of (w, c) \<Rightarrow>
     case parseID lib (fc_Params c ''id'') of
       Inl err \<Rightarrow> fail err (w, c)
     | Inr i \<Rightarrow>
         (case ip_Complete (px_svc h) None i newID w of
            (Inl err, w) \<Rightarrow> fail err (w, c)
          | (Inr pickup, w) \<Rightarrow>
              respond (\<lambda>c. presenter_Success c 200
                (PickupResponse_json (NewPickupResponse (lb_String lib) pickup))) (w, c)))"

definition PickupHandler_Cancel :: "Libs \<Rightarrow> 'w PickupHandler \<Rightarrow> 'w handler" where
  "PickupHandler_Cancel lib h s =
    (case s of (w, c) \<Rightarrow>
     case parseID lib (fc_Params c ''id'') of
       Inl err \<Rightarrow> fail err (w, c)
     | Inr i \<Rightarrow>
         (case ip_Cancel (px_svc h) None i w of
            (Inl err, w) \<Rightarrow> fail err (w, c)
          | (Inr pickup, w) \<Rightarrow>
              respond (\<lambda>c. presenter_Success c 200
                (PickupResponse_json (NewPickupResponse (lb_String lib) pickup))) (w, c)))"

end
