(* ===== verification/Sniff.thy ===== *)
theory Sniff
  imports Text GoErrors
begin

text \<open>
  \<open>http.DetectContentType\<close> of the standard library, with its table of signatures, on the bytes of a
  file as numbers below 256. The upload policy of payments decides on its result.
\<close>

section \<open>Signatures\<close>

text \<open>In a pattern \<open>None\<close> is a byte that the mask hides. \<open>Html\<close> compares letters without their case
  and asks for a byte that ends a tag after the pattern.\<close>

datatype signature =
    Exact "nat option list" string
  | AfterSpace "nat option list" string
  | Html string
  | MP4
  | PlainText

definition isWS :: "nat \<Rightarrow> bool" where
  "isWS b \<longleftrightarrow> b = 9 \<or> b = 10 \<or> b = 12 \<or> b = 13 \<or> b = 32"

definition isTT :: "nat \<Rightarrow> bool" where
  "isTT b \<longleftrightarrow> b = 32 \<or> b = 62"

fun pattern_matches :: "nat option list \<Rightarrow> nat list \<Rightarrow> bool" where
  "pattern_matches [] ds \<longleftrightarrow> True"
| "pattern_matches (p # ps) [] \<longleftrightarrow> False"
| "pattern_matches (p # ps) (d # ds) \<longleftrightarrow>
     (case p of None \<Rightarrow> True | Some b \<Rightarrow> b = d) \<and> pattern_matches ps ds"

text \<open>\<open>db &= 0xDF\<close> clears the bit of value 32.\<close>

definition upper :: "nat \<Rightarrow> nat" where
  "upper d = (if d div 32 mod 2 = 1 then d - 32 else d)"

fun html_matches :: "nat list \<Rightarrow> nat list \<Rightarrow> bool" where
  "html_matches [] ds \<longleftrightarrow> (case ds of [] \<Rightarrow> False | d # _ \<Rightarrow> isTT d)"
| "html_matches (b # bs) [] \<longleftrightarrow> False"
| "html_matches (b # bs) (d # ds) \<longleftrightarrow>
     (if 65 \<le> b \<and> b \<le> 90 then upper d = b else d = b) \<and> html_matches bs ds"

definition byte_at :: "nat list \<Rightarrow> nat \<Rightarrow> nat" where
  "byte_at ds i = (if i < length ds then ds ! i else 0)"

definition mp4_matches :: "nat list \<Rightarrow> bool" where
  "mp4_matches ds \<longleftrightarrow>
    (if length ds < 12 then False
     else
       (let boxSize = byte_at ds 0 * 16777216 + byte_at ds 1 * 65536 + byte_at ds 2 * 256 + byte_at ds 3
        in if length ds < boxSize \<or> boxSize mod 4 \<noteq> 0 then False
           else if take 4 (drop 4 ds) \<noteq> bytes ''ftyp'' then False
           else list_ex (\<lambda>k. 4 * k \<noteq> 12 \<and> take 3 (drop (4 * k) ds) = bytes ''mp4'') [2..<boxSize div 4]))"

definition binary_byte :: "nat \<Rightarrow> bool" where
  "binary_byte b \<longleftrightarrow> b \<le> 8 \<or> b = 11 \<or> (14 \<le> b \<and> b \<le> 26) \<or> (28 \<le> b \<and> b \<le> 31)"

fun matches :: "nat list \<Rightarrow> signature \<Rightarrow> string option" where
  "matches ds (Exact p ct) = (if pattern_matches p ds then Some ct else None)"
| "matches ds (AfterSpace p ct) = (if pattern_matches p (dropWhile isWS ds) then Some ct else None)"
| "matches ds (Html p) =
     (if html_matches (bytes p) (dropWhile isWS ds) then Some ''text/html; charset=utf-8'' else None)"
| "matches ds MP4 = (if mp4_matches ds then Some ''video/mp4'' else None)"
| "matches ds PlainText =
     (if list_ex binary_byte (dropWhile isWS ds) then None else Some ''text/plain; charset=utf-8'')"

definition lit :: "string \<Rightarrow> nat option list" where
  "lit s = map Some (bytes s)"

definition hidden :: "nat \<Rightarrow> nat option list" where
  "hidden n = replicate n None"

definition sniffSignatures :: "signature list" where
  "sniffSignatures =
    [Html ''<!DOCTYPE HTML'', Html ''<HTML'', Html ''<HEAD'', Html ''<SCRIPT'', Html ''<IFRAME'',
     Html ''<H1'', Html ''<DIV'', Html ''<FONT'', Html ''<TABLE'', Html ''<A'', Html ''<STYLE'',
     Html ''<TITLE'', Html ''<B'', Html ''<BODY'', Html ''<BR'', Html ''<P'', Html ''<!--'',
     AfterSpace (lit ''<?xml'') ''text/xml; charset=utf-8'',
     Exact (lit ''%PDF-'') ''application/pdf'',
     Exact (lit ''%!PS-Adobe-'') ''application/postscript'',
     Exact (map Some [254, 255] @ hidden 2) ''text/plain; charset=utf-16be'',
     Exact (map Some [255, 254] @ hidden 2) ''text/plain; charset=utf-16le'',
     Exact (map Some [239, 187, 191] @ hidden 1) ''text/plain; charset=utf-8'',
     Exact (map Some [0, 0, 1, 0]) ''image/x-icon'',
     Exact (map Some [0, 0, 2, 0]) ''image/x-icon'',
     Exact (lit ''BM'') ''image/bmp'',
     Exact (lit ''GIF87a'') ''image/gif'',
     Exact (lit ''GIF89a'') ''image/gif'',
     Exact (lit ''RIFF'' @ hidden 4 @ lit ''WEBPVP'') ''image/webp'',
     Exact (map Some [137, 80, 78, 71, 13, 10, 26, 10]) ''image/png'',
     Exact (map Some [255, 216, 255]) ''image/jpeg'',
     Exact (lit ''FORM'' @ hidden 4 @ lit ''AIFF'') ''audio/aiff'',
     Exact (lit ''ID3'') ''audio/mpeg'',
     Exact (lit ''OggS'' @ [Some 0]) ''application/ogg'',
     Exact (lit ''MThd'' @ map Some [0, 0, 0, 6]) ''audio/midi'',
     Exact (lit ''RIFF'' @ hidden 4 @ lit ''AVI '') ''video/avi'',
     Exact (lit ''RIFF'' @ hidden 4 @ lit ''WAVE'') ''audio/wave'',
     MP4,
     Exact (map Some [26, 69, 223, 163]) ''video/webm'',
     Exact (hidden 34 @ lit ''LP'') ''application/vnd.ms-fontobject'',
     Exact (map Some [0, 1, 0, 0]) ''font/ttf'',
     Exact (lit ''OTTO'') ''font/otf'',
     Exact (lit ''ttcf'') ''font/collection'',
     Exact (lit ''wOFF'') ''font/woff'',
     Exact (lit ''wOF2'') ''font/woff2'',
     Exact (map Some [31, 139, 8]) ''application/x-gzip'',
     Exact (lit ''PK'' @ map Some [3, 4]) ''application/zip'',
     Exact (lit ''Rar!'' @ map Some [26, 7, 0]) ''application/x-rar-compressed'',
     Exact (lit ''Rar!'' @ map Some [26, 7, 1, 0]) ''application/x-rar-compressed'',
     Exact (map Some [0, 97, 115, 109]) ''application/wasm'',
     PlainText]"

definition DetectContentType :: "string \<Rightarrow> string" where
  "DetectContentType data =
    (let ds = bytes (take 512 data)
     in case first_some (matches ds) sniffSignatures of
          Some ct \<Rightarrow> ct
        | None \<Rightarrow> ''application/octet-stream'')"

section \<open>What a type says about the bytes\<close>

lemma first_some_SomeD: "first_some f xs = Some y \<Longrightarrow> \<exists>x \<in> set xs. f x = Some y"
  by (induction xs) (auto split: option.splits)

lemma pattern_matches_Some: "pattern_matches (map Some p) ds \<longleftrightarrow> take (length p) ds = p"
  by (induction p arbitrary: ds) (metis | case_tac ds; auto)+

text \<open>Only signatures of that type can have answered it.\<close>

fun type_of :: "signature \<Rightarrow> string" where
  "type_of (Exact p ct) = ct"
| "type_of (AfterSpace p ct) = ct"
| "type_of (Html p) = ''text/html; charset=utf-8''"
| "type_of MP4 = ''video/mp4''"
| "type_of PlainText = ''text/plain; charset=utf-8''"

lemma matches_type: "matches ds s = Some ct \<Longrightarrow> type_of s = ct"
  by (cases s) (auto split: if_splits)

lemma DetectContentType_by:
  assumes "DetectContentType data = ct" and "ct \<noteq> ''application/octet-stream''"
    and "filter (\<lambda>s. type_of s = ct) sniffSignatures = [s]"
  shows "matches (bytes (take 512 data)) s = Some ct"
proof -
  obtain r where "r \<in> set sniffSignatures" and r: "matches (bytes (take 512 data)) r = Some ct"
    using assms(1,2) by (auto simp: DetectContentType_def Let_def dest: first_some_SomeD split: option.splits)
  with matches_type [OF r] have "r \<in> set (filter (\<lambda>s. type_of s = ct) sniffSignatures)"
    by simp
  with r show ?thesis by (simp add: assms(3))
qed

lemma bytes_take: "bytes (take n s) = take n (bytes s)"
  by (simp add: bytes_def take_map)

lemma png_signature:
  assumes "DetectContentType data = ''image/png''"
  shows "take 8 (bytes data) = [137, 80, 78, 71, 13, 10, 26, 10]"
proof -
  have "filter (\<lambda>s. type_of s = ''image/png'') sniffSignatures =
      [Exact (map Some [137, 80, 78, 71, 13, 10, 26, 10]) ''image/png'']"
    by code_simp
  from DetectContentType_by [OF assms _ this] show ?thesis
    by (simp only: matches.simps pattern_matches_Some bytes_take) (simp add: numeral_eq_Suc split: if_splits)
qed

lemma jpeg_signature:
  assumes "DetectContentType data = ''image/jpeg''"
  shows "take 3 (bytes data) = [255, 216, 255]"
proof -
  have "filter (\<lambda>s. type_of s = ''image/jpeg'') sniffSignatures =
      [Exact (map Some [255, 216, 255]) ''image/jpeg'']"
    by code_simp
  from DetectContentType_by [OF assms _ this] show ?thesis
    by (simp only: matches.simps pattern_matches_Some bytes_take) (simp add: numeral_eq_Suc split: if_splits)
qed

lemma pdf_signature:
  assumes "DetectContentType data = ''application/pdf''"
  shows "take 5 (bytes data) = bytes ''%PDF-''"
proof -
  have "filter (\<lambda>s. type_of s = ''application/pdf'') sniffSignatures =
      [Exact (map Some (bytes ''%PDF-'')) ''application/pdf'']"
    by code_simp
  from DetectContentType_by [OF assms _ this] show ?thesis
    by (simp only: matches.simps pattern_matches_Some bytes_take) (simp add: bytes_def numeral_eq_Suc split: if_splits)
qed

end
