(* ===== verification/PaymentHandler.thy ===== *)
theory PaymentHandler
  imports Driving Sniff
begin

text \<open>
  \<open>internal/adapter/in/http/handler/payment.go\<close>: payments, the filter of their list, and the upload
  policy that a proof must meet before it reaches the service.
\<close>

section \<open>Upload policy\<close>

record UploadPolicy =
  up_MaxBytes :: gint
  up_AllowedTypes :: "string list"

text \<open>
  \<open>strings.EqualFold\<close>: simple folding maps A to Z, the Kelvin sign and the long s to ASCII letters;
  other runes outside ASCII fold among themselves, and never meet one of the media types compared
  here, which are ASCII.
\<close>

definition fold_rune :: "nat \<Rightarrow> nat" where
  "fold_rune r = (if 65 \<le> r \<and> r \<le> 90 then r + 32 else if r = 8490 then 107 else if r = 383 then 115 else r)"

definition EqualFold :: "string \<Rightarrow> string \<Rightarrow> bool" where
  "EqualFold s t \<longleftrightarrow> map fold_rune (runes s) = map fold_rune (runes t)"

definition UploadPolicy_allows :: "UploadPolicy \<Rightarrow> string \<Rightarrow> bool" where
  "UploadPolicy_allows p contentType =
    (let ct = TrimSpace (before CHR '';'' contentType)
     in list_ex (\<lambda>allowed. EqualFold allowed ct) (up_AllowedTypes p))"

section \<open>The handler\<close>

record 'w PaymentHandler =
  yx_svc :: "'w PaymentPort"
  yx_upload :: UploadPolicy

definition NewPaymentHandler :: "'w PaymentPort \<Rightarrow> UploadPolicy \<Rightarrow> 'w PaymentHandler" where
  "NewPaymentHandler svc upload = \<lparr>yx_svc = svc, yx_upload = upload\<rparr>"

definition PaymentHandler_Create :: "Libs \<Rightarrow> 'w PaymentHandler \<Rightarrow> uuid \<Rightarrow> 'w handler" where
  "PaymentHandler_Create lib h newID s =
    (case s of (w, c) \<Rightarrow>
     case lb_CreatePayment lib c of
       None \<Rightarrow> fail (invalid ''invalid request body'') (w, c)
     | Some req \<Rightarrow>
         (let req = CreatePaymentRequest_Sanitize req
          in case validator_Struct (lb_Validate lib) (CreatePaymentRequest_tags req) of
               Some err \<Rightarrow> fail (App err) (w, c)
             | None \<Rightarrow>
                 (case lb_Parse lib (yq_HouseholdID req) of
                    None \<Rightarrow> fail (invalid_field ''invalid request'' ''household_id'' ''must be a valid uuid'') (w, c)
                  | Some householdID \<Rightarrow>
                      (case lb_Parse lib (yq_WasteID req) of
                         None \<Rightarrow> fail (invalid_field ''invalid request'' ''waste_id'' ''must be a valid uuid'') (w, c)
                       | Some wasteID \<Rightarrow>
                           (case iy_Create (yx_svc h) None
                                   \<lparr>cy_HouseholdID = householdID, cy_WasteID = wasteID\<rparr> newID w of
                              (Inl err, w) \<Rightarrow> fail err (w, c)
                            | (Inr payment, w) \<Rightarrow>
                                respond (\<lambda>c. presenter_Success c 201
                                  (PaymentResponse_json (NewPaymentResponse (lb_String lib) payment)))
                                  (w, c))))))"

definition filter_id :: "Libs \<Rightarrow> string \<Rightarrow> go_error + uuid option" where
  "filter_id lib raw =
    (if raw \<noteq> [] then
       (case lb_Parse lib raw of
          None \<Rightarrow> Inl (invalid_field ''invalid request'' ''household_id'' ''must be a valid uuid'')
        | Some i \<Rightarrow> Inr (Some i))
     else Inr None)"

definition filter_date :: "string \<Rightarrow> string \<Rightarrow> go_error + instant option" where
  "filter_date fld raw =
    (if raw \<noteq> [] then
       (case Parse_RFC3339 raw of
          None \<Rightarrow> Inl (invalid_field ''invalid request'' fld ''must be an RFC3339 timestamp'')
        | Some t \<Rightarrow> Inr (Some t))
     else Inr None)"

definition buildPaymentFilter :: "Libs \<Rightarrow> ListPaymentsQuery \<Rightarrow> go_error + PaymentFilter" where
  "buildPaymentFilter lib query =
    (let status = (if yl_Status query \<noteq> [] then Some (yl_Status query) else None)
     in case filter_id lib (yl_HouseholdID query) of
          Inl err \<Rightarrow> Inl err
        | Inr householdID \<Rightarrow>
            (case filter_date ''date_from'' (yl_DateFrom query) of
               Inl err \<Rightarrow> Inl err
             | Inr from_ \<Rightarrow>
                 (case filter_date ''date_to'' (yl_DateTo query) of
                    Inl err \<Rightarrow> Inl err
                  | Inr to_ \<Rightarrow>
                      if (case (from_, to_) of (Some a, Some b) \<Rightarrow> b < a | _ \<Rightarrow> False)
                      then Inl (invalid_field ''invalid request'' ''date_from'' ''must not be after date_to'')
                      else Inr \<lparr>yf_Status = status, yf_HouseholdID = householdID,
                                yf_DateFrom = from_, yf_DateTo = to_\<rparr>)))"

definition PaymentHandler_List :: "Libs \<Rightarrow> 'w PaymentHandler \<Rightarrow> 'w handler" where
  "PaymentHandler_List lib h s =
    (case s of (w, c) \<Rightarrow>
     case lb_ListPayments lib c of
       None \<Rightarrow> fail (invalid ''invalid query parameters'') (w, c)
     | Some query \<Rightarrow>
         (let query = ListPaymentsQuery_Sanitize query
          in case validator_Struct (lb_Validate lib) (ListPaymentsQuery_tags query) of
               Some err \<Rightarrow> fail (App err) (w, c)
             | None \<Rightarrow>
                 (case buildPaymentFilter lib query of
                    Inl err \<Rightarrow> fail err (w, c)
                  | Inr flt \<Rightarrow>
                      (let params = Parse (fc_Query c ''page'') (fc_Query c ''per_page'')
                       in case iy_List (yx_svc h) None flt params w of
                            (Inl err, w) \<Rightarrow> fail err (w, c)
                          | (Inr (items, n), w) \<Rightarrow>
                              respond (\<lambda>c. presenter_List c 200
                                (JArray (map PaymentResponse_json (NewPaymentResponses (lb_String lib) items)))
                                (Meta_json (NewMeta params n))) (w, c)))))"

text \<open>\<open>io.ReadFull\<close> of the first 512 bytes; a shorter file is not an error.\<close>

definition read_head :: "File \<Rightarrow> string option" where
  "read_head f = (if fl_ReadFails f then None else Some (take 512 (fl_Content f)))"

definition PaymentHandler_Confirm :: "Libs \<Rightarrow> 'w PaymentHandler \<Rightarrow> uuid \<Rightarrow> 'w handler" where
  "PaymentHandler_Confirm lib h newID s =
    (case s of (w, c) \<Rightarrow>
     case parseID lib (fc_Params c ''id'') of
       Inl err \<Rightarrow> fail err (w, c)
     | Inr i \<Rightarrow>
         (case lb_FormFile lib c ''proof'' of
            None \<Rightarrow> fail (invalid_field ''invalid request'' ''proof'' ''a proof file is required'') (w, c)
          | Some fileHeader \<Rightarrow>
              if up_MaxBytes (yx_upload h) <s fh_Size fileHeader
              then fail (invalid_field ''invalid request'' ''proof'' ''file exceeds the maximum allowed size'') (w, c)
              else
                (case fh_Open fileHeader of
                   None \<Rightarrow> fail (invalid_field ''invalid request'' ''proof'' ''could not read the uploaded file'') (w, c)
                 | Some file \<Rightarrow>
                     (case read_head file of
                        None \<Rightarrow> fail (invalid_field ''invalid request'' ''proof'' ''could not read the uploaded file'') (w, c)
                      | Some head \<Rightarrow>
                          (let contentType = DetectContentType head
                           in if \<not> UploadPolicy_allows (yx_upload h) contentType
                              then fail (invalid_field ''invalid request'' ''proof'' ''unsupported content type'') (w, c)
                              else if fl_SeekFails file
                              then fail (invalid_field ''invalid request'' ''proof'' ''could not read the uploaded file'') (w, c)
                              else
                                (case iy_Confirm (yx_svc h) None i
                                        \<lparr>ci_Reader = fl_Content file, ci_Size = fh_Size fileHeader,
                                         ci_ContentType = contentType\<rparr> newID w of
                                   (Inl err, w) \<Rightarrow> fail err (w, c)
                                 | (Inr payment, w) \<Rightarrow>
                                     respond (\<lambda>c. presenter_Success c 200
                                       (PaymentResponse_json (NewPaymentResponse (lb_String lib) payment)))
                                       (w, c)))))))"

end
