(* ===== verification/Middleware.thy ===== *)
theory Middleware
  imports Driving
begin

text \<open>
  \<open>internal/adapter/in/http/middleware\<close> without the rate limiter. A middleware turns the rest of the
  chain, \<open>c.Next()\<close>, into a handler. The new UUID of a request without a request ID and the measured
  latency are arguments.
\<close>

definition requestIDKey :: string where "requestIDKey = ''request_id''"
definition headerRequestID :: string where "headerRequestID = ''X-Request-ID''"

definition RequestID :: "logger \<Rightarrow> string \<Rightarrow> 'w handler \<Rightarrow> 'w handler" where
  "RequestID logger newID nxt s =
    (case s of (w, c) \<Rightarrow>
     let i = (if fc_Get c headerRequestID = [] then newID else fc_Get c headerRequestID);
         c = c\<lparr>fc_RequestID := Some i\<rparr>;
         c = c\<lparr>fc_Set := (headerRequestID, i) # fc_Set c\<rparr>;
         c = WithLogger c (logger @ [StringField requestIDKey i])
     in nxt (w, c))"

definition RequestIDFrom :: "fctx \<Rightarrow> string" where
  "RequestIDFrom c = (case fc_RequestID c of Some i \<Rightarrow> i | None \<Rightarrow> [])"

definition Recover :: "'w handler \<Rightarrow> 'w handler" where
  "Recover nxt s =
    (case nxt s of
       (Panicked r, (w, c)) \<Rightarrow>
         (let c = LoggerFrom c LevelError ''panic_recovered''
                    [AnyField ''panic'' r, StringField ''route'' (fc_Route c), StackField ''stack'']
          in fail (App (Internal CodeInternal ''recovered panic'')) (w, c))
     | (Returned err, s) \<Rightarrow> (Returned err, s))"

definition AccessLog :: "duration \<Rightarrow> 'w handler \<Rightarrow> 'w handler" where
  "AccessLog latency nxt s =
    (case nxt s of
       (Panicked r, s) \<Rightarrow> (Panicked r, s)
     | (Returned err, (w, c)) \<Rightarrow>
         (let status = (case err of None \<Rightarrow> fc_Status c | Some e \<Rightarrow> StatusCode e);
              c = LoggerFrom c LevelInfo ''http_request''
                    [StringField ''method'' (fc_Method c), StringField ''route'' (fc_Route c),
                     IntField ''status'' status, DurationField ''latency'' latency,
                     StringField ''ip'' (fc_IP c)]
          in (Returned err, (w, c))))"

definition Timeout :: "duration \<Rightarrow> 'w handler \<Rightarrow> 'w handler" where
  "Timeout d nxt s = (case s of (w, c) \<Rightarrow> nxt (w, c\<lparr>fc_Deadline := Some d\<rparr>))"

end
