(* ===== verification/RateLimit.thy ===== *)
theory RateLimit
  imports Driving
begin

text \<open>
  \<open>internal/adapter/in/http/middleware/ratelimit.go\<close>. The limiter of one client,
  \<open>golang.org/x/time/rate\<close>, is a third-party package: \<open>RatePkg\<close> has its constructor and \<open>Allow\<close> at
  an instant, over an arbitrary type \<open>'b\<close> of limiters. A map of pointers to visitors is a map of
  visitors, as every pointer is reached through its key only. The mutex makes each operation one
  step. Rates are rational numbers.
\<close>

record 'b RatePkg =
  rp_NewLimiter :: "rat \<Rightarrow> gint \<Rightarrow> 'b"
  rp_Allow :: "instant \<Rightarrow> 'b \<Rightarrow> bool \<times> 'b"

record 'b visitor =
  vs_limiter :: 'b
  vs_lastSeen :: instant

record 'b IPRateLimiter =
  rl_visitors :: "string \<rightharpoonup> 'b visitor"
  rl_rate :: rat
  rl_burst :: gint
  rl_ttl :: duration

definition NewIPRateLimiter :: "gint \<Rightarrow> gint \<Rightarrow> 'b IPRateLimiter" where
  "NewIPRateLimiter rpm burst =
    \<lparr>rl_visitors = Map.empty, rl_rate = of_int (sint rpm) / 60, rl_burst = burst,
     rl_ttl = 10 * 60 * 1000000000\<rparr>"

definition limiterFor ::
  "'b RatePkg \<Rightarrow> instant \<Rightarrow> 'b IPRateLimiter \<Rightarrow> string \<Rightarrow> 'b \<times> 'b IPRateLimiter" where
  "limiterFor pkg now l ip =
    (let v = (case rl_visitors l ip of
                Some v \<Rightarrow> v
              | None \<Rightarrow> \<lparr>vs_limiter = rp_NewLimiter pkg (rl_rate l) (rl_burst l), vs_lastSeen = 0\<rparr>);
         v = v\<lparr>vs_lastSeen := now\<rparr>
     in (vs_limiter v, l\<lparr>rl_visitors := (rl_visitors l)(ip \<mapsto> v)\<rparr>))"

text \<open>\<open>Allow\<close> changes the limiter that the visitor of the address points to.\<close>

definition allow_ip :: "'b RatePkg \<Rightarrow> instant \<Rightarrow> 'b IPRateLimiter \<Rightarrow> string \<Rightarrow> bool \<times> 'b IPRateLimiter" where
  "allow_ip pkg now l ip =
    (case limiterFor pkg now l ip of (b, l) \<Rightarrow>
     case rp_Allow pkg now b of (ok, b) \<Rightarrow>
     (ok, l\<lparr>rl_visitors := (rl_visitors l)(ip \<mapsto> \<lparr>vs_limiter = b, vs_lastSeen = now\<rparr>)\<rparr>))"

definition IPRateLimiter_Middleware ::
  "'b RatePkg \<Rightarrow> instant \<Rightarrow> ('b IPRateLimiter \<times> 'w) handler \<Rightarrow> ('b IPRateLimiter \<times> 'w) handler" where
  "IPRateLimiter_Middleware pkg now nxt s =
    (case s of ((l, w), c) \<Rightarrow>
     case allow_ip pkg now l (fc_IP c) of (ok, l) \<Rightarrow>
       if \<not> ok
       then fail (App (RateLimited CodeRateLimited (MessageFor CodeRateLimited))) ((l, w), c)
       else nxt ((l, w), c))"

definition evict :: "instant \<Rightarrow> 'b IPRateLimiter \<Rightarrow> 'b IPRateLimiter" where
  "evict now l =
    (let cutoff = now + - rl_ttl l
     in l\<lparr>rl_visitors := (\<lambda>ip. case rl_visitors l ip of
            None \<Rightarrow> None
          | Some v \<Rightarrow> if vs_lastSeen v < cutoff then None else Some v)\<rparr>)"

text \<open>
  The loop of \<open>StartJanitor\<close> selects a tick of its ticker or the end of its context; the result says
  whether the loop goes on.
\<close>

datatype janitor_event = JanitorTick instant | JanitorDone

fun janitor_select :: "janitor_event \<Rightarrow> 'b IPRateLimiter \<Rightarrow> bool \<times> 'b IPRateLimiter" where
  "janitor_select JanitorDone l = (False, l)"
| "janitor_select (JanitorTick now) l = (True, evict now l)"

fun StartJanitor :: "janitor_event list \<Rightarrow> 'b IPRateLimiter \<Rightarrow> 'b IPRateLimiter" where
  "StartJanitor [] l = l"
| "StartJanitor (e # es) l =
    (case janitor_select e l of (on, l) \<Rightarrow> if on then StartJanitor es l else l)"

section \<open>Evicting visitors changes no decision\<close>

text \<open>Requests and evictions as they come, each with its instant, and the decisions they get.\<close>

datatype limiter_event = Arrive string | Evict

fun decisions :: "'b RatePkg \<Rightarrow> 'b IPRateLimiter \<Rightarrow> (instant \<times> limiter_event) list \<Rightarrow> bool list" where
  "decisions pkg l [] = []"
| "decisions pkg l ((t, Arrive ip) # es) =
    (case allow_ip pkg t l ip of (ok, l) \<Rightarrow> ok # decisions pkg l es)"
| "decisions pkg l ((t, Evict) # es) = decisions pkg (evict t l) es"

definition arrivals :: "(instant \<times> limiter_event) list \<Rightarrow> (instant \<times> limiter_event) list" where
  "arrivals es = filter (\<lambda>e. snd e \<noteq> Evict) es"

text \<open>
  The law of a token bucket that matters here: a limiter last used more than \<open>d\<close> ago answers like a
  new one, from then on. \<open>B t b\<close> says that \<open>b\<close> is a limiter last used at \<open>t\<close>.
\<close>

definition refills :: "'b RatePkg \<Rightarrow> rat \<Rightarrow> gint \<Rightarrow> duration \<Rightarrow> (instant \<Rightarrow> 'b \<Rightarrow> bool) \<Rightarrow> bool" where
  "refills pkg r burst d B \<longleftrightarrow>
    (\<forall>t. B t (snd (rp_Allow pkg t (rp_NewLimiter pkg r burst)))) \<and>
    (\<forall>s b t. B s b \<and> s \<le> t \<longrightarrow> B t (snd (rp_Allow pkg t b))) \<and>
    (\<forall>s b t. B s b \<and> s + d < t \<longrightarrow> rp_Allow pkg t b = rp_Allow pkg t (rp_NewLimiter pkg r burst))"

lemma refillsD:
  assumes "refills pkg r burst d B"
  shows "B t (snd (rp_Allow pkg t (rp_NewLimiter pkg r burst)))"
    "B s b \<Longrightarrow> s \<le> t \<Longrightarrow> B t (snd (rp_Allow pkg t b))"
    "B s b \<Longrightarrow> s + d < t \<Longrightarrow> rp_Allow pkg t b = rp_Allow pkg t (rp_NewLimiter pkg r burst)"
  using assms unfolding refills_def by blast+

text \<open>The limiter with evictions against the one without: they differ in idle visitors only.\<close>

definition visitor_agrees ::
  "(instant \<Rightarrow> 'b \<Rightarrow> bool) \<Rightarrow> duration \<Rightarrow> instant \<Rightarrow> 'b visitor option \<Rightarrow> 'b visitor option \<Rightarrow> bool" where
  "visitor_agrees B d now x y \<longleftrightarrow>
    (case y of
       None \<Rightarrow> x = None
     | Some v \<Rightarrow> B (vs_lastSeen v) (vs_limiter v) \<and> vs_lastSeen v \<le> now \<and>
         (x = Some v \<or> x = None \<and> vs_lastSeen v + d < now))"

lemma visitor_agrees_simps [simp]:
  "visitor_agrees B d now x None \<longleftrightarrow> x = None"
  "visitor_agrees B d now (Some v) (Some v) \<longleftrightarrow> B (vs_lastSeen v) (vs_limiter v) \<and> vs_lastSeen v \<le> now"
  by (auto simp: visitor_agrees_def)

lemma visitor_agrees_later:
  "visitor_agrees B d now x y \<Longrightarrow> now \<le> t \<Longrightarrow> visitor_agrees B d t x y"
  by (auto simp: visitor_agrees_def split: option.splits)

definition agrees ::
  "(instant \<Rightarrow> 'b \<Rightarrow> bool) \<Rightarrow> duration \<Rightarrow> instant \<Rightarrow> 'b IPRateLimiter \<Rightarrow> 'b IPRateLimiter \<Rightarrow> bool" where
  "agrees B d now l m \<longleftrightarrow>
    rl_rate l = rl_rate m \<and> rl_burst l = rl_burst m \<and> rl_ttl l = d \<and> rl_ttl m = d \<and>
    (\<forall>ip. visitor_agrees B d now (rl_visitors l ip) (rl_visitors m ip))"

text \<open>The limiter a request meets, and what it leaves behind.\<close>

definition current :: "'b RatePkg \<Rightarrow> 'b IPRateLimiter \<Rightarrow> string \<Rightarrow> 'b" where
  "current pkg l ip =
    (case rl_visitors l ip of
       Some v \<Rightarrow> vs_limiter v | None \<Rightarrow> rp_NewLimiter pkg (rl_rate l) (rl_burst l))"

lemma allow_ip_current:
  "allow_ip pkg t l ip = (fst (rp_Allow pkg t (current pkg l ip)),
     l\<lparr>rl_visitors := (rl_visitors l)
       (ip \<mapsto> \<lparr>vs_limiter = snd (rp_Allow pkg t (current pkg l ip)), vs_lastSeen = t\<rparr>)\<rparr>)"
  by (auto simp: allow_ip_def limiterFor_def current_def Let_def split: prod.splits option.splits)

lemma current_agrees:
  assumes ref: "refills pkg (rl_rate m) (rl_burst m) d B" and agr: "agrees B d now l m" and le: "now \<le> t"
  shows "rp_Allow pkg t (current pkg l ip) = rp_Allow pkg t (current pkg m ip)"
    "B t (snd (rp_Allow pkg t (current pkg m ip)))"
proof -
  have v: "visitor_agrees B d now (rl_visitors l ip) (rl_visitors m ip)"
    and eq: "rl_rate l = rl_rate m" "rl_burst l = rl_burst m"
    using agr by (simp_all add: agrees_def)
  show "rp_Allow pkg t (current pkg l ip) = rp_Allow pkg t (current pkg m ip)"
    using v eq le refillsD(3) [OF ref] by (auto simp: current_def visitor_agrees_def split: option.splits)
  show "B t (snd (rp_Allow pkg t (current pkg m ip)))"
    using v le refillsD(1,2) [OF ref] by (auto simp: current_def visitor_agrees_def split: option.splits)
qed

lemma allow_ip_agrees:
  assumes "refills pkg (rl_rate m) (rl_burst m) d B" and "agrees B d now l m" and "now \<le> t"
  shows "fst (allow_ip pkg t l ip) = fst (allow_ip pkg t m ip) \<and>
    agrees B d t (snd (allow_ip pkg t l ip)) (snd (allow_ip pkg t m ip))"
  using current_agrees [OF assms, of ip] assms(2,3)
  by (auto simp: allow_ip_current agrees_def intro: visitor_agrees_later)

lemma evict_agrees:
  assumes "agrees B d now l m" and "now \<le> t"
  shows "agrees B d t (evict t l) m"
proof -
  have "visitor_agrees B d t (rl_visitors (evict t l) ip) (rl_visitors m ip)" for ip
  proof -
    have "visitor_agrees B d now (rl_visitors l ip) (rl_visitors m ip)" "rl_ttl l = d"
      using assms(1) by (simp_all add: agrees_def)
    with assms(2) show ?thesis
      by (auto simp: evict_def Let_def visitor_agrees_def split: option.splits)
  qed
  then show ?thesis using assms by (auto simp: agrees_def evict_def Let_def)
qed

lemma allow_ip_config:
  "rl_rate (snd (allow_ip pkg t l ip)) = rl_rate l" "rl_burst (snd (allow_ip pkg t l ip)) = rl_burst l"
  by (simp_all add: allow_ip_current)

lemma decisions_agree:
  assumes "refills pkg (rl_rate m) (rl_burst m) d B" and "agrees B d now l m"
    and "sorted (now # map fst es)"
  shows "decisions pkg l es = decisions pkg m (arrivals es)"
  using assms
proof (induction es arbitrary: now l m)
  case (Cons e es)
  obtain t ev where e: "e = (t, ev)" by fastforce
  have le: "now \<le> t" and srt: "sorted (t # map fst es)" using Cons.prems(3) by (simp_all add: e)
  show ?case
  proof (cases ev)
    case (Arrive ip)
    note a = allow_ip_agrees [OF Cons.prems(1,2) le, of ip]
    have "decisions pkg (snd (allow_ip pkg t l ip)) es =
        decisions pkg (snd (allow_ip pkg t m ip)) (arrivals es)"
      using Cons.prems(1) a srt by (intro Cons.IH [where now = t]) (simp_all add: allow_ip_config)
    with a show ?thesis by (simp add: e Arrive arrivals_def prod.case_eq_if)
  next
    case Evict
    have "decisions pkg (evict t l) es = decisions pkg m (arrivals es)"
      by (rule Cons.IH [OF Cons.prems(1) evict_agrees [OF Cons.prems(2) le] srt])
    then show ?thesis by (simp add: e Evict arrivals_def)
  qed
qed (simp add: arrivals_def)

section \<open>A token bucket\<close>

text \<open>An instance: tokens as a rational number, refilled at the rate per second up to the burst.\<close>

record bucket =
  bk_rate :: rat
  bk_burst :: rat
  bk_tokens :: rat
  bk_last :: instant

definition bucket_allow :: "instant \<Rightarrow> bucket \<Rightarrow> bool \<times> bucket" where
  "bucket_allow t b =
    (let n = min (bk_burst b) (bk_tokens b + bk_rate b * of_int (max 0 (t - bk_last b)) / 1000000000)
     in if 1 \<le> n then (True, b\<lparr>bk_tokens := n - 1, bk_last := t\<rparr>)
        else (False, b\<lparr>bk_tokens := n, bk_last := t\<rparr>))"

definition token_bucket :: "bucket RatePkg" where
  "token_bucket =
    \<lparr>rp_NewLimiter = (\<lambda>r n. \<lparr>bk_rate = r, bk_burst = of_int (sint n), bk_tokens = of_int (sint n), bk_last = 0\<rparr>),
     rp_Allow = bucket_allow\<rparr>"

lemma token_bucket_refills:
  assumes "0 \<le> r" and "0 \<le> sint n" and "of_int (sint n) \<le> r * of_int d / 1000000000" and "0 \<le> d"
  shows "refills token_bucket r n d
    (\<lambda>t b. bk_rate b = r \<and> bk_burst b = of_int (sint n) \<and> bk_last b = t \<and> 0 \<le> bk_tokens b)"
proof -
  have full: "of_int (sint n) \<le> tk + r * of_int (max 0 (t - s)) / 1000000000"
    if "0 \<le> tk" and "s + d < t" for s t tk
  proof -
    have "r * of_int d \<le> r * of_int (max 0 (t - s))"
      using that assms(1) by (intro mult_left_mono) auto
    with that assms(3) show ?thesis by simp
  qed
  have new: "min (of_int (sint n)) (of_int (sint n) + r * of_int (max 0 t) / 1000000000) = of_int (sint n)" for t
    using assms(1) by (simp add: min_def)
  have n0: "(0 :: rat) \<le> signed n"
    using assms(2) by (metis of_int_0_le_iff of_int_sint)
  then show ?thesis
    unfolding refills_def
  proof (intro conjI allI impI; (elim conjE)?)
    fix s t and b :: bucket
    assume "bk_rate b = r" "bk_burst b = of_int (sint n)" "bk_last b = s" "0 \<le> bk_tokens b" "s + d < t"
    then show "rp_Allow token_bucket t b = rp_Allow token_bucket t (rp_NewLimiter token_bucket r n)"
      using full [of "bk_tokens b" s t] new [of t]
      by (cases b) (simp add: token_bucket_def bucket_allow_def min_absorb1 Let_def)
  qed (use assms n0 in \<open>simp_all add: token_bucket_def bucket_allow_def Let_def\<close>)
qed

section \<open>Properties\<close>

text \<open>
  Claim C18. As long as an idle limiter has refilled after the ten minutes for which visitors are kept,
  throwing idle visitors away changes no decision of the rate limiter: every run of requests and
  evictions, at whatever times, gets the answers that the same requests get without evictions.
\<close>

theorem eviction_invisible:
  assumes "l = NewIPRateLimiter rpm burst"
    and "refills pkg (rl_rate l) (rl_burst l) (rl_ttl l) B" and "sorted (map fst es)"
  shows "decisions pkg l es = decisions pkg l (arrivals es)"
proof (cases es)
  case (Cons e es')
  have "agrees B (rl_ttl l) (fst e) l l"
    by (simp add: agrees_def assms(1) NewIPRateLimiter_def)
  from decisions_agree [OF assms(2) this, of es] assms(3) Cons show ?thesis by simp
qed (simp add: arrivals_def)

theorem eviction_invisible_witness:
  "decisions token_bucket (NewIPRateLimiter 30 1)
     [(0, Arrive ''10.0.0.1''), (1, Arrive ''10.0.0.1''), (700000000000, Evict),
      (700000000001, Arrive ''10.0.0.1'')] =
   decisions token_bucket (NewIPRateLimiter 30 1)
     [(0, Arrive ''10.0.0.1''), (1, Arrive ''10.0.0.1''), (700000000001, Arrive ''10.0.0.1'')]"
  using eviction_invisible [OF refl token_bucket_refills, of 30 1
    "[(0, Arrive ''10.0.0.1''), (1, Arrive ''10.0.0.1''), (700000000000, Evict),
      (700000000001, Arrive ''10.0.0.1'')]"]
  by (simp add: NewIPRateLimiter_def arrivals_def)

end
