(* ===== verification/Server.thy ===== *)
theory Server
  imports HouseholdHandler PickupHandler PaymentHandler Middleware RateLimit Config
begin

text \<open>
  \<open>internal/adapter/in/http\<close>: \<open>health.go\<close>, \<open>router.go\<close>, \<open>server.go\<close>. A route is a method, a pattern and
  a handler; the state of a handler here is the rate limiter together with the state behind the
  services.
\<close>

section \<open>Routes\<close>

type_synonym 'w route = "string \<times> string \<times> 'w handler"

text \<open>Fiber's \<open>Get\<close> serves \<open>HEAD\<close> too.\<close>

definition Get :: "string \<Rightarrow> 'w handler \<Rightarrow> 'w route list" where
  "Get p h = [(''HEAD'', p, h), (''GET'', p, h)]"

definition Post :: "string \<Rightarrow> 'w handler \<Rightarrow> 'w route list" where
  "Post p h = [(''POST'', p, h)]"

definition Put :: "string \<Rightarrow> 'w handler \<Rightarrow> 'w route list" where
  "Put p h = [(''PUT'', p, h)]"

definition Delete :: "string \<Rightarrow> 'w handler \<Rightarrow> 'w route list" where
  "Delete p h = [(''DELETE'', p, h)]"

text \<open>A handler of the services, next to a rate limiter that it leaves alone.\<close>

definition beside :: "'w handler \<Rightarrow> ('l \<times> 'w) handler" where
  "beside h s =
    (case s of ((l, w), c) \<Rightarrow> case h (w, c) of (r, (w, c)) \<Rightarrow> (r, ((l, w), c)))"

definition registerHealth :: "('w \<Rightarrow> go_error option \<times> 'w) \<Rightarrow> 'w route list" where
  "registerHealth ready =
    Get ''/healthz'' (respond (\<lambda>c. SendStatus c 200)) @
    Get ''/readyz'' (\<lambda>s. case s of (w, c) \<Rightarrow>
      (case ready w of
         (Some err, w) \<Rightarrow> fail (App (Unavailable CodeServiceUnavailable ''dependencies not ready'')) (w, c)
       | (None, w) \<Rightarrow> respond (\<lambda>c. SendStatus c 200) (w, c)))"

definition RegisterRoutes :: "Libs \<Rightarrow> 'w HouseholdHandler \<Rightarrow> uuid \<Rightarrow> ('l \<times> 'w) route list" where
  "RegisterRoutes lib h newID =
    Post ''/api/households'' (beside (HouseholdHandler_Create lib h newID)) @
    Get ''/api/households'' (beside (HouseholdHandler_List lib h)) @
    Get ''/api/households/:id'' (beside (HouseholdHandler_Get lib h)) @
    Delete ''/api/households/:id'' (beside (HouseholdHandler_Delete lib h))"

definition RegisterPickupRoutes ::
  "Libs \<Rightarrow> 'w PickupHandler \<Rightarrow> uuid \<Rightarrow> (('l \<times> 'w) handler \<Rightarrow> ('l \<times> 'w) handler) \<Rightarrow>
   ('l \<times> 'w) route list" where
  "RegisterPickupRoutes lib h newID rateLimit =
    Post ''/api/pickups'' (rateLimit (beside (PickupHandler_Create lib h newID))) @
    Get ''/api/pickups'' (beside (PickupHandler_List lib h)) @
    Put ''/api/pickups/:id/schedule'' (beside (PickupHandler_Schedule lib h)) @
    Put ''/api/pickups/:id/complete'' (beside (PickupHandler_Complete lib h newID)) @
    Put ''/api/pickups/:id/cancel'' (beside (PickupHandler_Cancel lib h))"

definition RegisterPaymentRoutes :: "Libs \<Rightarrow> 'w PaymentHandler \<Rightarrow> uuid \<Rightarrow> ('l \<times> 'w) route list" where
  "RegisterPaymentRoutes lib h newID =
    Post ''/api/payments'' (beside (PaymentHandler_Create lib h newID)) @
    Get ''/api/payments'' (beside (PaymentHandler_List lib h)) @
    Put ''/api/payments/:id/confirm'' (beside (PaymentHandler_Confirm lib h newID))"

definition RegisterReportRoutes :: "Libs \<Rightarrow> 'w ReportHandler \<Rightarrow> ('l \<times> 'w) route list" where
  "RegisterReportRoutes lib h =
    Get ''/api/reports/waste-summary'' (beside (ReportHandler_WasteSummary h)) @
    Get ''/api/reports/payment-summary'' (beside (ReportHandler_PaymentSummary h)) @
    Get ''/api/reports/households/:id/history'' (beside (ReportHandler_HouseholdHistory lib h))"

text \<open>The first route of the request's method whose pattern matches its path.\<close>

fun dispatch :: "Libs \<Rightarrow> 'w route list \<Rightarrow> 'w handler" where
  "dispatch lib [] (w, c) = (Returned (Some (lb_NoRoute lib c)), (w, c))"
| "dispatch lib ((m, p, h) # rs) (w, c) =
    (case (if fc_Method c = m then lb_Match lib p (fc_Path c) else None) of
       Some params \<Rightarrow> h (w, c\<lparr>fc_Route := p, fc_Params := params\<rparr>)
     | None \<Rightarrow> dispatch lib rs (w, c))"

section \<open>The server\<close>

text \<open>Of the CORS middleware what the program relies on: it answers preflight requests, which have
  the method \<open>OPTIONS\<close>, and lets every other request through.\<close>

definition CORS :: "Libs \<Rightarrow> string \<Rightarrow> 'w handler \<Rightarrow> 'w handler" where
  "CORS lib origins nxt s =
    (case s of (w, c) \<Rightarrow>
     case (if fc_Method c = ''OPTIONS'' then lb_Preflight lib origins c else None) of
       Some c \<Rightarrow> (Returned None, (w, c))
     | None \<Rightarrow> nxt (w, c))"

text \<open>The chain of \<open>NewServer\<close>, outermost middleware first.\<close>

definition NewServer ::
  "Libs \<Rightarrow> Config \<Rightarrow> logger \<Rightarrow> string \<Rightarrow> duration \<Rightarrow> 'w route list \<Rightarrow> 'w handler" where
  "NewServer lib cfg logger reqID latency routes =
    RequestID logger reqID
     (Recover
      (AccessLog latency
       (CORS lib (cf_CORSOrigins cfg)
        (Timeout (cf_RequestTimeout cfg)
         (dispatch lib routes)))))"

text \<open>What Fiber does with the result of the chain: an error goes to the \<open>ErrorHandler\<close> of the
  configuration. A panic outside of \<open>Recover\<close> would leave the request without an answer.\<close>

definition ErrorHandler :: "'w handler \<Rightarrow> 'w handler" where
  "ErrorHandler h s =
    (case h s of
       (Returned (Some err), (w, c)) \<Rightarrow> fail err (w, c)
     | r \<Rightarrow> r)"

end
