(* ===== verification/Endpoint.thy ===== *)
theory Endpoint
  imports Server
begin

text \<open>
  The contract of a handler, as a locale: for every request of the given methods it returns, without
  a panic, and \<open>allowed\<close> relates the state before, the state after, the request's method, the route
  that served it and what the client gets, a status and a body. Every middleware of the server keeps the contract
  of what it wraps, dispatching keeps the common contract of its routes, and the error handler
  turns the result into an answer.
\<close>

text \<open>The answer to a failed request, whatever its context, and the answer that a result stands for.\<close>

definition answer_to :: "go_error \<Rightarrow> int \<times> reply" where
  "answer_to err =
    (let c = snd (presenter_Error blank_ctx err) in (fc_Status c, fc_Reply c))"

lemma presenter_Error_sent:
  "fc_Status (snd (presenter_Error c err)) = fst (answer_to err)"
  "fc_Reply (snd (presenter_Error c err)) = snd (answer_to err)"
  by (simp_all add: answer_to_def presenter_Error_def writeAppError_def Let_def log_defs
      split: option.split prod.split)

lemma answer_to_Status: "fst (answer_to err) = StatusCode err"
  using presenter_Error_sent(1) [of blank_ctx err] by (simp add: presenter_Error_Status)

definition sent :: "go_error option \<Rightarrow> fctx \<Rightarrow> int \<times> reply" where
  "sent err c = (case err of None \<Rightarrow> (fc_Status c, fc_Reply c) | Some e \<Rightarrow> answer_to e)"

definition answers ::
  "('w \<Rightarrow> 'w \<Rightarrow> string \<Rightarrow> string \<Rightarrow> int \<times> reply \<Rightarrow> bool) \<Rightarrow> 'w \<times> fctx \<Rightarrow> result \<times> ('w \<times> fctx) \<Rightarrow> bool" where
  "answers allowed s r \<longleftrightarrow>
    (\<exists>err w' c'. r = (Returned err, (w', c')) \<and> fc_Method c' = fc_Method (snd s) \<and>
       allowed (fst s) w' (fc_Method c') (fc_Route c') (sent err c'))"

lemma answers_simps [simp]:
  "answers allowed (w, c) (Returned err, (w', c')) \<longleftrightarrow>
     fc_Method c' = fc_Method c \<and> allowed w w' (fc_Method c) (fc_Route c') (sent err c')"
  "\<not> answers allowed (w, c) (Panicked p, (w', c'))"
  by (auto simp: answers_def)

lemma answersE:
  assumes "answers allowed (w, c) r"
  obtains err w' c' where "r = (Returned err, (w', c'))" "fc_Method c' = fc_Method c"
    "allowed w w' (fc_Method c) (fc_Route c') (sent err c')"
  using assms by (auto simp: answers_def)

text \<open>Of the context of the request only the method matters.\<close>

lemma answers_context: "answers allowed (w, c) r \<Longrightarrow> fc_Method c' = fc_Method c \<Longrightarrow> answers allowed (w, c') r"
  by (simp add: answers_def)

lemma presenter_Error_keeps [simp]:
  "fc_Method (snd (presenter_Error c err)) = fc_Method c"
  "fc_Route (snd (presenter_Error c err)) = fc_Route c"
  by (simp_all add: presenter_Error_def writeAppError_def Let_def log_defs split: option.split prod.split)

lemma fail_simps: "fail err (w, c) = (Returned None, (w, snd (presenter_Error c err)))"
  by (simp add: fail_def)

lemma answers_fail:
  "answers allowed (w, c) (fail err (w', c')) \<longleftrightarrow>
     fc_Method c' = fc_Method c \<and> allowed w w' (fc_Method c) (fc_Route c') (answer_to err)"
  by (auto simp: fail_simps sent_def presenter_Error_sent)

locale endpoint =
  fixes methods :: "string set"
    and allowed :: "'w \<Rightarrow> 'w \<Rightarrow> string \<Rightarrow> string \<Rightarrow> int \<times> reply \<Rightarrow> bool"
    and h :: "'w handler"
  assumes contract: "fc_Method c \<in> methods \<Longrightarrow> answers allowed (w, c) (h (w, c))"
begin

lemma behind_RequestID: "endpoint methods allowed (RequestID logger i h)"
proof
  fix c :: fctx and w
  assume "fc_Method c \<in> methods"
  then show "answers allowed (w, c) (RequestID logger i h (w, c))"
    unfolding RequestID_def Let_def prod.case
    by - (rule answers_context [OF contract], simp_all add: WithLogger_def)
qed

lemma behind_Recover: "endpoint methods allowed (Recover h)"
proof
  fix c :: fctx and w
  assume "fc_Method c \<in> methods"
  from contract [OF this, of w] show "answers allowed (w, c) (Recover h (w, c))"
    by (rule answersE) (simp add: Recover_def)
qed

lemma behind_AccessLog: "endpoint methods allowed (AccessLog d h)"
proof
  fix c :: fctx and w
  assume "fc_Method c \<in> methods"
  from contract [OF this, of w] show "answers allowed (w, c) (AccessLog d h (w, c))"
    by (rule answersE) (auto simp: AccessLog_def sent_def Let_def split: option.splits)
qed

lemma behind_Timeout: "endpoint methods allowed (Timeout d h)"
proof
  fix c :: fctx and w
  assume "fc_Method c \<in> methods"
  then show "answers allowed (w, c) (Timeout d h (w, c))"
    unfolding Timeout_def prod.case by - (rule answers_context [OF contract], simp_all)
qed

lemma behind_CORS:
  assumes "\<And>w c c'. fc_Method c \<in> methods \<Longrightarrow> fc_Method c = ''OPTIONS'' \<Longrightarrow>
      lb_Preflight lib origins c = Some c' \<Longrightarrow>
      fc_Method c' = ''OPTIONS'' \<and> allowed w w ''OPTIONS'' (fc_Route c') (fc_Status c', fc_Reply c')"
  shows "endpoint methods allowed (CORS lib origins h)"
proof
  fix c :: fctx and w
  assume "fc_Method c \<in> methods"
  note c = this contract [OF this, of w]
  show "answers allowed (w, c) (CORS lib origins h (w, c))"
  proof (cases "if fc_Method c = ''OPTIONS'' then lb_Preflight lib origins c else None")
    case (Some c')
    then have m: "fc_Method c = ''OPTIONS''" "lb_Preflight lib origins c = Some c'"
      by (simp_all split: if_splits)
    with assms [OF c(1) m, of w] show ?thesis by (simp add: CORS_def sent_def)
  next
    case None
    with c(2) show ?thesis by (simp add: CORS_def)
  qed
qed

lemma answered:
  assumes "fc_Method c \<in> methods"
  shows "\<exists>w' c'. ErrorHandler h (w, c) = (Returned None, (w', c')) \<and>
    allowed w w' (fc_Method c) (fc_Route c') (fc_Status c', fc_Reply c')"
proof -
  from contract [OF assms, of w] obtain err w' c' where
    r: "h (w, c) = (Returned err, (w', c'))" "fc_Method c' = fc_Method c"
      "allowed w w' (fc_Method c) (fc_Route c') (sent err c')"
    by (rule answersE) simp
  then show ?thesis
    by (cases err) (auto simp: ErrorHandler_def sent_def fail_simps presenter_Error_sent)
qed

end

text \<open>A route whose handler keeps the contract for the requests it gets.\<close>

definition route_ok ::
  "string set \<Rightarrow> ('w \<Rightarrow> 'w \<Rightarrow> string \<Rightarrow> string \<Rightarrow> int \<times> reply \<Rightarrow> bool) \<Rightarrow> 'w route \<Rightarrow> bool" where
  "route_ok methods allowed r \<longleftrightarrow>
    (case r of (m, p, h) \<Rightarrow> m \<in> methods \<longrightarrow>
       (\<forall>w c. fc_Method c = m \<and> fc_Route c = p \<longrightarrow> answers allowed (w, c) (h (w, c))))"

lemma endpoint_dispatch:
  assumes "list_all (route_ok methods allowed) rs"
    and "\<And>w (c :: fctx). fc_Method c \<in> methods \<Longrightarrow>
      allowed w w (fc_Method c) (fc_Route c) (answer_to (lb_NoRoute lib c))"
  shows "endpoint methods allowed (dispatch lib rs)"
proof
  fix c :: fctx and w
  assume c: "fc_Method c \<in> methods"
  show "answers allowed (w, c) (dispatch lib rs (w, c))"
    using assms(1)
  proof (induction rs)
    case Nil
    then show ?case using assms(2) [OF c] by (simp add: sent_def)
  next
    case (Cons r rs)
    obtain m p h where r: "r = (m, p, h)" by (rule prod_cases3)
    have "answers allowed (w, c) (h (w, c\<lparr>fc_Route := p, fc_Params := ps\<rparr>))" if "fc_Method c = m" for ps
      by (rule answers_context [where c = "c\<lparr>fc_Route := p, fc_Params := ps\<rparr>"])
        (use Cons.prems c that in \<open>simp_all add: r route_ok_def\<close>)
    with Cons show ?case by (auto simp: r split: option.split)
  qed
qed

text \<open>The server of the program in front of routes that keep a contract.\<close>

lemma endpoint_NewServer:
  assumes "\<And>w c c'. fc_Method c \<in> methods \<Longrightarrow> fc_Method c = ''OPTIONS'' \<Longrightarrow>
      lb_Preflight lib (cf_CORSOrigins cfg) c = Some c' \<Longrightarrow>
      fc_Method c' = ''OPTIONS'' \<and> allowed w w ''OPTIONS'' (fc_Route c') (fc_Status c', fc_Reply c')"
    and "endpoint methods allowed (dispatch lib rs)"
  shows "endpoint methods allowed (NewServer lib cfg logger i d rs)"
  unfolding NewServer_def
  by (intro endpoint.behind_RequestID endpoint.behind_Recover endpoint.behind_AccessLog
      endpoint.behind_CORS endpoint.behind_Timeout assms(2); rule assms(1); assumption)

end
