(* ===== verification/Worker.thy ===== *)
theory Worker
  imports Driving
begin

text \<open>
  \<open>internal/adapter/in/worker\<close>: the scheduler and its one job, the sweep of stale organic pickups. The
  goroutines of the scheduler share the state behind the services with the rest of the program, so
  a run is a list of events: what others do meanwhile, a tick that the loop of a job selects, the
  end of the context that it selects.
\<close>

record 'w Job =
  jb_Name :: string
  jb_Interval :: duration
  jb_Run :: "'w \<times> entry list \<Rightarrow> go_error option \<times> ('w \<times> entry list)"

record 'w Scheduler =
  sc_jobs :: "'w Job list"
  sc_logger :: logger

definition worker_New :: "logger \<Rightarrow> 'w Job list \<Rightarrow> 'w Scheduler" where
  "worker_New logger jobs = \<lparr>sc_jobs = jobs, sc_logger = logger\<rparr>"

definition AutoCancelOrganic :: "'w PickupPort \<Rightarrow> duration \<Rightarrow> logger \<Rightarrow> 'w Job" where
  "AutoCancelOrganic pickups interval logger =
    \<lparr>jb_Name = ''autocancel_organic'', jb_Interval = interval,
     jb_Run = (\<lambda>(w, lg).
       case ip_CancelStaleOrganic pickups None w of
         (Inl err, w) \<Rightarrow> (Some err, (w, lg))
       | (Inr n, w) \<Rightarrow>
           (None, (w, if 0 < n
              then lg @ [\<lparr>en_Level = LevelInfo, en_Message = ''autocancel_organic_swept'',
                en_Fields = logger @ [IntField ''canceled'' (int n)]\<rparr>]
              else lg)))\<rparr>"

section \<open>The loop of a job\<close>

text \<open>\<open>time.NewTicker\<close> panics for an interval that is not positive, and nobody recovers a panic of
  this goroutine: the process ends.\<close>

datatype loop = Waiting | Finished | Crashed

definition runJob_start :: "'w Job \<Rightarrow> loop" where
  "runJob_start job = (if jb_Interval job \<le> 0 then Crashed else Waiting)"

definition runJob_tick :: "logger \<Rightarrow> 'w Job \<Rightarrow> 'w \<times> entry list \<Rightarrow> 'w \<times> entry list" where
  "runJob_tick logger job s =
    (case jb_Run job s of
       (Some err, (w, lg)) \<Rightarrow>
         (w, lg @ [\<lparr>en_Level = LevelError, en_Message = ''worker_job_failed'',
            en_Fields = logger @ [StringField ''job'' (jb_Name job), ErrorField err]\<rparr>])
     | (None, s) \<Rightarrow> s)"

section \<open>The scheduler\<close>

datatype 'w worker_event = Meanwhile "'w \<Rightarrow> 'w" | TickOf nat | DoneOf nat

record 'w running =
  rn_loops :: "loop list"
  rn_state :: "'w \<times> entry list"

definition Scheduler_start :: "'w Scheduler \<Rightarrow> 'w \<Rightarrow> 'w running" where
  "Scheduler_start s w = \<lparr>rn_loops = map runJob_start (sc_jobs s), rn_state = (w, [])\<rparr>"

fun Scheduler_step :: "'w Scheduler \<Rightarrow> 'w running \<Rightarrow> 'w worker_event \<Rightarrow> 'w running" where
  "Scheduler_step s r (Meanwhile f) = r\<lparr>rn_state := (f (fst (rn_state r)), snd (rn_state r))\<rparr>"
| "Scheduler_step s r (TickOf i) =
     (if i < length (rn_loops r) \<and> rn_loops r ! i = Waiting
      then r\<lparr>rn_state := runJob_tick (sc_logger s) (sc_jobs s ! i) (rn_state r)\<rparr> else r)"
| "Scheduler_step s r (DoneOf i) =
     (if i < length (rn_loops r) \<and> rn_loops r ! i = Waiting
      then r\<lparr>rn_loops := (rn_loops r)[i := Finished]\<rparr> else r)"

definition Scheduler_run :: "'w Scheduler \<Rightarrow> 'w \<Rightarrow> 'w worker_event list \<Rightarrow> 'w running" where
  "Scheduler_run s w es = foldl (Scheduler_step s) (Scheduler_start s w) es"

text \<open>\<open>wg.Wait()\<close> lets \<open>Start\<close> return when every loop has returned.\<close>

definition Start_returned :: "'w running \<Rightarrow> bool" where
  "Start_returned r \<longleftrightarrow> list_all (\<lambda>l. l = Finished) (rn_loops r)"

section \<open>Lemmas\<close>

lemma Scheduler_step_loops:
  "rn_loops (Scheduler_step s r e) =
    (case e of
       DoneOf i \<Rightarrow> if i < length (rn_loops r) \<and> rn_loops r ! i = Waiting
         then (rn_loops r)[i := Finished] else rn_loops r
     | _ \<Rightarrow> rn_loops r)"
  by (cases e) auto

lemma Scheduler_run_snoc: "Scheduler_run s w (es @ [e]) = Scheduler_step s (Scheduler_run s w es) e"
  by (simp add: Scheduler_run_def)

lemma Scheduler_run_loops:
  assumes "\<forall>j \<in> set (sc_jobs s). 0 < jb_Interval j"
  shows "length (rn_loops (Scheduler_run s w es)) = length (sc_jobs s) \<and>
    (\<forall>i < length (sc_jobs s). rn_loops (Scheduler_run s w es) ! i =
       (if DoneOf i \<in> set es then Finished else Waiting))"
proof (induction es rule: rev_induct)
  case Nil
  have "runJob_start (sc_jobs s ! i) = Waiting" if "i < length (sc_jobs s)" for i
    using assms that by (simp add: runJob_start_def not_le)
  then show ?case by (simp add: Scheduler_run_def Scheduler_start_def)
next
  case (snoc e es)
  then show ?case
    by (cases e) (auto simp: Scheduler_run_snoc nth_list_update)
qed

section \<open>Properties\<close>

text \<open>
  With positive intervals \<open>Start\<close> returns exactly when the loop of every job has seen the end
  of the context; sweeps, failed ones included, and whatever the rest of the program does in between
  neither stop a loop nor keep one alive.
\<close>

theorem Start_returns_iff:
  assumes "\<forall>j \<in> set (sc_jobs s). 0 < jb_Interval j"
  shows "Start_returned (Scheduler_run s w es) \<longleftrightarrow> list_all (\<lambda>i. DoneOf i \<in> set es) [0..<length (sc_jobs s)]"
  using Scheduler_run_loops [OF assms, of w es]
  by (auto simp: Start_returned_def list_all_length)

theorem Start_returns_iff_witness:
  "Start_returned (Scheduler_run
     (worker_New [] [\<lparr>jb_Name = ''count'', jb_Interval = 60, jb_Run = (\<lambda>(n, lg). (None, (n + 1, lg)))\<rparr>])
     (0 :: nat) [TickOf 0, TickOf 0, DoneOf 0])"
proof -
  let ?s = "worker_New [] [\<lparr>jb_Name = ''count'', jb_Interval = 60, jb_Run = (\<lambda>(n, lg). (None, (n + 1, lg)))\<rparr>]
    :: nat Scheduler"
  have "\<forall>j \<in> set (sc_jobs ?s). 0 < jb_Interval j"
    by (simp add: worker_New_def)
  from Start_returns_iff [OF this] show ?thesis
    by (simp add: worker_New_def)
qed

end
