(* ===== verification/Web.thy ===== *)
theory Web
  imports System Endpoint Worker
begin

text \<open>
  The whole program behind its network interface: the routes of \<open>app.go\<close> over the services, the
  repositories and the object store, in front of them the server's middleware, beside them the
  worker and the janitor of the rate limiter.
\<close>

section \<open>Wiring\<close>

text \<open>\<open>Ping\<close> of the pool, and \<open>BucketExists\<close>: round trips whose answer nobody reads.\<close>

definition ping :: "world \<Rightarrow> go_error option \<times> world" where
  "ping w =
    (case next_outcome w of
       (Reply, w) \<Rightarrow> (None, w)
     | (Refused e, w) \<Rightarrow> (Some e, w)
     | (ReplyLost e, w) \<Rightarrow> (Some e, w))"

definition MinIO_Ping :: "MinIO \<Rightarrow> world \<Rightarrow> go_error option \<times> world" where
  "MinIO_Ping m w = ping w"

definition app_ready :: "Config \<Rightarrow> world \<Rightarrow> go_error option \<times> world" where
  "app_ready cfg w =
    (case ping w of
       (Some err, w) \<Rightarrow> (Some err, w)
     | (None, w) \<Rightarrow> MinIO_Ping (NewMinIO (cf_MinIO cfg)) w)"

definition app_limiter :: "Config \<Rightarrow> 'b IPRateLimiter" where
  "app_limiter cfg = NewIPRateLimiter (lc_RPM (cf_RateLimit cfg)) (lc_Burst (cf_RateLimit cfg))"

definition app_routes ::
  "Libs \<Rightarrow> 'b RatePkg \<Rightarrow> Config \<Rightarrow> uuid \<Rightarrow> instant \<Rightarrow> ('b IPRateLimiter \<times> world) route list" where
  "app_routes lib pkg cfg newID now =
    registerHealth (\<lambda>(l, w). case app_ready cfg w of (err, w) \<Rightarrow> (err, (l, w))) @
    RegisterRoutes lib (NewHouseholdHandler (household_port householdService)) newID @
    RegisterPickupRoutes lib (NewPickupHandler (pickup_port (pickupService cfg))) newID
      (IPRateLimiter_Middleware pkg now) @
    RegisterPaymentRoutes lib
      (NewPaymentHandler (payment_port (lb_String lib) (paymentService cfg))
        \<lparr>up_MaxBytes = cf_UploadLimitBytes cfg, up_AllowedTypes = cf_UploadAllowedTypes cfg\<rparr>) newID @
    RegisterReportRoutes lib (NewReportHandler (report_port reportService))"

text \<open>One request: \<open>i\<close> is the UUID for its request ID, \<open>newID\<close> the one a use case may draw.\<close>

definition app_serve ::
  "Libs \<Rightarrow> 'b RatePkg \<Rightarrow> Config \<Rightarrow> logger \<Rightarrow> string \<Rightarrow> duration \<Rightarrow> uuid \<Rightarrow>
   ('b IPRateLimiter \<times> world) handler" where
  "app_serve lib pkg cfg logger i d newID s =
     ErrorHandler (NewServer lib cfg logger i d
       (app_routes lib pkg cfg newID (wd_now (snd (fst s))))) s"

definition app_scheduler :: "Config \<Rightarrow> logger \<Rightarrow> world Scheduler" where
  "app_scheduler cfg logger =
     worker_New logger
       [AutoCancelOrganic (pickup_port (pickupService cfg)) (kc_SweepInterval (cf_Worker cfg)) logger]"

section \<open>What the third-party functions are documented to do\<close>

definition libs_ok :: "Libs \<Rightarrow> bool" where
  "libs_ok lib \<longleftrightarrow> documented (lb_Validate lib) \<and>
     (\<forall>c. \<exists>n msg. lb_NoRoute lib c = FiberError n msg \<and> 400 \<le> n) \<and>
     (\<forall>origins c c'. lb_Preflight lib origins c = Some c' \<longrightarrow>
        fc_Method c' = fc_Method c \<and> fc_Status c' = 204)"

section \<open>The contract of the API\<close>

text \<open>The endpoint that serves a use case, and the status of its success.\<close>

fun endpoint_of :: "request \<Rightarrow> (string \<times> string \<times> int) option" where
  "endpoint_of (ReqCreateHousehold cmd i) = Some (''POST'', ''/api/households'', 201)"
| "endpoint_of (ReqListHouseholds p) = Some (''GET'', ''/api/households'', 200)"
| "endpoint_of (ReqGetHousehold i) = Some (''GET'', ''/api/households/:id'', 200)"
| "endpoint_of (ReqDeleteHousehold i) = Some (''DELETE'', ''/api/households/:id'', 204)"
| "endpoint_of (ReqCreatePickup cmd i) = Some (''POST'', ''/api/pickups'', 201)"
| "endpoint_of (ReqListPickups f p) = Some (''GET'', ''/api/pickups'', 200)"
| "endpoint_of (ReqSchedulePickup i cmd) = Some (''PUT'', ''/api/pickups/:id/schedule'', 200)"
| "endpoint_of (ReqCompletePickup i j) = Some (''PUT'', ''/api/pickups/:id/complete'', 200)"
| "endpoint_of (ReqCancelPickup i) = Some (''PUT'', ''/api/pickups/:id/cancel'', 200)"
| "endpoint_of (ReqCreatePayment cmd i) = Some (''POST'', ''/api/payments'', 201)"
| "endpoint_of (ReqListPayments f p) = Some (''GET'', ''/api/payments'', 200)"
| "endpoint_of (ReqConfirmPayment i inp j) = Some (''PUT'', ''/api/payments/:id/confirm'', 200)"
| "endpoint_of ReqWasteSummary = Some (''GET'', ''/api/reports/waste-summary'', 200)"
| "endpoint_of ReqPaymentSummary = Some (''GET'', ''/api/reports/payment-summary'', 200)"
| "endpoint_of (ReqHistory i) = Some (''GET'', ''/api/reports/households/:id/history'', 200)"
| "endpoint_of ReqSweep = None"

definition serves :: "request \<Rightarrow> string \<Rightarrow> string \<Rightarrow> int \<Rightarrow> bool" where
  "serves rq m p n \<longleftrightarrow>
    (case endpoint_of rq of
       Some (m', p', n') \<Rightarrow> (m = m' \<or> m = ''HEAD'' \<and> m' = ''GET'') \<and> p = p' \<and> n = n'
     | None \<Rightarrow> False)"

text \<open>The body of a success: what the use case returns, as the presenter writes it.\<close>

definition on_success :: "('a \<Rightarrow> json) \<Rightarrow> (go_error + 'a) \<times> world \<Rightarrow> json option" where
  "on_success f r = (case fst r of Inl err \<Rightarrow> None | Inr a \<Rightarrow> Some (f a))"

definition data_json :: "('a \<Rightarrow> json) \<Rightarrow> 'a \<Rightarrow> json" where
  "data_json f a = JObject [(''data'', f a)]"

definition page_json :: "('a \<Rightarrow> json) \<Rightarrow> Params \<Rightarrow> 'a list \<times> nat \<Rightarrow> json" where
  "page_json f params a =
    JObject [(''data'', JArray (map f (fst a))), (''meta'', Meta_json (NewMeta params (snd a)))]"

abbreviation household_json :: "Libs \<Rightarrow> Household \<Rightarrow> json" where
  "household_json lib \<equiv> HouseholdResponse_json \<circ> NewHouseholdResponse (lb_String lib)"

abbreviation pickup_json :: "Libs \<Rightarrow> Pickup \<Rightarrow> json" where
  "pickup_json lib \<equiv> PickupResponse_json \<circ> NewPickupResponse (lb_String lib)"

abbreviation payment_json :: "Libs \<Rightarrow> Payment \<Rightarrow> json" where
  "payment_json lib \<equiv> PaymentResponse_json \<circ> NewPaymentResponse (lb_String lib)"

fun body :: "Libs \<Rightarrow> Config \<Rightarrow> request \<Rightarrow> world \<Rightarrow> json option" where
  "body lib cfg (ReqCreateHousehold cmd i) w =
     on_success (data_json (household_json lib)) (household_Create householdService None cmd i w)"
| "body lib cfg (ReqGetHousehold i) w =
     on_success (data_json (household_json lib)) (household_Get householdService None i w)"
| "body lib cfg (ReqListHouseholds p) w =
     on_success (page_json (household_json lib) p) (household_List householdService None p w)"
| "body lib cfg (ReqDeleteHousehold i) w = None"
| "body lib cfg (ReqCreatePickup cp i) w =
     on_success (data_json (pickup_json lib)) (pickup_Create (pickupService cfg) None cp i w)"
| "body lib cfg (ReqListPickups pf p) w =
     on_success (page_json (pickup_json lib) p) (pickup_List (pickupService cfg) None pf p w)"
| "body lib cfg (ReqSchedulePickup i sp) w =
     on_success (data_json (pickup_json lib)) (pickup_Schedule (pickupService cfg) None i sp w)"
| "body lib cfg (ReqCompletePickup i j) w =
     on_success (data_json (pickup_json lib)) (pickup_Complete (pickupService cfg) None i j w)"
| "body lib cfg (ReqCancelPickup i) w =
     on_success (data_json (pickup_json lib)) (pickup_Cancel (pickupService cfg) None i w)"
| "body lib cfg ReqSweep w = None"
| "body lib cfg (ReqCreatePayment cy i) w =
     on_success (data_json (payment_json lib)) (payment_Create (paymentService cfg) None cy i w)"
| "body lib cfg (ReqListPayments yf p) w =
     on_success (page_json (payment_json lib) p) (payment_List (paymentService cfg) None yf p w)"
| "body lib cfg (ReqConfirmPayment i ci j) w =
     on_success (data_json (payment_json lib))
       (payment_Confirm (lb_String lib) (paymentService cfg) None i ci j w)"
| "body lib cfg ReqWasteSummary w =
     on_success (data_json (WasteSummaryResponse_json \<circ> NewWasteSummaryResponse))
       (report_WasteSummary reportService None w)"
| "body lib cfg ReqPaymentSummary w =
     on_success (data_json (PaymentSummaryResponse_json \<circ> NewPaymentSummaryResponse))
       (report_PaymentSummary reportService None w)"
| "body lib cfg (ReqHistory i) w =
     on_success (data_json (HouseholdHistoryResponse_json \<circ> NewHouseholdHistoryResponse (lb_String lib)))
       (report_HouseholdHistory reportService None i w)"

text \<open>The answer to a success: its status and body, if the body can be encoded.\<close>

definition success :: "int \<Rightarrow> json option \<Rightarrow> int \<times> reply \<Rightarrow> bool" where
  "success ok j a \<longleftrightarrow>
    (case j of
       None \<Rightarrow> fst a = ok
     | Some j \<Rightarrow> a = (if encodable j then (ok, JSONReply j)
                      else (500, generic_reply)))"

text \<open>The state is as before but for round trips that changed nothing.\<close>

definition untouched :: "world \<Rightarrow> world \<Rightarrow> bool" where
  "untouched w w' \<longleftrightarrow> (\<exists>xs. w' = w\<lparr>wd_net := xs\<rparr> \<and> set xs \<subseteq> set (wd_net w))"

text \<open>
  A request is turned away with the state untouched, or it is a preflight, or finds the service alive,
  or it runs the use case of its endpoint: the answer is the one to its error, or its result with
  the status of the endpoint.
\<close>

definition api ::
  "Libs \<Rightarrow> Config \<Rightarrow> world \<Rightarrow> world \<Rightarrow> string \<Rightarrow> string \<Rightarrow> int \<times> reply \<Rightarrow> bool" where
  "api lib cfg w w' m p a \<longleftrightarrow>
    (untouched w w' \<and> ((\<exists>err. a = answer_to err \<and> 400 \<le> StatusCode err) \<or>
       fst a = 200 \<and> p \<in> set [''/healthz'', ''/readyz''] \<or> fst a = 204 \<and> m = ''OPTIONS'')) \<or>
    (\<exists>rq ok. serves rq m p ok \<and> w' = serve (lb_String lib) cfg rq w \<and>
       (case fst (answer (lb_String lib) cfg rq w) of
          Inl err \<Rightarrow> a = answer_to err
        | Inr _ \<Rightarrow> success ok (body lib cfg rq w) a))"

lemma untouched_refl [simp]: "untouched w w"
  unfolding untouched_def by (rule exI [of _ "wd_net w"]) simp

lemma api_refused: "400 \<le> StatusCode err \<Longrightarrow> api lib cfg w w m p (answer_to err)"
  by (auto simp: api_def)

lemma StatusCode_invalid [simp]:
  "StatusCode (invalid msg) = 400" "StatusCode (invalid_field msg f r) = 400"
  "Kind ae = KindValidation \<Longrightarrow> StatusCode (App ae) = 400"
  by (simp_all add: StatusCode_def invalid_def invalid_field_def Validation_def Err_Status_def)

section \<open>Handlers\<close>

lemma StatusCode_Opaque [simp]: "StatusCode (Opaque s) = 500"
  by (simp add: StatusCode_def errors_As_def)

lemma answer_to_Opaque [simp]: "answer_to (Opaque s) = (500, generic_reply)"
  by (simp add: answer_to_def Let_def presenter_Error_internal internal_error_def errors_As_def)

text \<open>A handler that presents \<open>j\<close> with status \<open>n\<close>.\<close>

definition replies :: "int \<Rightarrow> json option \<Rightarrow> 'w \<times> fctx \<Rightarrow> result \<times> ('w \<times> fctx) \<Rightarrow> bool" where
  "replies n j s r \<longleftrightarrow>
    (\<exists>err c'. r = (Returned err, (fst s, c')) \<and> fc_Method c' = fc_Method (snd s) \<and>
       fc_Route c' = fc_Route (snd s) \<and> success n j (sent err c'))"

lemma replies_presenter:
  "replies n (Some (JObject [(''data'', j)])) (w, c) (respond (\<lambda>c. presenter_Success c n j) (w, c))"
  "replies n (Some (JObject [(''data'', j), (''meta'', k)])) (w, c)
     (respond (\<lambda>c. presenter_List c n j k) (w, c))"
  "replies 204 None (w, c) (respond presenter_NoContent (w, c))"
  by (simp_all add: replies_def presenter_Success_cases presenter_List_cases presenter_NoContent_def
      SendStatus_def sent_def success_def)

lemmas replies_simps [simp] = replies_presenter [unfolded respond_simps]

lemma replies_page:
  "replies m j s (k (fst a) (snd a)) \<Longrightarrow> replies m j s (case a of (items, n) \<Rightarrow> k items n)"
  by (simp add: prod.case_eq_if)

text \<open>The contract of a handler, which leaves the route of the request alone.\<close>

definition handled :: "Libs \<Rightarrow> Config \<Rightarrow> world \<times> fctx \<Rightarrow> result \<times> (world \<times> fctx) \<Rightarrow> bool" where
  "handled lib cfg s r \<longleftrightarrow>
    answers (\<lambda>w w' m p a. p = fc_Route (snd s) \<and> api lib cfg w w' m p a) s r"

lemma answers_use_case:
  assumes "answer (lb_String lib) cfg rq w = verdict r" and "serves rq (fc_Method c) (fc_Route c) n"
    and "\<And>x w'. r = (Inr x, w') \<Longrightarrow> replies n (body lib cfg rq w) (w', c) (k x w')"
  shows "handled lib cfg (w, c)
    (case r of (x, w') \<Rightarrow> case x of Inl err \<Rightarrow> fail err (w', c) | Inr a \<Rightarrow> k a w')"
proof -
  obtain x w' where r: "r = (x, w')" by fastforce
  have w': "w' = serve (lb_String lib) cfg rq w"
    using assms(1) by (simp add: serve_def r)
  show ?thesis
  proof (cases x)
    case (Inl err)
    with assms(1) have "fst (answer (lb_String lib) cfg rq w) = Inl err" by (simp add: r)
    with assms(2) have "api lib cfg w w' (fc_Method c) (fc_Route c) (answer_to err)"
      unfolding api_def w' by (intro disjI2 exI [of _ rq] exI [of _ n]) simp
    then show ?thesis by (simp add: r Inl answers_fail handled_def)
  next
    case (Inr x')
    with assms(1) have "fst (answer (lb_String lib) cfg rq w) = Inr ()"
      by (simp add: r verdict_def)
    with assms(2) have a: "success n (body lib cfg rq w) a \<Longrightarrow>
        api lib cfg w w' (fc_Method c) (fc_Route c) a" for a
      unfolding api_def w' by (intro disjI2 exI [of _ rq] exI [of _ n]) simp
    from assms(3) [of x' w'] obtain err c' where
      "k x' w' = (Returned err, (w', c'))" "fc_Method c' = fc_Method c" "fc_Route c' = fc_Route c"
      "success n (body lib cfg rq w) (sent err c')"
      by (auto simp: r Inr replies_def)
    with a [of "sent err c'"] show ?thesis by (simp add: r Inr handled_def)
  qed
qed

lemma answers_reject:
  "400 \<le> StatusCode err \<Longrightarrow> handled lib cfg (w, c) (fail err (w, c))"
  by (simp add: answers_fail handled_def api_refused)

lemma answers_invalid:
  "handled lib cfg (w, c) (fail (invalid msg) (w, c))"
  "handled lib cfg (w, c) (fail (invalid_field msg f r) (w, c))"
  "validator_Struct pg x = Some err \<Longrightarrow> handled lib cfg (w, c) (fail (App err) (w, c))"
  "parseID lib raw = Inl e \<Longrightarrow> handled lib cfg (w, c) (fail e (w, c))"
  "buildPickupFilter lib pq = Inl e \<Longrightarrow> handled lib cfg (w, c) (fail e (w, c))"
  "buildPaymentFilter lib yq = Inl e \<Longrightarrow> handled lib cfg (w, c) (fail e (w, c))"
  by (intro answers_reject; auto simp: parseID_def buildPickupFilter_def buildPaymentFilter_def
      filter_id_def filter_date_def Let_def dest: validator_Struct_Validation
      split: option.splits if_splits sum.splits)+

lemmas port_defs = household_port_def pickup_port_def payment_port_def report_port_def
  NewHouseholdHandler_def NewPickupHandler_def NewPaymentHandler_def NewReportHandler_def

lemmas body_defs = on_success_def data_json_def page_json_def NewHouseholdResponses_def
  NewPickupResponses_def NewPaymentResponses_def

named_theorems handler_api

lemma HouseholdHandler_Create_api [handler_api]:
  assumes "fc_Method c = ''POST''" and "fc_Route c = ''/api/households''"
  shows "handled lib cfg (w, c)
    (HouseholdHandler_Create lib (NewHouseholdHandler (household_port householdService)) newID (w, c))"
  unfolding HouseholdHandler_Create_def prod.case Let_def
  by (auto simp: answers_invalid port_defs serves_def body_defs assms split: option.split sum.split
      intro!: replies_page answers_use_case [where n = 201 and
        rq = "ReqCreateHousehold _ newID"])

lemma HouseholdHandler_List_api [handler_api]:
  assumes "fc_Method c \<in> {''GET'', ''HEAD''}" and "fc_Route c = ''/api/households''"
  shows "handled lib cfg (w, c)
    (HouseholdHandler_List lib (NewHouseholdHandler (household_port householdService)) (w, c))"
  unfolding HouseholdHandler_List_def prod.case Let_def using assms(1)
  by (auto simp: answers_invalid port_defs serves_def body_defs assms split: option.split sum.split
      intro!: replies_page answers_use_case [where n = 200 and rq = "ReqListHouseholds _"])

lemma HouseholdHandler_Get_api [handler_api]:
  assumes "fc_Method c \<in> {''GET'', ''HEAD''}" and "fc_Route c = ''/api/households/:id''"
  shows "handled lib cfg (w, c)
    (HouseholdHandler_Get lib (NewHouseholdHandler (household_port householdService)) (w, c))"
  unfolding HouseholdHandler_Get_def prod.case Let_def using assms(1)
  by (auto simp: answers_invalid port_defs serves_def body_defs assms split: option.split sum.split
      intro!: replies_page answers_use_case [where n = 200 and rq = "ReqGetHousehold _"])

lemma HouseholdHandler_Delete_api [handler_api]:
  assumes "fc_Method c = ''DELETE''" and "fc_Route c = ''/api/households/:id''"
  shows "handled lib cfg (w, c)
    (HouseholdHandler_Delete lib (NewHouseholdHandler (household_port householdService)) (w, c))"
  unfolding HouseholdHandler_Delete_def prod.case Let_def
  by (auto simp: answers_invalid port_defs serves_def body_defs assms split: option.split sum.split
      intro!: replies_page answers_use_case [where n = 204 and rq = "ReqDeleteHousehold _"])

lemma PickupHandler_Create_api [handler_api]:
  assumes "fc_Method c = ''POST''" and "fc_Route c = ''/api/pickups''"
  shows "handled lib cfg (w, c)
    (PickupHandler_Create lib (NewPickupHandler (pickup_port (pickupService cfg))) newID (w, c))"
  unfolding PickupHandler_Create_def prod.case Let_def
  by (auto simp: answers_invalid port_defs serves_def body_defs assms split: option.split sum.split
      intro!: replies_page answers_use_case [where n = 201 and rq = "ReqCreatePickup _ newID"])

lemma PickupHandler_List_api [handler_api]:
  assumes "fc_Method c \<in> {''GET'', ''HEAD''}" and "fc_Route c = ''/api/pickups''"
  shows "handled lib cfg (w, c)
    (PickupHandler_List lib (NewPickupHandler (pickup_port (pickupService cfg))) (w, c))"
  unfolding PickupHandler_List_def prod.case Let_def using assms(1)
  by (auto simp: answers_invalid port_defs serves_def body_defs assms split: option.split sum.split
      intro!: replies_page answers_use_case [where n = 200 and rq = "ReqListPickups _ _"])

lemma PickupHandler_Complete_api [handler_api]:
  assumes "fc_Method c = ''PUT''" and "fc_Route c = ''/api/pickups/:id/complete''"
  shows "handled lib cfg (w, c)
    (PickupHandler_Complete lib (NewPickupHandler (pickup_port (pickupService cfg))) newID (w, c))"
  unfolding PickupHandler_Complete_def prod.case Let_def
  by (auto simp: answers_invalid port_defs serves_def body_defs assms split: option.split sum.split
      intro!: replies_page answers_use_case [where n = 200 and rq = "ReqCompletePickup _ newID"])

lemma PickupHandler_Cancel_api [handler_api]:
  assumes "fc_Method c = ''PUT''" and "fc_Route c = ''/api/pickups/:id/cancel''"
  shows "handled lib cfg (w, c)
    (PickupHandler_Cancel lib (NewPickupHandler (pickup_port (pickupService cfg))) (w, c))"
  unfolding PickupHandler_Cancel_def prod.case Let_def
  by (auto simp: answers_invalid port_defs serves_def body_defs assms split: option.split sum.split
      intro!: replies_page answers_use_case [where n = 200 and rq = "ReqCancelPickup _"])

lemma PaymentHandler_Create_api [handler_api]:
  assumes "fc_Method c = ''POST''" and "fc_Route c = ''/api/payments''"
  shows "handled lib cfg (w, c)
    (PaymentHandler_Create lib (NewPaymentHandler (payment_port (lb_String lib) (paymentService cfg)) policy) newID (w, c))"
  unfolding PaymentHandler_Create_def prod.case Let_def
  by (auto simp: answers_invalid port_defs serves_def body_defs assms split: option.split sum.split
      intro!: replies_page answers_use_case [where n = 201 and rq = "ReqCreatePayment _ newID"])

lemma PaymentHandler_List_api [handler_api]:
  assumes "fc_Method c \<in> {''GET'', ''HEAD''}" and "fc_Route c = ''/api/payments''"
  shows "handled lib cfg (w, c)
    (PaymentHandler_List lib (NewPaymentHandler (payment_port (lb_String lib) (paymentService cfg)) policy) (w, c))"
  unfolding PaymentHandler_List_def prod.case Let_def using assms(1)
  by (auto simp: answers_invalid port_defs serves_def body_defs assms split: option.split sum.split
      intro!: replies_page answers_use_case [where n = 200 and rq = "ReqListPayments _ _"])

lemma PaymentHandler_Confirm_api [handler_api]:
  assumes "fc_Method c = ''PUT''" and "fc_Route c = ''/api/payments/:id/confirm''"
  shows "handled lib cfg (w, c)
    (PaymentHandler_Confirm lib (NewPaymentHandler (payment_port (lb_String lib) (paymentService cfg)) policy) newID (w, c))"
  unfolding PaymentHandler_Confirm_def prod.case Let_def
  by (auto simp: answers_invalid port_defs serves_def body_defs assms split: option.split sum.split
      intro!: replies_page answers_use_case [where n = 200 and rq = "ReqConfirmPayment _ _ newID"])

lemma ReportHandler_WasteSummary_api [handler_api]:
  assumes "fc_Method c \<in> {''GET'', ''HEAD''}" and "fc_Route c = ''/api/reports/waste-summary''"
  shows "handled lib cfg (w, c)
    (ReportHandler_WasteSummary (NewReportHandler (report_port reportService)) (w, c))"
  unfolding ReportHandler_WasteSummary_def prod.case Let_def using assms(1)
  by (auto simp: answers_invalid port_defs serves_def body_defs assms split: option.split sum.split
      intro!: replies_page answers_use_case [where n = 200 and rq = "ReqWasteSummary"])

lemma ReportHandler_PaymentSummary_api [handler_api]:
  assumes "fc_Method c \<in> {''GET'', ''HEAD''}" and "fc_Route c = ''/api/reports/payment-summary''"
  shows "handled lib cfg (w, c)
    (ReportHandler_PaymentSummary (NewReportHandler (report_port reportService)) (w, c))"
  unfolding ReportHandler_PaymentSummary_def prod.case Let_def using assms(1)
  by (auto simp: answers_invalid port_defs serves_def body_defs assms split: option.split sum.split
      intro!: replies_page answers_use_case [where n = 200 and rq = "ReqPaymentSummary"])

lemma ReportHandler_HouseholdHistory_api [handler_api]:
  assumes "fc_Method c \<in> {''GET'', ''HEAD''}" and "fc_Route c = ''/api/reports/households/:id/history''"
  shows "handled lib cfg (w, c)
    (ReportHandler_HouseholdHistory lib (NewReportHandler (report_port reportService)) (w, c))"
  unfolding ReportHandler_HouseholdHistory_def prod.case Let_def using assms(1)
  by (auto simp: answers_invalid port_defs serves_def body_defs assms split: option.split sum.split
      intro!: replies_page answers_use_case [where n = 200 and rq = "ReqHistory _"])

text \<open>After a validation as documented the date is there, so \<open>Schedule\<close> does not panic.\<close>

lemma validated_date:
  assumes "documented pg" and "validator_Struct pg (SchedulePickupRequest_tags req) = None"
  shows "sq_PickupDate req \<noteq> None"
  using validator_Struct_None [OF assms, of "hd (SchedulePickupRequest_tags req)"]
  by (auto simp: SchedulePickupRequest_tags_def rule_holds_def present_def split: if_splits)

lemma PickupHandler_Schedule_api [handler_api]:
  assumes "fc_Method c = ''PUT''" and "fc_Route c = ''/api/pickups/:id/schedule''" and "libs_ok lib"
  shows "handled lib cfg (w, c)
    (PickupHandler_Schedule lib (NewPickupHandler (pickup_port (pickupService cfg))) (w, c))"
  unfolding PickupHandler_Schedule_def prod.case Let_def using assms(3)
  by (auto simp: answers_invalid port_defs serves_def body_defs assms(1,2) libs_ok_def
      split: option.split sum.split dest: validated_date
      intro!: answers_use_case [where n = 200 and rq = "ReqSchedulePickup _ _"])

section \<open>The server\<close>

text \<open>
  The contract with the rate limiter next to the state: only the creation of a pickup touches it,
  charging the address of the client.
\<close>

definition web_api ::
  "Libs \<Rightarrow> 'b RatePkg \<Rightarrow> Config \<Rightarrow> instant \<Rightarrow> 'b IPRateLimiter \<times> world \<Rightarrow> 'b IPRateLimiter \<times> world \<Rightarrow>
   string \<Rightarrow> string \<Rightarrow> int \<times> reply \<Rightarrow> bool" where
  "web_api lib pkg cfg now s s' m p n \<longleftrightarrow>
    api lib cfg (snd s) (snd s') m p n \<and>
    (fst s' = fst s \<or> m = ''POST'' \<and> p = ''/api/pickups'' \<and>
       (\<exists>ip. fst s' = snd (allow_ip pkg now (fst s) ip)))"

lemma answers_beside:
  assumes "handled lib cfg (w, c) (h (w, c))"
  shows "answers (web_api lib pkg cfg now) ((l, w), c) (beside h ((l, w), c))"
  using assms unfolding handled_def by (rule answersE) (auto simp: beside_def web_api_def)

lemma answers_limited:
  assumes "handled lib cfg (w, c) (h (w, c))"
    and "fc_Method c = ''POST''" and "fc_Route c = ''/api/pickups''"
  shows "answers (web_api lib pkg cfg now) ((l, w), c)
    (IPRateLimiter_Middleware pkg now (beside h) ((l, w), c))"
proof -
  obtain ok l' where a: "allow_ip pkg now l (fc_IP c) = (ok, l')" by fastforce
  then have l': "\<exists>ip. l' = snd (allow_ip pkg now l ip)" by (metis snd_conv)
  have "StatusCode (App (RateLimited CodeRateLimited (MessageFor CodeRateLimited))) = 429"
    by (simp add: StatusCode_def RateLimited_def Err_Status_def)
  with assms l' show ?thesis
    unfolding handled_def
    by - (erule answersE, auto simp: IPRateLimiter_Middleware_def a answers_fail web_api_def
        api_refused beside_def)
qed

lemma untouched_trans: "untouched w1 w2 \<Longrightarrow> untouched w2 w3 \<Longrightarrow> untouched w1 w3"
  unfolding untouched_def by (elim exE conjE) (rule exI, auto)

lemma ping_untouched: "untouched w (snd (ping w))"
  by (auto simp: ping_def next_outcome_def untouched_def split: list.split outcome.split
      intro: exI [of _ "wd_net w"] exI [of _ "tl (wd_net w)"])

lemma app_ready_untouched: "untouched w (snd (app_ready cfg w))"
  using ping_untouched [of w] ping_untouched [of "snd (ping w)"]
  by (auto simp: app_ready_def MinIO_Ping_def intro: untouched_trans split: prod.split option.split)

lemma healthz_answers:
  "fc_Route c = ''/healthz'' \<Longrightarrow>
   answers (web_api lib pkg cfg now) (s, c) (respond (\<lambda>c. SendStatus c 200) (s, c))"
  by (simp add: SendStatus_def sent_def web_api_def api_def)

lemma readyz_answers:
  assumes "fc_Route c = ''/readyz''"
  shows "answers (web_api lib pkg cfg now) ((l, w), c)
    (case app_ready cfg w of
       (Some err, w) \<Rightarrow>
         fail (App (Unavailable CodeServiceUnavailable ''dependencies not ready'')) ((l, w), c)
     | (None, w) \<Rightarrow> respond (\<lambda>c. SendStatus c 200) ((l, w), c))"
proof -
  have "StatusCode (App (Unavailable CodeServiceUnavailable ''dependencies not ready'')) = 503"
    by (simp add: StatusCode_def Unavailable_def Err_Status_def)
  with assms app_ready_untouched [of w cfg] show ?thesis
    by (auto simp: SendStatus_def sent_def web_api_def api_def answers_fail
        split: prod.split option.split)
qed

lemma health_routes_ok:
  "list_all (route_ok methods (web_api lib pkg cfg now))
     (registerHealth (\<lambda>(l, w). case app_ready cfg w of (err, w) \<Rightarrow> (err, (l, w))))"
proof -
  have ready: "(case (case app_ready cfg w of (err, w) \<Rightarrow> (err, (l, w))) of
        (Some err, s) \<Rightarrow> f s | (None, s) \<Rightarrow> g s) =
      (case app_ready cfg w of (Some err, w) \<Rightarrow> f (l, w) | (None, w) \<Rightarrow> g (l, w))" for l w f g
    by (simp split: prod.split option.split)
  show ?thesis
    by (simp add: registerHealth_def Get_def route_ok_def split_paired_All healthz_answers ready
        readyz_answers del: respond_simps)
qed

lemma route_ok_beside:
  assumes "\<And>w c. fc_Method c = m \<Longrightarrow> fc_Route c = p \<Longrightarrow> handled lib cfg (w, c) (h (w, c))"
  shows "route_ok methods (web_api lib pkg cfg now) (m, p, beside h)"
  using assms answers_beside by (fastforce simp: route_ok_def)

lemma route_ok_limited:
  assumes "\<And>w c. fc_Method c = ''POST'' \<Longrightarrow> fc_Route c = ''/api/pickups'' \<Longrightarrow> handled lib cfg (w, c) (h (w, c))"
  shows "route_ok methods (web_api lib pkg cfg now)
    (''POST'', ''/api/pickups'', IPRateLimiter_Middleware pkg now (beside h))"
  using assms answers_limited by (fastforce simp: route_ok_def)

lemma app_routes_ok:
  assumes "libs_ok lib"
  shows "list_all (route_ok methods (web_api lib pkg cfg now)) (app_routes lib pkg cfg newID now)"
  unfolding app_routes_def RegisterRoutes_def RegisterPickupRoutes_def RegisterPaymentRoutes_def
    RegisterReportRoutes_def Get_def Post_def Put_def Delete_def list_all_append list.pred_inject
  by (intro conjI list.pred_inject(1) health_routes_ok route_ok_limited route_ok_beside;
      rule handler_api; simp add: assms)

lemma dispatch_keeps:
  fixes pkg :: "'b RatePkg"
  assumes "libs_ok lib"
  shows "endpoint methods (web_api lib pkg cfg now) (dispatch lib (app_routes lib pkg cfg newID now))"
proof (rule endpoint_dispatch [OF app_routes_ok [OF assms]])
  fix s :: "'b IPRateLimiter \<times> world" and c
  obtain n msg where "lb_NoRoute lib c = FiberError n msg" "400 \<le> n"
    using assms unfolding libs_ok_def by blast
  then have "400 \<le> StatusCode (lb_NoRoute lib c)"
    by (simp add: StatusCode_def errors_As_def)
  then show "web_api lib pkg cfg now s s (fc_Method c) (fc_Route c) (answer_to (lb_NoRoute lib c))"
    by (simp add: web_api_def api_refused)
qed

definition api_methods :: "Libs \<Rightarrow> string set" where
  "api_methods lib = {m. libs_ok lib}"

interpretation served: endpoint "api_methods lib" "web_api lib pkg cfg now"
  "NewServer lib cfg logger i d (app_routes lib pkg cfg newID now)"
  for lib pkg cfg now logger i d newID
proof (cases "libs_ok lib")
  case True
  then show "endpoint (api_methods lib) (web_api lib pkg cfg now)
      (NewServer lib cfg logger i d (app_routes lib pkg cfg newID now))"
    by (intro endpoint_NewServer dispatch_keeps)
      (auto simp: libs_ok_def web_api_def api_def)
next
  case False
  then show "endpoint (api_methods lib) (web_api lib pkg cfg now)
      (NewServer lib cfg logger i d (app_routes lib pkg cfg newID now))"
    by unfold_locales (simp add: api_methods_def)
qed

lemma app_serve_answers:
  assumes "libs_ok lib"
  shows "\<exists>s' c'. app_serve lib pkg cfg logger i d newID (s, c) = (Returned None, (s', c')) \<and>
    web_api lib pkg cfg (wd_now (snd s)) s s' (fc_Method c) (fc_Route c') (fc_Status c', fc_Reply c')"
  unfolding app_serve_def fst_conv using assms
  by (intro served.answered) (simp add: api_methods_def)

section \<open>The running program\<close>

text \<open>
  A request, a tick of the worker, a tick of the janitor; the network, the clock and the order of ties
  in the database change in between.
\<close>

inductive web_step ::
  "Libs \<Rightarrow> 'b RatePkg \<Rightarrow> Config \<Rightarrow> 'b IPRateLimiter \<times> world \<Rightarrow> 'b IPRateLimiter \<times> world \<Rightarrow> bool"
  for lib pkg cfg where
  http: "app_serve lib pkg cfg logger i d newID (s, c) = (r, (s', c')) \<Longrightarrow> web_step lib pkg cfg s s'"
| sweep: "job \<in> set (sc_jobs (app_scheduler cfg logger)) \<Longrightarrow>
    runJob_tick logger job (w, lg) = (w', lg') \<Longrightarrow> web_step lib pkg cfg (l, w) (l, w')"
| janitor: "web_step lib pkg cfg (l, w) (StartJanitor [JanitorTick (wd_now w)] l, w)"
| network: "\<forall>x \<in> set xs. outcome_ok x \<Longrightarrow> web_step lib pkg cfg (l, w) (l, w\<lparr>wd_net := xs\<rparr>)"
| time: "wd_now w \<le> n \<Longrightarrow> web_step lib pkg cfg (l, w) (l, w\<lparr>wd_now := n\<rparr>)"
| ties: "web_step lib pkg cfg (l, w) (l, w\<lparr>wd_db := (wd_db w)\<lparr>tb_ties := f\<rparr>\<rparr>)"

inductive web_reachable :: "Libs \<Rightarrow> 'b RatePkg \<Rightarrow> Config \<Rightarrow> 'b IPRateLimiter \<times> world \<Rightarrow> bool"
  for lib pkg cfg where
  start: "wd_db w = empty_db \<Longrightarrow> wd_tx w = None \<Longrightarrow> net_ok w \<Longrightarrow>
    web_reachable lib pkg cfg (app_limiter cfg, w)"
| further: "web_reachable lib pkg cfg s \<Longrightarrow> web_step lib pkg cfg s s' \<Longrightarrow> web_reachable lib pkg cfg s'"

lemma untouched_step: "untouched w w' \<Longrightarrow> net_ok w \<Longrightarrow> step fmt cfg w w'"
  unfolding untouched_def by (elim exE conjE) (simp, rule step.network, auto simp: net_ok_def)

lemma api_step: "api lib cfg w w' m p n \<Longrightarrow> net_ok w \<Longrightarrow> step (lb_String lib) cfg w w'"
  unfolding api_def by (auto intro: untouched_step step.request)

lemma sweep_serves:
  assumes "job \<in> set (sc_jobs (app_scheduler cfg logger))"
  shows "fst (runJob_tick lg job (w, es)) = serve fmt cfg ReqSweep w"
  using assms
  by (auto simp: app_scheduler_def worker_New_def AutoCancelOrganic_def runJob_tick_def port_defs
      split: prod.split sum.split)

lemma web_step_system:
  assumes "web_step lib pkg cfg s s'" and "libs_ok lib" and "net_ok (snd s)"
  shows "step (lb_String lib) cfg (snd s) (snd s') \<or> snd s' = snd s"
  using assms
proof (induction rule: web_step.induct)
  case (http logger i d newID s c r s' c')
  with app_serve_answers [OF http.prems(1), of pkg cfg logger i d newID s c] show ?case
    by (auto simp: web_api_def intro: api_step)
next
  case (sweep job logger w lg w' lg' l)
  have "w' = serve (lb_String lib) cfg ReqSweep w"
    using sweep_serves [OF sweep.hyps(1), of logger w lg] sweep.hyps(2) by simp
  then show ?case by (simp add: step.request del: serve_simps)
next
  case (network xs l w)
  then show ?case by (simp add: step.network)
next
  case (time w n l)
  then show ?case by (simp add: step.time)
next
  case (ties l w f)
  show ?case using step.ties [of "lb_String lib" cfg w f] by simp
qed simp

lemma web_reachable_system:
  assumes "web_reachable lib pkg cfg s" and "libs_ok lib"
  shows "reachable (lb_String lib) cfg (snd s)"
  using assms
proof (induction rule: web_reachable.induct)
  case (start w)
  then show ?case by (simp add: reachable.start)
next
  case (further s s')
  then have "reachable (lb_String lib) cfg (snd s)" by simp
  moreover from reachable_good [OF this] have "net_ok (snd s)" by (simp add: world_ok_def)
  ultimately show ?case
    using web_step_system [OF further.hyps(2) further.prems] by (auto intro: reachable.further)
qed

end
