(* ===== verification/Program.thy ===== *)
theory Program
  imports Web
begin

text \<open>
  What holds of the program as its clients see it: the answer to every request, the states of the
  running program, the worker, uploads and timestamps.
\<close>

section \<open>An example of the third-party functions\<close>

text \<open>Tags run as documented, a fixed UUID in paths and texts, bodies that are there already.\<close>

definition demo_libs :: Libs where
  "demo_libs =
    \<lparr>lb_Validate = documented_run, lb_Parse = (\<lambda>s. Some (if s = ''20'' then 20 else 10)), lb_String = (\<lambda>i. ''id''),
     lb_CreateHousehold = (\<lambda>c. Some \<lparr>hq_OwnerName = ''Ana'', hq_Address = fc_Body c\<rparr>),
     lb_CreatePickup = (\<lambda>c. None), lb_ListPickups = (\<lambda>c. None),
     lb_SchedulePickup = (\<lambda>c. Some \<lparr>sq_PickupDate = Parse_RFC3339 (fc_Body c)\<rparr>),
     lb_CreatePayment = (\<lambda>c. None), lb_ListPayments = (\<lambda>c. None),
     lb_FormFile = (\<lambda>c name. Some \<lparr>fh_Size = 8, fh_Open = Some \<lparr>fl_Content = fc_Body c,
        fl_ReadFails = False, fl_SeekFails = False\<rparr>\<rparr>),
     lb_Match = (\<lambda>p path. if p = path then Some (\<lambda>_. ''id'') else None),
     lb_NoRoute = (\<lambda>c. FiberError 404 ''Not Found''),
     lb_Preflight = (\<lambda>origins c. Some (c\<lparr>fc_Status := 204\<rparr>))\<rparr>"

lemma libs_ok_demo: "libs_ok demo_libs"
  by (simp add: libs_ok_def demo_libs_def)

section \<open>Requests\<close>

text \<open>
  Claim C6. Every request, whatever its method, path, header and body, whatever the handlers meet and
  whichever round trips fail, gets exactly one answer and never a panic. It is turned away with an
  error of at least 400 and the state untouched, or is a preflight or a health check, or it runs the
  one use case of its endpoint, once: a failed one is answered with the status and the envelope of
  its error, a successful one with the status of the endpoint and its result. Only the creation of
  a pickup charges the rate limiter.
\<close>

theorem request_answered:
  assumes "libs_ok lib"
  shows "\<exists>l' w' c'. app_serve lib pkg cfg logger i d newID ((l, w), c) = (Returned None, ((l', w'), c')) \<and>
    web_api lib pkg cfg (wd_now w) (l, w) (l', w') (fc_Method c) (fc_Route c') (fc_Status c', fc_Reply c')"
  using app_serve_answers [OF assms, of pkg cfg logger i d newID "(l, w)" c] by auto

theorem request_answered_witness:
  "\<exists>l' w' c'. app_serve demo_libs token_bucket demo_config [] ''r'' 5 7
      ((app_limiter demo_config, demo []), blank_ctx) = (Returned None, ((l', w'), c')) \<and>
    web_api demo_libs token_bucket demo_config (wd_now (demo [])) (app_limiter demo_config, demo []) (l', w')
      ''GET'' (fc_Route c') (fc_Status c', fc_Reply c')"
  using request_answered [OF libs_ok_demo, of token_bucket demo_config "[]" "''r''" 5 7
      "app_limiter demo_config" "demo []" blank_ctx]
  by (simp add: blank_ctx_def)

text \<open>
  Claim C8. The program as a whole, HTTP requests of all kinds, the worker and the janitor beside each
  other, reaches only states that the requests of \<open>System\<close> reach: the rules of the business hold in
  every one of them.
\<close>

theorem program_refines_system:
  assumes "web_reachable lib pkg cfg (l, w)" and "libs_ok lib"
  shows "reachable (lb_String lib) cfg w \<and> world_ok w \<and> good_store (app_pricing cfg) (committed w)"
  using web_reachable_system [OF assms] reachable_good by fastforce

theorem program_refines_system_witness:
  "good_store (app_pricing demo_config) (committed (fresh []\<lparr>wd_now := 5\<rparr>))"
proof -
  have "web_reachable demo_libs token_bucket demo_config (app_limiter demo_config, fresh [])"
    by (rule web_reachable.start) (simp_all add: fresh_def net_ok_def)
  from web_reachable.further [OF this web_step.time [of _ 5]]
  have "web_reachable demo_libs token_bucket demo_config (app_limiter demo_config, fresh []\<lparr>wd_now := 5\<rparr>)"
    by (simp add: fresh_def)
  from program_refines_system [OF this libs_ok_demo] show ?thesis by blast
qed

section \<open>The worker\<close>

lemma app_scheduler_job:
  "sc_jobs (app_scheduler cfg logger) =
     [AutoCancelOrganic (pickup_port (pickupService cfg)) (kc_SweepInterval (cf_Worker cfg)) logger]"
  by (simp add: app_scheduler_def worker_New_def)

lemma AutoCancelOrganic_Interval: "jb_Interval (AutoCancelOrganic pickups n logger) = n"
  by (simp add: AutoCancelOrganic_def)

lemma not_stale_canceled: "\<not> stale t (canceled n p)"
  by (simp add: stale_def)

lemma sweep_healthy:
  assumes "world_ok w" and "online w"
  shows "committed (serve fmt cfg ReqSweep w) = (committed w)
    \<lparr>st_pickups := (\<lambda>i. map_option (\<lambda>p. if stale (wd_now w - kc_OrganicTTL (cf_Worker cfg)) p
       then canceled (wd_now w) p else p) (st_pickups (committed w) i))\<rparr>"
proof -
  obtain r w' where run: "pickup_CancelStaleOrganic (pickupService cfg) None w = (r, w')" by fastforce
  with SweepStale.pool_call [OF _ _ run] assms have
    "refines True (spec_CancelStaleOrganic (kc_OrganicTTL (cf_Worker cfg)) (committed w)) (committed w) r (committed w')"
    by auto
  with run show ?thesis
    by (simp add: refines_healthy spec_CancelStaleOrganic_def cancel_stale_def committed_def store_of_def)
qed

text \<open>
  Claim C14. As long as its context is not done the worker keeps sweeping: whatever the ticks before did,
  failed sweeps included, the next tick that meets a healthy connection cancels every organic
  pickup over its lifetime, and none is left.
\<close>

theorem healthy_sweep_clears:
  assumes "0 < kc_SweepInterval (cf_Worker cfg)" and "DoneOf 0 \<notin> set es"
    and "w = fst (rn_state (Scheduler_run (app_scheduler cfg logger) w0 es))" and "world_ok w" and "online w"
    and "w' = fst (rn_state (Scheduler_run (app_scheduler cfg logger) w0 (es @ [TickOf 0])))"
  shows "st_pickups (committed w') =
      (\<lambda>i. map_option (\<lambda>p. if stale (wd_now w - kc_OrganicTTL (cf_Worker cfg)) p
         then canceled (wd_now w) p else p) (st_pickups (committed w) i)) \<and>
    (\<forall>i. \<forall>p. st_pickups (committed w') i = Some p \<longrightarrow> \<not> stale (wd_now w - kc_OrganicTTL (cf_Worker cfg)) p)"
proof -
  have pos: "\<forall>j \<in> set (sc_jobs (app_scheduler cfg logger)). 0 < jb_Interval j"
    using assms(1) by (simp add: app_scheduler_job AutoCancelOrganic_def)
  let ?s = "rn_state (Scheduler_run (app_scheduler cfg logger) w0 es)"
  have "w' = fst (runJob_tick (sc_logger (app_scheduler cfg logger))
      (sc_jobs (app_scheduler cfg logger) ! 0) (fst ?s, snd ?s))"
    using Scheduler_run_loops [OF pos, of w0 es] assms(2,6)
    by (simp add: Scheduler_run_snoc app_scheduler_job)
  also have "\<dots> = serve (\<lambda>_. []) cfg ReqSweep w"
    unfolding assms(3) by (rule sweep_serves) (simp add: app_scheduler_job)
  finally have c: "committed w' = committed (serve (\<lambda>_. []) cfg ReqSweep w)" by simp
  show ?thesis
    unfolding c sweep_healthy [OF assms(4,5)] using not_stale_canceled by (auto split: if_splits)
qed

theorem healthy_sweep_clears_witness:
  "map_option pk_Status (st_pickups (committed (fst (rn_state (Scheduler_run (app_scheduler demo_config [])
     (demo [Refused NetError]) [TickOf 0, TickOf 0])))) 10) = Some PickupCanceled"
proof -
  have k: "kc_OrganicTTL (cf_Worker demo_config) = 259200000000000" "0 < kc_SweepInterval (cf_Worker demo_config)"
    by (simp_all add: demo_config_def)
  have "sc_logger (app_scheduler demo_config []) = []"
    by (simp add: app_scheduler_def worker_New_def)
  moreover have "fst (runJob_tick [] (AutoCancelOrganic (pickup_port (pickupService demo_config))
      (kc_SweepInterval (cf_Worker demo_config)) []) (demo [Refused NetError], [])) = demo []"
    by (simp add: runJob_tick_def AutoCancelOrganic_def port_defs pickup_CancelStaleOrganic_flow
        pickup_calls clocked_def call_defs Executor_def txFromContext_def on_pool_def next_outcome_def demo_def)
  ultimately have w: "demo [] = fst (rn_state (Scheduler_run (app_scheduler demo_config [])
      (demo [Refused NetError]) [TickOf 0]))"
    using k(2) by (simp add: Scheduler_run_def Scheduler_start_def app_scheduler_job runJob_start_def
        AutoCancelOrganic_Interval)
  have p: "st_pickups (committed (demo [])) 10 =
      Some (pickupRow_toDomain (demo_pickup_row 10 1 PickupOrganic PickupPending None False 100))"
    by (simp add: committed_def store_of_def pickup_map_def demo_db_def demo_pickup_row_def)
  from healthy_sweep_clears [OF k(2) _ w _ _ refl] show ?thesis
    by (simp add: world_ok_demo p k stale_def demo_pickup_row_def pickupRow_toDomain_def)
qed

section \<open>Uploads\<close>

lemma EqualFold_ascii:
  "ascii s \<Longrightarrow> ascii t \<Longrightarrow> EqualFold s t \<longleftrightarrow> map fold_rune (bytes s) = map fold_rune (bytes t)"
  by (simp add: EqualFold_def runes_ascii)

text \<open>Of the types that sniffing can answer, each policy over plain names allows those in its list.\<close>

lemma types_plain:
  "list_all (\<lambda>ct. ascii (before CHR '';'' ct) \<and> TrimSpace (before CHR '';'' ct) = before CHR '';'' ct)
    (''application/octet-stream'' # map type_of sniffSignatures)"
  by (simp add: sniffSignatures_def before_def TrimSpace_id IsSpace_def)

lemma default_types_only:
  "list_all (\<lambda>ct. list_ex (\<lambda>a. EqualFold a (before CHR '';'' ct))
        [''image/jpeg'', ''image/png'', ''application/pdf''] \<longrightarrow>
      ct = ''image/jpeg'' \<or> ct = ''image/png'' \<or> ct = ''application/pdf'')
    (''application/octet-stream'' # map type_of sniffSignatures)"
  by (simp add: sniffSignatures_def before_def EqualFold_ascii fold_rune_def bytes_def)

lemma DetectContentType_types: "DetectContentType data \<in> set (''application/octet-stream'' # map type_of sniffSignatures)"
  by (auto simp: DetectContentType_def Let_def dest!: first_some_SomeD dest: matches_type split: option.split)

lemma allowed_by_default:
  assumes "up_AllowedTypes policy = [''image/jpeg'', ''image/png'', ''application/pdf'']"
    and "UploadPolicy_allows policy (DetectContentType data)"
  shows "DetectContentType data \<in> {''image/jpeg'', ''image/png'', ''application/pdf''}"
proof -
  note ct = DetectContentType_types [of data]
  have "TrimSpace (before CHR '';'' (DetectContentType data)) = before CHR '';'' (DetectContentType data)"
    using types_plain ct unfolding list_all_iff by blast
  with assms have "list_ex (\<lambda>a. EqualFold a (before CHR '';'' (DetectContentType data)))
      [''image/jpeg'', ''image/png'', ''application/pdf'']"
    by (simp add: UploadPolicy_allows_def Let_def)
  with default_types_only ct show ?thesis unfolding list_all_iff by blast
qed

text \<open>
  Claim C15. A proof gets past the handler only when it is within the size limit and what its first bytes
  look like is allowed, whatever type or name the client claims: under the default types it starts
  with the signature of a JPEG, a PNG or a PDF file. Otherwise nothing is changed or stored.
\<close>

theorem upload_gate:
  assumes "PaymentHandler_Confirm lib (NewPaymentHandler svc policy) newID (w, c) = (r, (w', c'))"
    and "w' \<noteq> w" and "up_AllowedTypes policy = [''image/jpeg'', ''image/png'', ''application/pdf'']"
  shows "\<exists>header upload. lb_FormFile lib c ''proof'' = Some header \<and> fh_Open header = Some upload \<and>
    sint (fh_Size header) \<le> sint (up_MaxBytes policy) \<and>
    (take 3 (bytes (fl_Content upload)) = [255, 216, 255] \<or>
     take 8 (bytes (fl_Content upload)) = [137, 80, 78, 71, 13, 10, 26, 10] \<or>
     take 5 (bytes (fl_Content upload)) = bytes ''%PDF-'')"
proof -
  from assms(1,2) obtain header upload where f: "lb_FormFile lib c ''proof'' = Some header"
      "fh_Open header = Some upload" "\<not> up_MaxBytes policy <s fh_Size header"
      "UploadPolicy_allows policy (DetectContentType (take 512 (fl_Content upload)))"
    by (auto simp: PaymentHandler_Confirm_def fail_def NewPaymentHandler_def read_head_def Let_def
        split: sum.splits option.splits if_splits)
  from allowed_by_default [OF assms(3) f(4)] have
    "DetectContentType (fl_Content upload) \<in> {''image/jpeg'', ''image/png'', ''application/pdf''}"
    by (simp add: DetectContentType_def)
  then have "take 3 (bytes (fl_Content upload)) = [255, 216, 255] \<or>
     take 8 (bytes (fl_Content upload)) = [137, 80, 78, 71, 13, 10, 26, 10] \<or>
     take 5 (bytes (fl_Content upload)) = bytes ''%PDF-''"
    using jpeg_signature png_signature pdf_signature by auto
  with f show ?thesis by (auto simp: word_sless_alt)
qed

theorem upload_gate_witness:
  "\<exists>header upload. lb_FormFile demo_libs (blank_ctx\<lparr>fc_Body := [CHR 0xFF, CHR 0xD8, CHR 0xFF, CHR 0xE0]\<rparr>) ''proof'' = Some header \<and>
    fh_Open header = Some upload \<and> take 3 (bytes (fl_Content upload)) = [255, 216, 255]"
proof -
  let ?c = "blank_ctx\<lparr>fc_Body := [CHR 0xFF, CHR 0xD8, CHR 0xFF, CHR 0xE0], fc_Params := (\<lambda>_. ''20'')\<rparr>"
  let ?policy = "\<lparr>up_MaxBytes = 5242880, up_AllowedTypes = [''image/jpeg'', ''image/png'', ''application/pdf'']\<rparr>"
  let ?w = "demo [Refused NetError]"
  have jpeg: "DetectContentType [CHR 0xFF, CHR 0xD8, CHR 0xFF, CHR 0xE0] = ''image/jpeg''" by code_simp
  have allowed: "UploadPolicy_allows ?policy ''image/jpeg''"
    by (simp add: UploadPolicy_allows_def before_def TrimSpace_id IsSpace_def EqualFold_def)
  have refused: "snd (payment_Confirm fmt (paymentService demo_config) None i inp j ?w) = demo []" for fmt i inp j
    by (simp add: payment_Confirm_flow payment_calls abind_def athrow_def clocked_def call_defs Executor_def
        txFromContext_def on_pool_def next_outcome_def demo_def)
  let ?run = "PaymentHandler_Confirm demo_libs
      (NewPaymentHandler (payment_port (\<lambda>_. ''id'') (paymentService demo_config)) ?policy) 31 (?w, ?c)"
  have "fst (snd ?run) = snd (payment_Confirm (\<lambda>_. ''id'') (paymentService demo_config) None 20
      \<lparr>ci_Reader = [CHR 0xFF, CHR 0xD8, CHR 0xFF, CHR 0xE0], ci_Size = 8, ci_ContentType = ''image/jpeg''\<rparr> 31 ?w)"
    by (simp add: PaymentHandler_Confirm_def parseID_def demo_libs_def NewPaymentHandler_def fail_def
        read_head_def Let_def jpeg allowed payment_port_def split: prod.split sum.split)
  with refused obtain r c' where run: "?run = (r, (demo [], c'))" by (metis prod.collapse)
  have "demo [] \<noteq> ?w" by (simp add: demo_def)
  from upload_gate [OF run this] show ?thesis
    by (simp add: demo_libs_def bytes_def)
qed

section \<open>Timestamps\<close>

text \<open>
  Claim C19. A timestamp that the program prints in a response can be sent back as a date filter: it is
  accepted, and means the same instant.
\<close>

theorem timestamp_roundtrip:
  assumes "MarshalJSON t = Some s"
  shows "filter_date fld s = Inr (Some t)"
proof -
  have t: "Parse_RFC3339 s = Some t"
    using assms Parse_format [of t] by (auto simp: MarshalJSON_def Let_def split: if_splits)
  moreover have "s \<noteq> []"
  proof
    assume "s = []"
    moreover have "Parse_RFC3339 [] = None" by code_simp
    ultimately show False using t by simp
  qed
  ultimately show ?thesis by (simp add: filter_date_def)
qed

theorem timestamp_roundtrip_witness:
  "filter_date ''date_from'' (format_RFC3339Nano 1700000000123456000) = Inr (Some 1700000000123456000)"
proof -
  have "MarshalJSON 1700000000123456000 = Some (format_RFC3339Nano 1700000000123456000)"
    by (simp add: year_of_day_range)
  from timestamp_roundtrip [OF this] show ?thesis .
qed

text \<open>
  Claim C20. \<open>Schedule\<close> accepts dates that no response can carry, such as 9999-12-31T23:59:59-01:00, which is
  in the year 10000: the pickup is scheduled and stored, but the client gets status 500, and from
  then on every page of pickups that has this pickup on it cannot be encoded either.
\<close>

theorem schedule_unprintable:
  assumes "documented (lb_Validate lib)" and "lb_Parse lib (fc_Params c ''id'') = Some i"
    and "lb_SchedulePickup lib c = Some \<lparr>sq_PickupDate = Some d\<rparr>" and "MarshalJSON d = None"
    and "world_ok w" and "online w" and "st_pickups (committed w) i = Some p" and "CanSchedule p = None"
    and "PickupHandler_Schedule lib (NewPickupHandler (pickup_port (pickupService cfg))) (w, c) = (r, (w', c'))"
  shows "\<exists>err q. r = Returned (Some err) \<and> StatusCode err = 500 \<and>
    st_pickups (committed w') i = Some q \<and> pk_Status q = PickupScheduled \<and> pk_PickupDate q = Some d \<and>
    (\<forall>items n params. q \<in> set items \<longrightarrow> \<not> encodable (page_json (pickup_json lib) params (items, n)))"
proof -
  let ?q = "p\<lparr>pk_Status := PickupScheduled, pk_PickupDate := Some d, pk_UpdatedAt := st_now (committed w)\<rparr>"
  obtain x w1 where run: "pickup_Schedule (pickupService cfg) None i \<lparr>sp_PickupDate = d\<rparr> w = (x, w1)" by fastforce
  have "refines True (spec_SchedulePickup i d (committed w)) (committed w) x (committed w1)"
    using SchedulePickup.pool_call [OF _ _ run] assms(5,6) by auto
  then have x: "x = Inr ?q" and st: "st_pickups (committed w1) i = Some ?q"
    using assms(7,8) by (auto simp: refines_healthy spec_SchedulePickup_def Let_def)
  have valid: "validator_Struct (lb_Validate lib) (SchedulePickupRequest_tags \<lparr>sq_PickupDate = Some d\<rparr>) = None"
    using assms(1)
    by (simp add: validator_Struct_def instance_Struct_def documented_def documented_run_def field_error_def
        SchedulePickupRequest_tags_def rule_holds_def present_def Let_def)
  have unencodable: "\<not> encodable (PickupResponse_json (NewPickupResponse fmt ?q))" for fmt
    using assms(4) by (simp add: PickupResponse_json_def NewPickupResponse_def json_ptr_def)
  have "r = Returned (Some (Opaque ''json: error calling MarshalJSON'')) \<and> w' = w1"
    using assms(9) unencodable [of "lb_String lib"]
    by (auto simp: PickupHandler_Schedule_def parseID_def assms(2,3) valid port_defs run x
        presenter_Success_cases)
  with st unencodable [of "lb_String lib"] show ?thesis
    by (auto simp: page_json_def list_all_iff)
qed

theorem schedule_unprintable_witness:
  "\<exists>err. fst (PickupHandler_Schedule demo_libs (NewPickupHandler (pickup_port (pickupService demo_config)))
      (demo [], blank_ctx\<lparr>fc_Body := ''9999-12-31T23:59:59-01:00''\<rparr>)) = Returned (Some err) \<and> StatusCode err = 500"
proof -
  let ?c = "blank_ctx\<lparr>fc_Body := ''9999-12-31T23:59:59-01:00''\<rparr>"
  have parse: "Parse_RFC3339 ''9999-12-31T23:59:59-01:00'' = Some 253402304399000000000" by code_simp
  have req: "lb_SchedulePickup demo_libs ?c = Some \<lparr>sq_PickupDate = Some 253402304399000000000\<rparr>"
    by (simp add: demo_libs_def parse)
  have doc: "documented (lb_Validate demo_libs)" and i: "lb_Parse demo_libs (fc_Params ?c ''id'') = Some 10"
    by (simp_all add: demo_libs_def blank_ctx_def)
  have never: "MarshalJSON 253402304399000000000 = None"
    by (simp add: year_of_day_range)
  have p: "st_pickups (committed (demo [])) 10 =
      Some (pickupRow_toDomain (demo_pickup_row 10 1 PickupOrganic PickupPending None False 100))"
    by (simp add: committed_def store_of_def pickup_map_def demo_db_def demo_pickup_row_def)
  have can: "CanSchedule (pickupRow_toDomain (demo_pickup_row 10 1 PickupOrganic PickupPending None False 100)) = None"
    by (simp add: CanSchedule_def pickupRow_toDomain_def demo_pickup_row_def type_defs)
  obtain r w' c' where run: "PickupHandler_Schedule demo_libs
      (NewPickupHandler (pickup_port (pickupService demo_config))) (demo [], ?c) = (r, (w', c'))"
    by (rule prod_cases3)
  from schedule_unprintable [OF doc i req never _ _ p can run] show ?thesis
    by (auto simp: run world_ok_demo)
qed

section \<open>Panics\<close>

text \<open>
  A request whose handler panics is answered with status 500 and the generic body, and two
  entries tell of it, one of them with the panic; but as the access log runs inside of the recovery,
  the request is missing from it.
\<close>

theorem panic_answered_not_logged:
  assumes "h (w, c) = (Panicked p, (w', c'))"
  shows "\<exists>c''. Recover (AccessLog d h) (w, c) = (Returned None, (w', c'')) \<and>
    fc_Status c'' = 500 \<and> fc_Reply c'' = generic_reply \<and>
    map en_Message (fc_Log c'') = map en_Message (fc_Log c') @
      (if fc_Logger c' = None then [] else [''panic_recovered'', ''request_failed''])"
proof -
  have i: "internal_error (App (Internal CodeInternal ''recovered panic''))"
    by (simp add: internal_error_def Internal_def)
  from assms show ?thesis
    by (auto simp: Recover_def AccessLog_def fail_def Let_def presenter_Error_internal [OF i] LoggerFrom_def
        split: option.splits)
qed

theorem panic_answered_not_logged_witness:
  "\<exists>c''. Recover (AccessLog 7 (\<lambda>(w, c). (Panicked nil_dereference, (w, c)))) (0 :: nat, blank_ctx) =
      (Returned None, (0, c'')) \<and> map en_Message (fc_Log c'') = [''panic_recovered'', ''request_failed'']"
proof -
  let ?h = "\<lambda>(w, c). (Panicked nil_dereference, (w, c))"
  have "?h (0 :: nat, blank_ctx) = (Panicked nil_dereference, (0, blank_ctx))" by simp
  from panic_answered_not_logged [where h = ?h, OF this, of 7] show ?thesis
    by (auto simp: blank_ctx_def)
qed

end
