(* ===== verification/Env.thy ===== *)
theory Env
  imports Config Text Pagination
begin

text \<open>
  \<open>config.Load\<close>: the configuration from environment variables, with the parsers of the standard
  library it relies on. The environment is a function from names to values. Parsing a decimal
  number is done by shopspring/decimal, a third-party package, and is an argument, whose errors are texts.
\<close>

type_synonym environment = "string \<Rightarrow> string option"

section \<open>Standard library\<close>

text \<open>\<open>strconv.ParseInt(s, 10, 64)\<close> accepts what \<open>strconv.Atoi\<close> accepts.\<close>

definition ParseInt64 :: "string \<Rightarrow> gint option" where
  "ParseInt64 s = Atoi s"

definition ParseBool :: "string \<Rightarrow> bool option" where
  "ParseBool s =
    (if s \<in> set [''1'', ''t'', ''T'', ''true'', ''TRUE'', ''True''] then Some True
     else if s \<in> set [''0'', ''f'', ''F'', ''false'', ''FALSE'', ''False''] then Some False
     else None)"

fun Split :: "char \<Rightarrow> string \<Rightarrow> string list" where
  "Split sep [] = [[]]"
| "Split sep (c # cs) =
    (if c = sep then [] # Split sep cs
     else (case Split sep cs of p # ps \<Rightarrow> (c # p) # ps | [] \<Rightarrow> [[c]]))"

text \<open>
  \<open>time.ParseDuration\<close>: a sign, then numbers with an optional fraction and a unit. \<open>leadingInt\<close> fails
  when the number exceeds 2 to the 63; \<open>leadingFraction\<close> drops digits it cannot hold. The library
  multiplies the fraction in floating point and cuts off; here it is a rational number, cut off.
\<close>

definition dec_digit :: "char \<Rightarrow> bool" where
  "dec_digit c \<longleftrightarrow> digit_of c \<noteq> None"

fun leadingInt :: "int \<Rightarrow> string \<Rightarrow> (int \<times> string) option" where
  "leadingInt x [] = Some (x, [])"
| "leadingInt x (c # cs) =
    (case digit_of c of
       None \<Rightarrow> Some (x, c # cs)
     | Some d \<Rightarrow>
         if 2 ^ 63 div 10 < x then None
         else if 2 ^ 63 < 10 * x + d then None
         else leadingInt (10 * x + d) cs)"

fun leadingFraction :: "int \<Rightarrow> int \<Rightarrow> bool \<Rightarrow> string \<Rightarrow> int \<times> int \<times> string" where
  "leadingFraction x scale overflow [] = (x, scale, [])"
| "leadingFraction x scale overflow (c # cs) =
    (case digit_of c of
       None \<Rightarrow> (x, scale, c # cs)
     | Some d \<Rightarrow>
         if overflow \<or> (2 ^ 63 - 1) div 10 < x \<or> 2 ^ 63 < 10 * x + d
         then leadingFraction x scale True cs
         else leadingFraction (10 * x + d) (10 * scale) False cs)"

text \<open>Microseconds are written with u, with the micro sign or with the Greek letter.\<close>

definition unitMap :: "string \<Rightarrow> int option" where
  "unitMap = map_of
    [(''ns'', 1), (''us'', 1000), ([CHR 0xC2, CHR 0xB5, CHR ''s''], 1000),
     ([CHR 0xCE, CHR 0xBC, CHR ''s''], 1000), (''ms'', 1000000), (''s'', 1000000000),
     (''m'', 60000000000), (''h'', 3600000000000)]"

text \<open>One number with its unit, in nanoseconds, and the rest of the text.\<close>

definition duration_part :: "string \<Rightarrow> (int \<times> string) option" where
  "duration_part s =
    (case s of
       [] \<Rightarrow> None
     | c # _ \<Rightarrow>
         if \<not> (c = CHR ''.'' \<or> dec_digit c) then None
         else
           (case leadingInt 0 s of
              None \<Rightarrow> None
            | Some (v, s1) \<Rightarrow>
                (let pre = length s1 \<noteq> length s;
                     (f, scale, s2, post) =
                       (case s1 of
                          c # cs \<Rightarrow>
                            if c = CHR ''.'' then
                              (case leadingFraction 0 1 False cs of (f, scale, s2) \<Rightarrow>
                               (f, scale, s2, length s2 \<noteq> length cs))
                            else (0, 1, s1, False)
                        | [] \<Rightarrow> (0, 1, s1, False));
                     u = takeWhile (\<lambda>c. \<not> (c = CHR ''.'' \<or> dec_digit c)) s2;
                     s3 = drop (length u) s2
                 in if \<not> pre \<and> \<not> post then None
                    else if u = [] then None
                    else
                      (case unitMap u of
                         None \<Rightarrow> None
                       | Some unit \<Rightarrow>
                           if 2 ^ 63 div unit < v then None
                           else
                             (let v = v * unit + f * unit div scale
                              in if 2 ^ 63 < v then None else Some (v, s3))))))"

lemma leadingInt_length: "leadingInt x s = Some (v, r) \<Longrightarrow> length r \<le> length s"
  by (induction x s rule: leadingInt.induct) (auto split: option.splits if_splits)

lemma leadingFraction_length: "leadingFraction x k b s = (f, scale, r) \<Longrightarrow> length r \<le> length s"
  by (induction x k b s rule: leadingFraction.induct) (auto split: option.splits if_splits)

lemma duration_part_length: "duration_part s = Some (v, r) \<Longrightarrow> length r < length s"
  by (auto simp: duration_part_def Let_def
      dest!: leadingInt_length leadingFraction_length
      split: list.splits option.splits if_splits prod.splits)

function duration_parts :: "int \<Rightarrow> string \<Rightarrow> int option" where
  "duration_parts d s =
    (if s = [] then Some d
     else
       (case duration_part s of
          None \<Rightarrow> None
        | Some (v, r) \<Rightarrow> if 2 ^ 63 < d + v then None else duration_parts (d + v) r))"
  by auto
termination
  by (relation "measure (\<lambda>(d, s). length s)") (auto dest: duration_part_length)

declare duration_parts.simps [simp del]

definition ParseDuration :: "string \<Rightarrow> duration option" where
  "ParseDuration s =
    (let (neg, s) =
       (case s of
          c # cs \<Rightarrow> if c = CHR ''-'' \<or> c = CHR ''+'' then (c = CHR ''-'', cs) else (False, s)
        | [] \<Rightarrow> (False, s))
     in if s = ''0'' then Some 0
        else if s = [] then None
        else
          (case duration_parts 0 s of
             None \<Rightarrow> None
           | Some d \<Rightarrow>
               if neg then Some (- d)
               else if 2 ^ 63 - 1 < d then None
               else Some d))"

section \<open>Reading variables\<close>

definition env :: "environment \<Rightarrow> string \<Rightarrow> string \<Rightarrow> string" where
  "env ev key def = (case ev key of Some v \<Rightarrow> if v \<noteq> [] then v else def | None \<Rightarrow> def)"

definition env_parsed :: "(string \<Rightarrow> 'a option) \<Rightarrow> environment \<Rightarrow> string \<Rightarrow> 'a \<Rightarrow> 'a" where
  "env_parsed parse ev key def =
    (case ev key of
       Some v \<Rightarrow> if v \<noteq> [] then (case parse v of Some x \<Rightarrow> x | None \<Rightarrow> def) else def
     | None \<Rightarrow> def)"

definition envStrings :: "environment \<Rightarrow> string \<Rightarrow> string \<Rightarrow> string list" where
  "envStrings ev key def =
    (let raw = env ev key def
     in filter (\<lambda>t. t \<noteq> []) (map TrimSpace (Split CHR '','' raw)))"

definition envInt64 :: "environment \<Rightarrow> string \<Rightarrow> gint \<Rightarrow> gint" where
  "envInt64 = env_parsed ParseInt64"

definition envBool :: "environment \<Rightarrow> string \<Rightarrow> bool \<Rightarrow> bool" where
  "envBool = env_parsed ParseBool"

definition envDuration :: "environment \<Rightarrow> string \<Rightarrow> duration \<Rightarrow> duration" where
  "envDuration = env_parsed ParseDuration"

definition envDecimal ::
  "(string \<Rightarrow> string + decimal) \<Rightarrow> environment \<Rightarrow> string \<Rightarrow> string \<Rightarrow> string + decimal" where
  "envDecimal parse ev key def = parse (env ev key def)"

text \<open>\<open>int32(n)\<close> keeps the low 32 bits; \<open>int\<close> has 64 bits.\<close>

definition int32 :: "gint \<Rightarrow> 32 word" where
  "int32 n = ucast n"

definition nanos_second :: int where "nanos_second = 1000000000"
definition nanos_minute :: int where "nanos_minute = 60 * 1000000000"
definition nanos_hour :: int where "nanos_hour = 3600 * 1000000000"

section \<open>Load\<close>

definition Load_settings :: "environment \<Rightarrow> Config" where
  "Load_settings ev =
    \<lparr>cf_AppEnv = env ev ''APP_ENV'' ''local'', cf_AppPort = env ev ''APP_PORT'' ''8080'',
     cf_LogLevel = env ev ''LOG_LEVEL'' ''info'', cf_CORSOrigins = env ev ''CORS_ORIGINS'' ''*'',
     cf_RequestTimeout = envDuration ev ''REQUEST_TIMEOUT'' (5 * nanos_second),
     cf_ShutdownTimeout = envDuration ev ''SHUTDOWN_TIMEOUT'' (10 * nanos_second),
     cf_BodyLimitBytes = envInt64 ev ''BODY_LIMIT_BYTES'' (push_bit 20 6),
     cf_UploadLimitBytes = envInt64 ev ''UPLOAD_LIMIT_BYTES'' (push_bit 20 5),
     cf_UploadAllowedTypes =
       envStrings ev ''UPLOAD_ALLOWED_TYPES'' ''image/jpeg,image/png,application/pdf'',
     cf_Postgres =
       \<lparr>pc_Host = env ev ''POSTGRES_HOST'' ''localhost'', pc_Port = env ev ''POSTGRES_PORT'' ''5432'',
        pc_User = env ev ''POSTGRES_USER'' ''wst'', pc_Password = env ev ''POSTGRES_PASSWORD'' ''wst'',
        pc_DB = env ev ''POSTGRES_DB'' ''wst'', pc_SSLMode = env ev ''POSTGRES_SSLMODE'' ''disable'',
        pc_MaxConns = int32 (envInt64 ev ''POSTGRES_MAX_CONNS'' 10),
        pc_MinConns = int32 (envInt64 ev ''POSTGRES_MIN_CONNS'' 2),
        pc_MaxConnLifetime = envDuration ev ''POSTGRES_MAX_CONN_LIFETIME'' nanos_hour,
        pc_MaxConnIdleTime = envDuration ev ''POSTGRES_MAX_CONN_IDLE_TIME'' (30 * nanos_minute),
        pc_HealthCheckPeriod = envDuration ev ''POSTGRES_HEALTHCHECK_PERIOD'' nanos_minute,
        pc_StatementTimeout = envDuration ev ''POSTGRES_STATEMENT_TIMEOUT'' (5 * nanos_second)\<rparr>,
     cf_MinIO =
       \<lparr>mc_Endpoint = env ev ''MINIO_ENDPOINT'' ''localhost:9000'',
        mc_AccessKey = env ev ''MINIO_ACCESS_KEY'' ''minioadmin'',
        mc_SecretKey = env ev ''MINIO_SECRET_KEY'' ''minioadmin'',
        mc_Bucket = env ev ''MINIO_BUCKET'' ''proofs'', mc_UseSSL = envBool ev ''MINIO_USE_SSL'' False\<rparr>,
     cf_Pricing = \<lparr>rc_Standard = 0, rc_Electronic = 0\<rparr>,
     cf_Worker =
       \<lparr>kc_SweepInterval = envDuration ev ''SWEEP_INTERVAL'' nanos_minute,
        kc_OrganicTTL = envDuration ev ''ORGANIC_TTL'' (72 * nanos_hour)\<rparr>,
     cf_RateLimit =
       \<lparr>lc_RPM = envInt64 ev ''PICKUP_RATE_RPM'' 30, lc_Burst = envInt64 ev ''PICKUP_RATE_BURST'' 10\<rparr>\<rparr>"

definition Load :: "(string \<Rightarrow> string + decimal) \<Rightarrow> environment \<Rightarrow> string + Config" where
  "Load parse ev =
    (let cfg = Load_settings ev
     in case envDecimal parse ev ''PRICE_STANDARD'' ''50000'' of
          Inl err \<Rightarrow> Inl err
        | Inr standard \<Rightarrow>
            (case envDecimal parse ev ''PRICE_ELECTRONIC'' ''100000'' of
               Inl err \<Rightarrow> Inl err
             | Inr electronic \<Rightarrow>
                 (let cfg = cfg\<lparr>cf_Pricing := \<lparr>rc_Standard = standard, rc_Electronic = electronic\<rparr>\<rparr>
                  in case Validate cfg of Some err \<Rightarrow> Inl err | None \<Rightarrow> Inr cfg)))"

end
