(* ===== verification/Startup.thy ===== *)
theory Startup
  imports Web Env
begin

text \<open>
  How the program starts and ends: \<open>NewPool\<close> and \<open>NewMinIO\<close>, \<open>app.New\<close>, \<open>db.Migrate\<close> and \<open>main\<close>, and
  what \<open>Load\<close> decides; \<open>App.Run\<close>, an argument of \<open>main\<close>, is in \<open>AppRun\<close>. The state of start-up is the state of the
  program, the pools that are open, and the buckets with their policies. Constructors and parsers of
  third-party packages are arguments that succeed or return an error; calls over the network take
  their outcome from the script of the state.
\<close>

record boot =
  bt_world :: world
  bt_pools :: nat
  bt_buckets :: "string \<rightharpoonup> string option"

definition bt_call :: "(boot \<Rightarrow> boot) \<Rightarrow> boot \<Rightarrow> go_error option \<times> boot" where
  "bt_call eff s =
    (case next_outcome (bt_world s) of
       (Reply, w) \<Rightarrow> (None, eff (s\<lparr>bt_world := w\<rparr>))
     | (Refused e, w) \<Rightarrow> (Some e, s\<lparr>bt_world := w\<rparr>)
     | (ReplyLost e, w) \<Rightarrow> (Some e, eff (s\<lparr>bt_world := w\<rparr>)))"

section \<open>The pool\<close>

record PoolConfig =
  pp_MaxConns :: "32 word"
  pp_MinConns :: "32 word"
  pp_MaxConnLifetime :: duration
  pp_MaxConnIdleTime :: duration
  pp_HealthCheckPeriod :: duration
  pp_RuntimeParams :: "string \<rightharpoonup> string"

definition pool_settings :: "PostgresConfig \<Rightarrow> PoolConfig \<Rightarrow> PoolConfig" where
  "pool_settings cfg pc =
    (let pc = pc\<lparr>pp_MaxConns := pc_MaxConns cfg, pp_MinConns := pc_MinConns cfg,
        pp_MaxConnLifetime := pc_MaxConnLifetime cfg, pp_MaxConnIdleTime := pc_MaxConnIdleTime cfg,
        pp_HealthCheckPeriod := pc_HealthCheckPeriod cfg\<rparr>
     in if 0 < pc_StatementTimeout cfg
        then pc\<lparr>pp_RuntimeParams := (pp_RuntimeParams pc)
          (''statement_timeout'' \<mapsto> show_nat (nat (pc_StatementTimeout cfg div 1000000)))\<rparr>
        else pc)"

definition pool_Close :: "boot \<Rightarrow> boot" where
  "pool_Close s = s\<lparr>bt_pools := bt_pools s - 1\<rparr>"

definition NewPool ::
  "(string \<Rightarrow> go_error + PoolConfig) \<Rightarrow> (PoolConfig \<Rightarrow> go_error option) \<Rightarrow> PostgresConfig \<Rightarrow> (boot, PoolConfig) act" where
  "NewPool ParseConfig NewWithConfig cfg s =
    (case ParseConfig (DSN cfg) of
       Inl err \<Rightarrow> (Inl err, s)
     | Inr pc \<Rightarrow>
         (let pc = pool_settings cfg pc
          in case NewWithConfig pc of
               Some err \<Rightarrow> (Inl err, s)
             | None \<Rightarrow>
                 (let s = s\<lparr>bt_pools := bt_pools s + 1\<rparr>
                  in case bt_call id s of
                       (Some err, s) \<Rightarrow> (Inl err, pool_Close s)
                     | (None, s) \<Rightarrow> (Inr pc, s))))"

section \<open>The bucket\<close>

definition publicReadPolicy :: "string \<Rightarrow> string" where
  "publicReadPolicy bucket =
    ''{\"Version\":\"2012-10-17\",\"Statement\":[{\"Effect\":\"Allow\",\"Principal\":{\"AWS\":[\"*\"]},\"Action\":[\"s3:GetObject\"],\"Resource\":[\"arn:aws:s3:::'' @
      bucket @ ''/*\"]}]}''"

definition open_MinIO :: "(MinIOConfig \<Rightarrow> go_error option) \<Rightarrow> MinIOConfig \<Rightarrow> (boot, MinIO) act" where
  "open_MinIO minio_New cfg s =
    (case minio_New cfg of
       Some err \<Rightarrow> (Inl err, s)
     | None \<Rightarrow>
         (case bt_call id s of
            (Some err, s) \<Rightarrow> (Inl err, s)
          | (None, s) \<Rightarrow>
              (let exists = bt_buckets s (mc_Bucket cfg) \<noteq> None;
                   (made, s) = (if \<not> exists
                      then bt_call (\<lambda>s. s\<lparr>bt_buckets := (bt_buckets s)(mc_Bucket cfg \<mapsto> None)\<rparr>) s
                      else (None, s))
               in case made of
                    Some err \<Rightarrow> (Inl err, s)
                  | None \<Rightarrow>
                      (case bt_call (\<lambda>s. s\<lparr>bt_buckets := (bt_buckets s)
                              (mc_Bucket cfg \<mapsto> Some (publicReadPolicy (mc_Bucket cfg)))\<rparr>) s of
                         (Some err, s) \<Rightarrow> (Inl err, s)
                       | (None, s) \<Rightarrow> (Inr (NewMinIO cfg), s)))))"

section \<open>app.New\<close>

record 'b Application =
  ap_cfg :: Config
  ap_logger :: logger
  ap_pool :: PoolConfig
  ap_storage :: MinIO
  ap_scheduler :: "world Scheduler"
  ap_limiter :: "'b IPRateLimiter"

record Drivers =
  dr_ParseConfig :: "string \<Rightarrow> go_error + PoolConfig"
  dr_NewWithConfig :: "PoolConfig \<Rightarrow> go_error option"
  dr_minio_New :: "MinIOConfig \<Rightarrow> go_error option"

definition app_New :: "Drivers \<Rightarrow> Config \<Rightarrow> logger \<Rightarrow> (boot, 'b Application) act" where
  "app_New dr cfg logger s =
    (case NewPool (dr_ParseConfig dr) (dr_NewWithConfig dr) (cf_Postgres cfg) s of
       (Inl err, s) \<Rightarrow> (Inl err, s)
     | (Inr pool, s) \<Rightarrow>
         (case open_MinIO (dr_minio_New dr) (cf_MinIO cfg) s of
            (Inl err, s) \<Rightarrow> (Inl err, pool_Close s)
          | (Inr store, s) \<Rightarrow>
              (Inr \<lparr>ap_cfg = cfg, ap_logger = logger, ap_pool = pool, ap_storage = store,
                    ap_scheduler = app_scheduler cfg logger, ap_limiter = app_limiter cfg\<rparr>, s)))"

definition app_Close :: "'b Application \<Rightarrow> boot \<Rightarrow> boot" where
  "app_Close a s = pool_Close s"

section \<open>db.Migrate and main\<close>

record Migrations =
  mg_iofs_New :: "go_error option"
  mg_New :: "string \<Rightarrow> go_error option"
  mg_Up :: "go_error option"
  mg_Down :: "go_error option"
  mg_ErrNoChange :: go_error

definition Migrate :: "Migrations \<Rightarrow> string \<Rightarrow> string \<Rightarrow> go_error option" where
  "Migrate mg dsn direction =
    (case mg_iofs_New mg of
       Some err \<Rightarrow> Some err
     | None \<Rightarrow>
         (case mg_New mg dsn of
            Some err \<Rightarrow> Some err
          | None \<Rightarrow>
              if direction \<noteq> ''up'' \<and> direction \<noteq> ''down''
              then Some (Opaque (''unknown migrate direction: '' @ direction))
              else
                (case (if direction = ''up'' then mg_Up mg else mg_Down mg) of
                   Some err \<Rightarrow> if errors_Is err (mg_ErrNoChange mg) then None else Some err
                 | None \<Rightarrow> None)))"

text \<open>The status of the response to the probe, if there is one.\<close>

definition healthProbe :: "(string \<Rightarrow> int option) \<Rightarrow> string \<Rightarrow> int" where
  "healthProbe client_Get port =
    (case client_Get (''http://127.0.0.1:'' @ port @ ''/healthz'') of
       None \<Rightarrow> 1
     | Some status \<Rightarrow> if status \<noteq> 200 then 1 else 0)"

text \<open>The base of the logger's configuration, and its level when the text names one.\<close>

datatype log_base = DevelopmentConfig | ProductionConfig

definition newLogger :: "(string \<Rightarrow> 'l option) \<Rightarrow> string \<Rightarrow> string \<Rightarrow> log_base \<times> 'l option" where
  "newLogger ParseAtomicLevel lvl ev =
    ((if ev = ''local'' \<or> ev = ''development'' then DevelopmentConfig else ProductionConfig),
     ParseAtomicLevel lvl)"

text \<open>
  What \<open>main\<close> leaves behind: its exit code, its messages, and the state. \<open>Fatal\<close> logs and exits with
  1 at once; deferred functions do not run then.
\<close>

record outcome_of_main =
  om_exit :: int
  om_log :: "string list"
  om_state :: boot

definition main ::
  "Drivers \<Rightarrow> Migrations \<Rightarrow> (string \<Rightarrow> int option) \<Rightarrow> ('b Application \<Rightarrow> boot \<Rightarrow> go_error option \<times> boot) \<Rightarrow>
   string + Config \<Rightarrow> bool \<Rightarrow> string \<Rightarrow> boot \<Rightarrow> outcome_of_main" where
  "main dr mg client_Get Run loaded healthFlag migrateFlag s =
    (case loaded of
       Inl err \<Rightarrow> \<lparr>om_exit = 1, om_log = [err], om_state = s\<rparr>
     | Inr cfg \<Rightarrow>
         if healthFlag
         then \<lparr>om_exit = healthProbe client_Get (cf_AppPort cfg), om_log = [], om_state = s\<rparr>
         else if migrateFlag \<noteq> []
         then
           (case Migrate mg (DSN (cf_Postgres cfg)) migrateFlag of
              Some err \<Rightarrow> \<lparr>om_exit = 1, om_log = [''migrate''], om_state = s\<rparr>
            | None \<Rightarrow> \<lparr>om_exit = 0, om_log = [''migrate_done''], om_state = s\<rparr>)
         else
           (case app_New dr cfg [] s of
              (Inl err, s) \<Rightarrow> \<lparr>om_exit = 1, om_log = [''startup''], om_state = s\<rparr>
            | (Inr application, s) \<Rightarrow>
                (case Run application s of
                   (Some err, s) \<Rightarrow> \<lparr>om_exit = 1, om_log = [''starting'', ''run''], om_state = s\<rparr>
                 | (None, s) \<Rightarrow>
                     \<lparr>om_exit = 0, om_log = [''starting'', ''stopped''], om_state = app_Close application s\<rparr>)))"

section \<open>Lemmas\<close>

lemma bt_call_pools: "(\<And>s. bt_pools (eff s) = bt_pools s) \<Longrightarrow> bt_pools (snd (bt_call eff s)) = bt_pools s"
  by (simp add: bt_call_def split: prod.split outcome.split)

section \<open>Properties\<close>

text \<open>
  Starting up leaks nothing: when \<open>New\<close> fails, at whichever step, the pool it opened is closed
  again, and when it succeeds one pool is open and the bucket of the proofs exists and can be read by
  everyone.
\<close>

theorem New_releases:
  assumes "app_New dr cfg logger s = (r, s')"
  shows "case r of
      Inl err \<Rightarrow> bt_pools s' = bt_pools s
    | Inr a \<Rightarrow> bt_pools s' = bt_pools s + 1 \<and>
        bt_buckets s' (mc_Bucket (cf_MinIO cfg)) = Some (Some (publicReadPolicy (mc_Bucket (cf_MinIO cfg))))"
  using assms
  by (auto simp: app_New_def NewPool_def open_MinIO_def bt_call_def pool_Close_def Let_def
      split: sum.splits prod.splits option.splits outcome.splits if_splits)

theorem New_releases_witness:
  "\<exists>err s'. (app_New \<lparr>dr_ParseConfig = (\<lambda>_. Inr \<lparr>pp_MaxConns = 4, pp_MinConns = 0, pp_MaxConnLifetime = 0,
        pp_MaxConnIdleTime = 0, pp_HealthCheckPeriod = 0, pp_RuntimeParams = Map.empty\<rparr>),
      dr_NewWithConfig = (\<lambda>_. None), dr_minio_New = (\<lambda>_. None)\<rparr> demo_config []
      \<lparr>bt_world = demo [Reply, Refused NetError], bt_pools = 0, bt_buckets = Map.empty\<rparr> ::
      (go_error + bucket Application) \<times> boot) = (Inl err, s') \<and> bt_pools s' = 0"
proof -
  let ?x = "app_New \<lparr>dr_ParseConfig = (\<lambda>_. Inr \<lparr>pp_MaxConns = 4, pp_MinConns = 0, pp_MaxConnLifetime = 0,
        pp_MaxConnIdleTime = 0, pp_HealthCheckPeriod = 0, pp_RuntimeParams = Map.empty\<rparr>),
      dr_NewWithConfig = (\<lambda>_. None), dr_minio_New = (\<lambda>_. None)\<rparr> demo_config []
      \<lparr>bt_world = demo [Reply, Refused NetError], bt_pools = 0, bt_buckets = Map.empty\<rparr> ::
      (go_error + bucket Application) \<times> boot"
  obtain r s' where x: "?x = (r, s')" by fastforce
  have "isl r" using arg_cong [OF x, of "\<lambda>x. isl (fst x)"]
    by (simp add: app_New_def NewPool_def open_MinIO_def bt_call_def next_outcome_def Let_def)
  then obtain err where "r = Inl err" by (cases r) auto
  with New_releases [OF x] x show ?thesis by simp
qed

section \<open>Configurations\<close>

text \<open>Without any variable set, \<open>Load\<close> gives the configuration of the examples.\<close>

definition plain_decimal :: "string \<Rightarrow> string + decimal" where
  "plain_decimal s =
    (case Atoi_int s of None \<Rightarrow> Inl ''can't convert to decimal'' | Some n \<Rightarrow> Inr (of_int n))"

lemma Load_defaults: "Load plain_decimal (\<lambda>_. None) = Inr demo_config"
  by (simp add: Load_def Load_settings_def envDecimal_def env_def env_parsed_def envDuration_def
      envInt64_def envBool_def envStrings_def plain_decimal_def Atoi_int_def digit_of_def Let_def
      TrimSpace_id IsSpace_def Validate_def demo_config_def nanos_second_def nanos_minute_def
      nanos_hour_def int32_def)

lemma leadingInt_nonneg: "leadingInt x s = Some (v, r) \<Longrightarrow> 0 \<le> x \<Longrightarrow> 0 \<le> v"
  by (induction x s rule: leadingInt.induct) (auto simp: digit_of_def Let_def split: option.splits if_splits)

lemma leadingFraction_nonneg:
  "leadingFraction x k b s = (f, scale, r) \<Longrightarrow> 0 \<le> x \<Longrightarrow> 0 < k \<Longrightarrow> 0 \<le> f \<and> 0 < scale"
  by (induction x k b s rule: leadingFraction.induct)
    (auto simp: digit_of_def Let_def split: option.splits if_splits)

lemma unitMap_pos: "unitMap u = Some n \<Longrightarrow> 0 < n"
  by (auto simp: unitMap_def split: if_splits)

lemma duration_part_nonneg: "duration_part s = Some (v, r) \<Longrightarrow> 0 \<le> v"
  by (auto simp: duration_part_def Let_def pos_imp_zdiv_nonneg_iff
      simp del: leadingInt.simps leadingFraction.simps
      dest!: leadingInt_nonneg leadingFraction_nonneg unitMap_pos
      split: list.splits option.splits if_splits prod.splits)

lemma duration_parts_range:
  "duration_parts d s = Some n \<Longrightarrow> 0 \<le> d \<Longrightarrow> d \<le> 2 ^ 63 \<Longrightarrow> 0 \<le> n \<and> n \<le> 2 ^ 63"
proof (induction d s rule: duration_parts.induct)
  case (1 d s)
  show ?case
  proof (cases "s = []")
    case True
    with 1 show ?thesis by (simp add: duration_parts.simps)
  next
    case False
    with 1(2) obtain v r where p: "duration_part s = Some (v, r)" "\<not> 2 ^ 63 < d + v"
        "duration_parts (d + v) r = Some n"
      by (auto simp: duration_parts.simps [of d s] split: option.splits if_splits)
    with 1(1) [OF False p(1) refl p(2,3)] 1(3) duration_part_nonneg [OF p(1)] show ?thesis by simp
  qed
qed

definition int64_range :: "int \<Rightarrow> bool" where
  "int64_range n \<longleftrightarrow> - (2 ^ 63) \<le> n \<and> n < 2 ^ 63"

lemma ParseDuration_range: "ParseDuration s = Some d \<Longrightarrow> int64_range d"
  by (auto simp: ParseDuration_def Let_def int64_range_def dest!: duration_parts_range
      split: list.splits if_splits option.splits)

lemma envDuration_range: "int64_range def \<Longrightarrow> int64_range (envDuration ev key def)"
  by (auto simp: envDuration_def env_parsed_def dest: ParseDuration_range split: option.split)

lemma default_ranges:
  "int64_range (5 * nanos_second)" "int64_range (10 * nanos_second)" "int64_range nanos_hour"
  "int64_range (30 * nanos_minute)" "int64_range nanos_minute" "int64_range (72 * nanos_hour)"
  by (simp_all add: int64_range_def nanos_second_def nanos_minute_def nanos_hour_def)

lemma Load_cases:
  "Load parse ev =
    (case parse (env ev ''PRICE_STANDARD'' ''50000'') of
       Inl err \<Rightarrow> Inl err
     | Inr standard \<Rightarrow>
         (case parse (env ev ''PRICE_ELECTRONIC'' ''100000'') of
            Inl err \<Rightarrow> Inl err
          | Inr electronic \<Rightarrow>
              (case Validate (Load_settings ev) of
                 Some err \<Rightarrow> Inl err
               | None \<Rightarrow> Inr ((Load_settings ev)\<lparr>cf_Pricing :=
                   \<lparr>rc_Standard = standard, rc_Electronic = electronic\<rparr>\<rparr>))))"
proof -
  have "Validate (c\<lparr>cf_Pricing := p\<rparr>) = Validate c" for c p by (simp add: Validate_def)
  then show ?thesis by (simp add: Load_def envDecimal_def Let_def cong: sum.case_cong)
qed

text \<open>A default stands in for a variable that is not set or empty, so settings with one are never empty.\<close>

lemma env_nonempty: "def \<noteq> [] \<Longrightarrow> env ev key def \<noteq> []"
  by (simp add: env_def split: option.split)

lemma secrets_set:
  "pc_Password (cf_Postgres (Load_settings ev)) \<noteq> []" "mc_AccessKey (cf_MinIO (Load_settings ev)) \<noteq> []"
  "mc_SecretKey (cf_MinIO (Load_settings ev)) \<noteq> []"
  by (simp_all add: Load_settings_def env_nonempty)

lemma Load_settings_durations:
  "list_all int64_range
    [cf_RequestTimeout (Load_settings ev), cf_ShutdownTimeout (Load_settings ev),
     kc_SweepInterval (cf_Worker (Load_settings ev)), kc_OrganicTTL (cf_Worker (Load_settings ev)),
     pc_MaxConnLifetime (cf_Postgres (Load_settings ev)), pc_MaxConnIdleTime (cf_Postgres (Load_settings ev)),
     pc_HealthCheckPeriod (cf_Postgres (Load_settings ev)), pc_StatementTimeout (cf_Postgres (Load_settings ev))]"
  by (simp add: Load_settings_def envDuration_range default_ranges)

text \<open>
  Claim C21. \<open>Load\<close> decides as follows for every environment. It returns a configuration whose prices
  are those of the environment or the defaults, whose upload limit is below the body limit, whose
  allowed types are some non-empty texts, whose eight durations fit in 64 bits, and which in
  production neither switches TLS to the database off nor opens CORS to everybody; or an error that names
  what fails of that. A secret that is not set is no error, in production neither: the defaults
  of \<open>env\<close> stand in for it, so the last two checks of \<open>Validate\<close> never fail.
\<close>

theorem Load_well_formed:
  "case Load parse ev of
     Inr cfg \<Rightarrow>
       parse (env ev ''PRICE_STANDARD'' ''50000'') = Inr (rc_Standard (cf_Pricing cfg)) \<and>
       parse (env ev ''PRICE_ELECTRONIC'' ''100000'') = Inr (rc_Electronic (cf_Pricing cfg)) \<and>
       sint (cf_UploadLimitBytes cfg) < sint (cf_BodyLimitBytes cfg) \<and>
       cf_UploadAllowedTypes cfg \<noteq> [] \<and> list_all (\<lambda>t. t \<noteq> []) (cf_UploadAllowedTypes cfg) \<and>
       list_all int64_range
         [cf_RequestTimeout cfg, cf_ShutdownTimeout cfg, kc_SweepInterval (cf_Worker cfg),
          kc_OrganicTTL (cf_Worker cfg), pc_MaxConnLifetime (cf_Postgres cfg),
          pc_MaxConnIdleTime (cf_Postgres cfg), pc_HealthCheckPeriod (cf_Postgres cfg),
          pc_StatementTimeout (cf_Postgres cfg)] \<and>
       list_all (\<lambda>s. s \<noteq> []) [pc_Password (cf_Postgres cfg), mc_AccessKey (cf_MinIO cfg), mc_SecretKey (cf_MinIO cfg)] \<and>
       (if env ev ''APP_ENV'' ''local'' = ''production''
        then env ev ''POSTGRES_SSLMODE'' ''disable'' \<noteq> ''disable'' \<and> env ev ''CORS_ORIGINS'' ''*'' \<noteq> ''*''
        else True)
   | Inl err \<Rightarrow>
       parse (env ev ''PRICE_STANDARD'' ''50000'') = Inl err \<or>
       parse (env ev ''PRICE_ELECTRONIC'' ''100000'') = Inl err \<or>
       err = ''config: UPLOAD_LIMIT_BYTES must be smaller than BODY_LIMIT_BYTES'' \<and>
         sint (envInt64 ev ''BODY_LIMIT_BYTES'' (push_bit 20 6)) \<le> sint (envInt64 ev ''UPLOAD_LIMIT_BYTES'' (push_bit 20 5)) \<or>
       err = ''config: UPLOAD_ALLOWED_TYPES must list at least one content type'' \<and>
         envStrings ev ''UPLOAD_ALLOWED_TYPES'' ''image/jpeg,image/png,application/pdf'' = [] \<or>
       env ev ''APP_ENV'' ''local'' = ''production'' \<and>
         (err = ''config: POSTGRES_SSLMODE=disable is not allowed in production'' \<and>
            env ev ''POSTGRES_SSLMODE'' ''disable'' = ''disable'' \<or>
          err = ''config: CORS_ORIGINS=* is not allowed in production'' \<and> env ev ''CORS_ORIGINS'' ''*'' = ''*'')"
proof -
  have settings: "cf_AppEnv (Load_settings ev) = env ev ''APP_ENV'' ''local''"
    "cf_BodyLimitBytes (Load_settings ev) = envInt64 ev ''BODY_LIMIT_BYTES'' (push_bit 20 6)"
    "cf_UploadLimitBytes (Load_settings ev) = envInt64 ev ''UPLOAD_LIMIT_BYTES'' (push_bit 20 5)"
    "cf_UploadAllowedTypes (Load_settings ev) =
      envStrings ev ''UPLOAD_ALLOWED_TYPES'' ''image/jpeg,image/png,application/pdf''"
    "pc_SSLMode (cf_Postgres (Load_settings ev)) = env ev ''POSTGRES_SSLMODE'' ''disable''"
    "cf_CORSOrigins (Load_settings ev) = env ev ''CORS_ORIGINS'' ''*''"
    by (simp_all add: Load_settings_def)
  have types: "list_all (\<lambda>t. t \<noteq> []) (envStrings ev key def)" for key "def"
    by (simp add: envStrings_def Let_def list_all_iff)
  show ?thesis
  proof (cases "Load parse ev")
    case (Inl err)
    then show ?thesis
      using secrets_set [of ev]
      by (auto simp: Load_cases Validate_def settings word_sle_eq split: sum.splits option.splits if_splits)
  next
    case (Inr cfg)
    then obtain standard electronic where
      cfg: "cfg = (Load_settings ev)\<lparr>cf_Pricing := \<lparr>rc_Standard = standard, rc_Electronic = electronic\<rparr>\<rparr>"
        "parse (env ev ''PRICE_STANDARD'' ''50000'') = Inr standard"
        "parse (env ev ''PRICE_ELECTRONIC'' ''100000'') = Inr electronic"
      and v: "Validate (Load_settings ev) = None"
      by (auto simp: Load_cases split: sum.splits option.splits)
    from v [unfolded Validate_iff settings] have
      "sint (cf_UploadLimitBytes cfg) < sint (cf_BodyLimitBytes cfg)" "cf_UploadAllowedTypes cfg \<noteq> []"
      "if env ev ''APP_ENV'' ''local'' = ''production''
       then env ev ''POSTGRES_SSLMODE'' ''disable'' \<noteq> ''disable'' \<and> env ev ''CORS_ORIGINS'' ''*'' \<noteq> ''*''
       else True"
      by (simp_all add: cfg(1) settings split: if_splits)
    moreover have "list_all (\<lambda>t. t \<noteq> []) (cf_UploadAllowedTypes cfg)" by (simp add: cfg(1) settings types)
    ultimately show ?thesis
      using Load_settings_durations [of ev] secrets_set [of ev] cfg(2,3) by (simp add: Inr cfg(1))
  qed
qed

end
