(* ===== verification/AppRun.thy ===== *)
theory AppRun
  imports Startup Program
begin

text \<open>
  \<open>App.Run\<close>: its four goroutines beside each other, over the state they share. The worker takes the steps
  of \<open>Worker\<close>, the janitor those of \<open>RateLimit\<close>, the server serves with \<open>app_serve\<close>. What Fiber's \<open>Listen\<close>
  and \<open>Shutdown\<close> do is not in the repository; of it the relation has what is documented (a shutdown
  closes the listener that is open, and \<open>Listen\<close> then returns nil); either may also return any error.
  A shutdown that comes before the listener is open closes nothing, and \<open>Listen\<close> may serve on after it.
\<close>

section \<open>State\<close>

text \<open>The goroutine of \<open>Listen\<close>: the listener is not open yet, open, closed by the shutdown, or \<open>Listen\<close> has returned.\<close>

datatype listening = Unopened | Serving | Closing | Listened "go_error option"

text \<open>
  \<open>gr_Worker\<close> is the run of \<open>Scheduler.Start\<close> with the world, once its goroutine has begun;
  \<open>gr_Scheduler\<close> and \<open>gr_Janitor\<close> say whether the goroutine has returned to the group. The group keeps the
  first error.
\<close>

record 'b run_state =
  gr_signal :: bool
  gr_error :: "go_error option"
  gr_Listen :: listening
  gr_begun :: bool
  gr_Worker :: "world running"
  gr_Scheduler :: bool
  gr_limiter :: "'b IPRateLimiter"
  gr_Janitor :: bool
  gr_Shutdown :: "go_error option option"

definition run_start :: "'b Application \<Rightarrow> world \<Rightarrow> 'b run_state" where
  "run_start a w =
    \<lparr>gr_signal = False, gr_error = None, gr_Listen = Unopened, gr_begun = False,
     gr_Worker = \<lparr>rn_loops = [], rn_state = (w, [])\<rparr>, gr_Scheduler = False,
     gr_limiter = ap_limiter a, gr_Janitor = False, gr_Shutdown = None\<rparr>"

definition gr_world :: "'b run_state \<Rightarrow> world" where
  "gr_world g = fst (rn_state (gr_Worker g))"

text \<open>The context of the group is done after a signal, or when a goroutine has returned an error.\<close>

definition gctx_Done :: "'b run_state \<Rightarrow> bool" where
  "gctx_Done g \<longleftrightarrow> gr_signal g \<or> gr_error g \<noteq> None"

definition first_error :: "go_error option \<Rightarrow> 'b run_state \<Rightarrow> 'b run_state" where
  "first_error err g = g\<lparr>gr_error := (case gr_error g of Some e \<Rightarrow> Some e | None \<Rightarrow> err)\<rparr>"

text \<open>A panic of a goroutine that nobody recovers ends the process.\<close>

definition panicked :: "'b run_state \<Rightarrow> bool" where
  "panicked g \<longleftrightarrow> Crashed \<in> set (rn_loops (gr_Worker g))"

section \<open>Steps\<close>

text \<open>What the select of a job may take: a tick at any time, the end of the context only when it is done.\<close>

definition selectable :: "'b run_state \<Rightarrow> world worker_event \<Rightarrow> bool" where
  "selectable g e = (case e of TickOf i \<Rightarrow> True | DoneOf i \<Rightarrow> gctx_Done g | Meanwhile f \<Rightarrow> False)"

definition janitor_selectable :: "'b run_state \<Rightarrow> janitor_event \<Rightarrow> bool" where
  "janitor_selectable g e =
    (case e of JanitorTick now \<Rightarrow> now = wd_now (gr_world g) | JanitorDone \<Rightarrow> gctx_Done g)"

text \<open>The network, the clock and the order of ties in the database.\<close>

definition surroundings :: "world \<Rightarrow> world \<Rightarrow> bool" where
  "surroundings w w' \<longleftrightarrow>
    (\<exists>xs. (\<forall>x \<in> set xs. outcome_ok x) \<and> w' = w\<lparr>wd_net := xs\<rparr>) \<or>
    (\<exists>n \<ge> wd_now w. w' = w\<lparr>wd_now := n\<rparr>) \<or> (\<exists>f. w' = w\<lparr>wd_db := (wd_db w)\<lparr>tb_ties := f\<rparr>\<rparr>)"

definition meanwhile :: "'b Application \<Rightarrow> world \<Rightarrow> 'b run_state \<Rightarrow> 'b run_state" where
  "meanwhile a w' g = g\<lparr>gr_Worker := Scheduler_step (ap_scheduler a) (gr_Worker g) (Meanwhile (\<lambda>_. w'))\<rparr>"

inductive goroutine ::
  "Libs \<Rightarrow> 'b RatePkg \<Rightarrow> 'b Application \<Rightarrow> 'b run_state \<Rightarrow> 'b run_state \<Rightarrow> bool" for lib pkg a where
  signal: "\<not> gr_signal g \<Longrightarrow> goroutine lib pkg a g (g\<lparr>gr_signal := True\<rparr>)"
| outside: "surroundings (gr_world g) w' \<Longrightarrow> goroutine lib pkg a g (meanwhile a w' g)"
| opened: "gr_Listen g = Unopened \<Longrightarrow> goroutine lib pkg a g (g\<lparr>gr_Listen := Serving\<rparr>)"
| failed: "gr_Listen g \<in> {Unopened, Serving, Closing} \<Longrightarrow>
    goroutine lib pkg a g (first_error (Some err) (g\<lparr>gr_Listen := Listened (Some err)\<rparr>))"
| closed: "gr_Listen g = Closing \<or> gr_Listen g = Unopened \<and> gr_Shutdown g \<noteq> None \<Longrightarrow>
    goroutine lib pkg a g (g\<lparr>gr_Listen := Listened None\<rparr>)"
| request: "gr_Listen g \<in> {Serving, Closing} \<Longrightarrow>
    app_serve lib pkg (ap_cfg a) (ap_logger a) i latency newID ((gr_limiter g, gr_world g), c) = (r, ((l, w'), c')) \<Longrightarrow>
    goroutine lib pkg a g (meanwhile a w' (g\<lparr>gr_limiter := l\<rparr>))"
| begins: "\<not> gr_begun g \<Longrightarrow>
    goroutine lib pkg a g (g\<lparr>gr_begun := True, gr_Worker := Scheduler_start (ap_scheduler a) (gr_world g)\<rparr>)"
| selects: "gr_begun g \<Longrightarrow> selectable g e \<Longrightarrow>
    goroutine lib pkg a g (g\<lparr>gr_Worker := Scheduler_step (ap_scheduler a) (gr_Worker g) e\<rparr>)"
| returned: "gr_begun g \<Longrightarrow> \<not> gr_Scheduler g \<Longrightarrow> Start_returned (gr_Worker g) \<Longrightarrow>
    goroutine lib pkg a g (g\<lparr>gr_Scheduler := True\<rparr>)"
| janitor: "\<not> gr_Janitor g \<Longrightarrow> janitor_selectable g e \<Longrightarrow> janitor_select e (gr_limiter g) = (on, l) \<Longrightarrow>
    goroutine lib pkg a g (g\<lparr>gr_limiter := l, gr_Janitor := \<not> on\<rparr>)"
| shutdown: "gr_Shutdown g = None \<Longrightarrow> gctx_Done g \<Longrightarrow>
    goroutine lib pkg a g (first_error err (g\<lparr>gr_Shutdown := Some err,
      gr_Listen := (if gr_Listen g = Serving then Closing else gr_Listen g)\<rparr>))"

definition run_step ::
  "Libs \<Rightarrow> 'b RatePkg \<Rightarrow> 'b Application \<Rightarrow> 'b run_state \<Rightarrow> 'b run_state \<Rightarrow> bool" where
  "run_step lib pkg a g h \<longleftrightarrow> \<not> panicked g \<and> goroutine lib pkg a g h"

text \<open>\<open>g.Wait()\<close> returns, with the first error, when all four have returned.\<close>

definition Wait_returned :: "'b run_state \<Rightarrow> bool" where
  "Wait_returned g \<longleftrightarrow>
     (\<exists>err. gr_Listen g = Listened err) \<and> gr_Scheduler g \<and> gr_Janitor g \<and> gr_Shutdown g \<noteq> None"

section \<open>What is left to do\<close>

definition open_loops :: "'b Application \<Rightarrow> 'b run_state \<Rightarrow> nat" where
  "open_loops a g =
    (if gr_begun g then length (filter (\<lambda>l. l = Waiting) (rn_loops (gr_Worker g)))
     else Suc (length (sc_jobs (ap_scheduler a))))"

definition remaining :: "'b Application \<Rightarrow> 'b run_state \<Rightarrow> nat" where
  "remaining a g =
    (case gr_Listen g of Unopened \<Rightarrow> 3 | Serving \<Rightarrow> 2 | Closing \<Rightarrow> 1 | Listened _ \<Rightarrow> 0) + open_loops a g +
    (if gr_Scheduler g then 0 else 1) + (if gr_Janitor g then 0 else 1) + (if gr_Shutdown g = None then 1 else 0)"

lemma run_sel [simp]:
  "gr_signal (first_error e g) = gr_signal g" "gr_Listen (first_error e g) = gr_Listen g"
  "gr_begun (first_error e g) = gr_begun g" "gr_Worker (first_error e g) = gr_Worker g"
  "gr_Scheduler (first_error e g) = gr_Scheduler g" "gr_limiter (first_error e g) = gr_limiter g"
  "gr_Janitor (first_error e g) = gr_Janitor g" "gr_Shutdown (first_error e g) = gr_Shutdown g"
  "gr_error (first_error e g) = (case gr_error g of Some x \<Rightarrow> Some x | None \<Rightarrow> e)"
  "gr_signal (meanwhile a w g) = gr_signal g" "gr_Listen (meanwhile a w g) = gr_Listen g"
  "gr_begun (meanwhile a w g) = gr_begun g" "rn_loops (gr_Worker (meanwhile a w g)) = rn_loops (gr_Worker g)"
  "gr_Scheduler (meanwhile a w g) = gr_Scheduler g" "gr_limiter (meanwhile a w g) = gr_limiter g"
  "gr_Janitor (meanwhile a w g) = gr_Janitor g" "gr_Shutdown (meanwhile a w g) = gr_Shutdown g"
  "gr_error (meanwhile a w g) = gr_error g"
  by (simp_all add: first_error_def meanwhile_def)

abbreviation waiting :: "loop list \<Rightarrow> nat" where
  "waiting ls \<equiv> length (filter (\<lambda>l. l = Waiting) ls)"

lemma waiting_finish:
  "i < length ls \<Longrightarrow> ls ! i = Waiting \<Longrightarrow> Suc (waiting (ls[i := Finished])) = waiting ls"
proof (induction ls arbitrary: i)
  case (Cons l ls)
  then show ?case by (cases i) auto
qed simp

lemma waiting_step: "waiting (rn_loops (Scheduler_step s r e)) \<le> waiting (rn_loops r)"
  by (cases e) (auto dest!: waiting_finish [of _ "rn_loops r"])

lemma goroutine_remaining: "goroutine lib pkg a g h \<Longrightarrow> remaining a h \<le> remaining a g"
proof (induction rule: goroutine.induct)
  case (begins g)
  have "length (filter P (sc_jobs (ap_scheduler a))) \<le> Suc (length (sc_jobs (ap_scheduler a)))" for P
    by (rule le_SucI [OF length_filter_le])
  with begins show ?case by (simp add: remaining_def open_loops_def Scheduler_start_def)
next
  case (selects g e)
  then show ?case by (simp add: remaining_def open_loops_def waiting_step)
qed (auto simp: remaining_def open_loops_def split: listening.splits)

section \<open>What holds throughout\<close>

text \<open>
  A worker with positive intervals does not panic, the goroutines return only after the end of
  the context, and the error of the group is the error of the listener or of the shutdown.
\<close>

definition run_inv :: "'b Application \<Rightarrow> 'b run_state \<Rightarrow> bool" where
  "run_inv a g \<longleftrightarrow>
     set (rn_loops (gr_Worker g)) \<subseteq> {Waiting, Finished} \<and>
     (gr_begun g \<longrightarrow> length (rn_loops (gr_Worker g)) = length (sc_jobs (ap_scheduler a))) \<and>
     (Finished \<in> set (rn_loops (gr_Worker g)) \<or> gr_Janitor g \<or> gr_Shutdown g \<noteq> None \<longrightarrow> gctx_Done g) \<and>
     (gr_Scheduler g \<longrightarrow> gr_begun g \<and> Start_returned (gr_Worker g)) \<and>
     (\<forall>e. gr_error g = Some e \<longrightarrow> gr_Listen g = Listened (Some e) \<or> gr_Shutdown g = Some (Some e))"

lemma Done_step: "goroutine lib pkg a g h \<Longrightarrow> gctx_Done g \<Longrightarrow> gctx_Done h"
  by (induction rule: goroutine.induct) (auto simp: gctx_Done_def split: option.split)

lemma Start_returned_step: "Start_returned r \<Longrightarrow> Start_returned (Scheduler_step s r e)"
  by (cases e) (auto simp: Start_returned_def list_all_length)

lemma Start_returned_meanwhile [simp]:
  "Start_returned (gr_Worker (meanwhile a w g)) = Start_returned (gr_Worker g)"
  by (simp add: Start_returned_def)

lemma loops_step:
  assumes "set (rn_loops r) \<subseteq> {Waiting, Finished}"
  shows "set (rn_loops (Scheduler_step s r e)) \<subseteq> {Waiting, Finished} \<and>
    length (rn_loops (Scheduler_step s r e)) = length (rn_loops r) \<and>
    (Finished \<in> set (rn_loops (Scheduler_step s r e)) \<longrightarrow> Finished \<in> set (rn_loops r) \<or> (\<exists>i. e = DoneOf i))"
proof (cases e)
  case (DoneOf i)
  with assms set_update_subset_insert [of "rn_loops r" i Finished] show ?thesis
    by (simp add: Scheduler_step_loops) blast
qed (use assms in \<open>simp_all add: Scheduler_step_loops\<close>)

lemma run_inv_step:
  assumes pos: "list_all (\<lambda>j. 0 < jb_Interval j) (sc_jobs (ap_scheduler a))"
    and step: "goroutine lib pkg a g h" and inv: "run_inv a g"
  shows "run_inv a h"
  using step inv Done_step [OF step]
proof (induction rule: goroutine.induct)
  case (begins g)
  have "set (map runJob_start (sc_jobs (ap_scheduler a))) \<subseteq> {Waiting}"
    using pos by (auto simp: runJob_start_def list_all_iff not_le)
  with begins show ?case
    by (auto simp: run_inv_def Scheduler_start_def gctx_Done_def)
next
  case (selects g e)
  then show ?case
    using loops_step [of "gr_Worker g" "ap_scheduler a" e]
    by (auto simp: run_inv_def gctx_Done_def selectable_def Start_returned_step)
next
  case (outside g w')
  then show ?case
    by (auto simp: run_inv_def gctx_Done_def)
next
  case (request g i latency newID c r l w' c')
  then show ?case
    by (auto simp: run_inv_def gctx_Done_def)
next
  case (janitor g e "on" l)
  then show ?case
    by (cases e) (auto simp: run_inv_def gctx_Done_def janitor_selectable_def)
next
  case (failed g err)
  then show ?case by (auto simp: run_inv_def gctx_Done_def split: option.splits)
next
  case (shutdown g err)
  then show ?case by (auto simp: run_inv_def gctx_Done_def split: option.splits)
next
  case (closed g)
  then show ?case by (auto simp: run_inv_def gctx_Done_def)
qed (auto simp: run_inv_def gctx_Done_def)

lemma run_inv_start: "run_inv a (run_start a w)"
  by (simp add: run_inv_def run_start_def)

section \<open>Run returns\<close>

text \<open>
  From here on the context is done, and the listener has been opened before the shutdown, or has failed.
\<close>

definition ending :: "'b run_state \<Rightarrow> bool" where
  "ending g \<longleftrightarrow> gctx_Done g \<and> gr_Listen g \<noteq> Unopened \<and> (gr_Shutdown g \<noteq> None \<longrightarrow> gr_Listen g \<noteq> Serving)"

lemma ending_step: "goroutine lib pkg a g h \<Longrightarrow> ending g \<Longrightarrow> ending h"
proof -
  assume step: "goroutine lib pkg a g h" and "ending g"
  then have "gctx_Done h" using Done_step by (auto simp: ending_def)
  moreover from step \<open>ending g\<close> have
    "gr_Listen h \<noteq> Unopened \<and> (gr_Shutdown h \<noteq> None \<longrightarrow> gr_Listen h \<noteq> Serving)"
    by (induction rule: goroutine.induct) (auto simp: ending_def)
  ultimately show "ending h" by (simp add: ending_def)
qed

text \<open>A step that takes a goroutine nearer to its return.\<close>

definition nearer :: "Libs \<Rightarrow> 'b RatePkg \<Rightarrow> 'b Application \<Rightarrow> 'b run_state \<Rightarrow> 'b run_state \<Rightarrow> bool" where
  "nearer lib pkg a g h \<longleftrightarrow> run_step lib pkg a g h \<and> remaining a h < remaining a g"

lemma run_inv_sound: "run_inv a g \<Longrightarrow> \<not> panicked g"
  by (auto simp: run_inv_def panicked_def)

lemma nearerI: "run_inv a g \<Longrightarrow> goroutine lib pkg a g h \<Longrightarrow> remaining a h < remaining a g \<Longrightarrow> nearer lib pkg a g h"
  by (simp add: nearer_def run_step_def run_inv_sound)

lemma waiting_loop:
  assumes "set ls \<subseteq> {Waiting, Finished}" and "\<not> list_all (\<lambda>l. l = Finished) ls"
  shows "\<exists>i < length ls. ls ! i = Waiting"
proof -
  from assms have "Waiting \<in> set ls" by (auto simp: list_all_iff)
  then show ?thesis by (simp add: in_set_conv_nth)
qed

lemma nearer_exists:
  fixes lib :: Libs
  assumes inv: "run_inv a g" and "end": "ending g" and "\<not> Wait_returned g"
  shows "\<exists>h. nearer lib pkg a g h"
proof -
  have fin: "gctx_Done g" using "end" by (simp add: ending_def)
  from assms(3) consider "gr_Shutdown g = None" | "\<not> gr_Janitor g" | "\<not> gr_begun g"
    | "gr_begun g" "\<not> gr_Scheduler g" | "gr_Shutdown g \<noteq> None" "\<nexists>err. gr_Listen g = Listened err"
    unfolding Wait_returned_def by blast
  then show ?thesis
  proof cases
    case 1
    with nearerI [OF inv goroutine.shutdown [OF 1 fin, of lib pkg a None]] show ?thesis
      by (cases "gr_Listen g"; cases "gr_begun g") (auto simp: remaining_def open_loops_def)
  next
    case 2
    have "janitor_selectable g JanitorDone" using fin by (simp add: janitor_selectable_def)
    from nearerI [OF inv goroutine.janitor [OF 2 this, of False "gr_limiter g" lib pkg a]] 2 show ?thesis
      by (cases "gr_begun g") (auto simp: remaining_def open_loops_def)
  next
    case 3
    have "length (filter P (sc_jobs (ap_scheduler a))) < Suc (length (sc_jobs (ap_scheduler a)))" for P
      by (simp add: less_Suc_eq_le)
    with 3 nearerI [OF inv goroutine.begins [OF 3, of lib pkg a]] show ?thesis
      by (auto simp: remaining_def open_loops_def Scheduler_start_def)
  next
    case 4
    show ?thesis
    proof (cases "Start_returned (gr_Worker g)")
      case True
      have "remaining a (g\<lparr>gr_Scheduler := True\<rparr>) < remaining a g"
        using 4 by (simp add: remaining_def open_loops_def)
      with nearerI [OF inv goroutine.returned [OF 4 True]] show ?thesis by blast
    next
      case False
      from inv have "set (rn_loops (gr_Worker g)) \<subseteq> {Waiting, Finished}" by (simp add: run_inv_def)
      from waiting_loop [OF this False [unfolded Start_returned_def]] obtain i where
        i: "i < length (rn_loops (gr_Worker g))" "rn_loops (gr_Worker g) ! i = Waiting" by blast
      have "selectable g (DoneOf i)" using fin by (simp add: selectable_def)
      moreover have "remaining a (g\<lparr>gr_Worker := Scheduler_step (ap_scheduler a) (gr_Worker g) (DoneOf i)\<rparr>) < remaining a g"
        using waiting_finish [OF i] i 4 by (simp add: remaining_def open_loops_def)
      ultimately show ?thesis using nearerI [OF inv goroutine.selects [OF 4(1)]] by blast
    qed
  next
    case 5
    with "end" have "gr_Listen g = Closing" by (cases "gr_Listen g") (auto simp: ending_def)
    with nearerI [OF inv goroutine.closed [of g lib pkg a]] show ?thesis
      by (cases "gr_begun g") (auto simp: remaining_def open_loops_def)
  qed
qed

text \<open>
  An infinite run of the goroutines and their surroundings, in which those that could come nearer to
  their return are not all put off for ever.
\<close>

definition fair_run :: "Libs \<Rightarrow> 'b RatePkg \<Rightarrow> 'b Application \<Rightarrow> (nat \<Rightarrow> 'b run_state) \<Rightarrow> bool" where
  "fair_run lib pkg a r \<longleftrightarrow>
     (\<forall>i. run_step lib pkg a (r i) (r (Suc i))) \<and>
     (\<forall>i. (\<forall>j \<ge> i. \<exists>h. nearer lib pkg a (r j) h) \<longrightarrow> (\<exists>j \<ge> i. nearer lib pkg a (r j) (r (Suc j))))"

definition kept_up :: "'b Application \<Rightarrow> 'b run_state \<Rightarrow> bool" where
  "kept_up a g \<longleftrightarrow> run_inv a g \<and> ending g"

lemma fair_run_returns:
  assumes pos: "list_all (\<lambda>j. 0 < jb_Interval j) (sc_jobs (ap_scheduler a))"
    and fair: "fair_run lib pkg a r"
  shows "kept_up a (r i) \<Longrightarrow> \<exists>j \<ge> i. Wait_returned (r j)"
proof (induction "remaining a (r i)" arbitrary: i rule: less_induct)
  case less
  have step: "goroutine lib pkg a (r j) (r (Suc j))" for j
    using fair by (simp add: fair_run_def run_step_def)
  have kept: "kept_up a (r j) \<and> remaining a (r j) \<le> remaining a (r i)" if "i \<le> j" for j
    using that
  proof (induction rule: dec_induct)
    case (step n)
    then show ?case
      using run_inv_step [OF pos \<open>\<And>j. goroutine lib pkg a (r j) (r (Suc j))\<close>]
        ending_step [OF \<open>\<And>j. goroutine lib pkg a (r j) (r (Suc j))\<close>]
        goroutine_remaining [OF \<open>\<And>j. goroutine lib pkg a (r j) (r (Suc j))\<close>, of n]
      by (auto simp: kept_up_def)
  qed (use less.prems in simp)
  show ?case
  proof (cases "\<exists>j \<ge> i. Wait_returned (r j)")
    case False
    then have "\<forall>j \<ge> i. \<exists>h. nearer lib pkg a (r j) h"
      using kept nearer_exists unfolding kept_up_def by blast
    with fair obtain j where j: "i \<le> j" "nearer lib pkg a (r j) (r (Suc j))"
      unfolding fair_run_def by blast
    then have "remaining a (r (Suc j)) < remaining a (r i)"
      using kept [of j] by (simp add: nearer_def)
    moreover have "kept_up a (r (Suc j))" using kept [of "Suc j"] j(1) by simp
    ultimately obtain k where "Suc j \<le> k" "Wait_returned (r k)" using less.hyps by blast
    with j(1) show ?thesis by (meson Suc_leD le_trans)
  qed
qed

lemma can_return:
  assumes pos: "list_all (\<lambda>j. 0 < jb_Interval j) (sc_jobs (ap_scheduler a))"
  shows "kept_up a g \<Longrightarrow> \<exists>h. (run_step lib pkg a)\<^sup>*\<^sup>* g h \<and> Wait_returned h"
proof (induction "remaining a g" arbitrary: g rule: less_induct)
  case less
  show ?case
  proof (cases "Wait_returned g")
    case False
    with less.prems obtain h where h: "nearer lib pkg a g h"
      using nearer_exists unfolding kept_up_def by blast
    then have "kept_up a h"
      using less.prems run_inv_step [OF pos] ending_step by (auto simp: kept_up_def nearer_def run_step_def)
    with less.hyps [of h] h obtain k where "(run_step lib pkg a)\<^sup>*\<^sup>* h k" "Wait_returned k"
      by (auto simp: nearer_def)
    with h show ?thesis by (meson converse_rtranclp_into_rtranclp nearer_def)
  qed blast
qed

lemma run_inv_reachable:
  assumes "list_all (\<lambda>j. 0 < jb_Interval j) (sc_jobs (ap_scheduler a))" and "(run_step lib pkg a)\<^sup>*\<^sup>* g h" and "run_inv a g"
  shows "run_inv a h"
  using assms(2,3) by (induction rule: rtranclp_induct) (auto simp: run_step_def intro: run_inv_step [OF assms(1)])

lemma kept_up_reachable:
  assumes "list_all (\<lambda>j. 0 < jb_Interval j) (sc_jobs (ap_scheduler a))" and "(run_step lib pkg a)\<^sup>*\<^sup>* g h" and "kept_up a g"
  shows "kept_up a h"
  using assms(2,3)
  by (induction rule: rtranclp_induct)
    (auto simp: kept_up_def run_step_def intro: run_inv_step [OF assms(1)] ending_step)

section \<open>The application that New makes\<close>

lemma app_New_sel:
  assumes "app_New dr cfg logger b = (Inr a, b')"
  shows "ap_cfg a = cfg" "ap_scheduler a = app_scheduler cfg logger" "ap_limiter a = app_limiter cfg"
  using assms by (auto simp: app_New_def split: prod.splits sum.splits)

lemma app_jobs:
  "sc_jobs (app_scheduler cfg logger) =
     [AutoCancelOrganic (pickup_port (pickupService cfg)) (kc_SweepInterval (cf_Worker cfg)) logger]"
  "jb_Interval (AutoCancelOrganic p n logger) = n"
  by (simp_all add: app_scheduler_def worker_New_def AutoCancelOrganic_def)

text \<open>A panic is for good, and \<open>Run\<close> does not return without the worker.\<close>

lemma crash_inv:
  assumes crash: "runJob_start j = Crashed" "j \<in> set (sc_jobs (ap_scheduler a))"
    and "goroutine lib pkg a g h" and "\<not> panicked g" and "\<not> gr_begun g \<and> \<not> gr_Scheduler g \<and> rn_loops (gr_Worker g) = []"
  shows "panicked h \<and> \<not> gr_Scheduler h \<or> \<not> gr_begun h \<and> \<not> gr_Scheduler h \<and> rn_loops (gr_Worker h) = []"
  using assms(3-5) crash
  by (induction rule: goroutine.induct) (force simp: panicked_def Scheduler_start_def)+

lemma crash_reachable:
  assumes "runJob_start j = Crashed" "j \<in> set (sc_jobs (ap_scheduler a))" and "(run_step lib pkg a)\<^sup>*\<^sup>* (run_start a w) g"
  shows "\<not> gr_Scheduler g \<and> (panicked g \<or> \<not> gr_begun g \<and> rn_loops (gr_Worker g) = [])"
  using assms(3)
proof (induction rule: rtranclp_induct)
  case base
  then show ?case by (simp add: run_start_def)
next
  case (step g h)
  then show ?case using crash_inv [OF assms(1,2), of lib pkg g h] by (auto simp: run_step_def)
qed

text \<open>What the goroutines do to the shared state are the steps of the program in \<open>Web\<close>.\<close>

lemma meanwhile_world [simp]: "gr_world (meanwhile a w g) = w"
  by (simp add: gr_world_def meanwhile_def)

lemma gr_world_update [simp]:
  "gr_world (g\<lparr>gr_signal := b\<rparr>) = gr_world g" "gr_world (g\<lparr>gr_Listen := x\<rparr>) = gr_world g"
  "gr_world (g\<lparr>gr_limiter := l\<rparr>) = gr_world g" "gr_world (g\<lparr>gr_Janitor := b\<rparr>) = gr_world g"
  "gr_world (g\<lparr>gr_Scheduler := b\<rparr>) = gr_world g" "gr_world (g\<lparr>gr_Shutdown := y\<rparr>) = gr_world g"
  "gr_world (first_error e g) = gr_world g"
  "gr_world (g\<lparr>gr_begun := True, gr_Worker := Scheduler_start s (gr_world g)\<rparr>) = gr_world g"
  by (simp_all add: gr_world_def first_error_def Scheduler_start_def)

lemma goroutine_web:
  assumes new: "app_New dr cfg logger b = (Inr a, b')" and loops: "gr_begun g \<longrightarrow> length (rn_loops (gr_Worker g)) = 1"
    and step: "goroutine lib pkg a g h"
  shows "(gr_limiter h, gr_world h) = (gr_limiter g, gr_world g) \<or>
    web_step lib pkg cfg (gr_limiter g, gr_world g) (gr_limiter h, gr_world h)"
  using step loops
proof (induction rule: goroutine.induct)
  case (outside g w')
  then show ?case
    by (auto simp: surroundings_def intro: web_step.network web_step.time web_step.ties)
next
  case (request g i latency newID c r l w' c')
  then show ?case using web_step.http [of lib pkg cfg] by (auto simp: app_New_sel [OF new])
next
  case (selects g e)
  show ?case
  proof (cases e)
    case (TickOf i)
    let ?job = "sc_jobs (ap_scheduler a) ! i" and ?lg = "sc_logger (ap_scheduler a)"
    obtain w lg where st: "rn_state (gr_Worker g) = (w, lg)" by fastforce
    obtain w' lg' where run: "runJob_tick logger ?job (w, lg) = (w', lg')" by fastforce
    have "?lg = logger" by (simp add: app_New_sel [OF new] app_scheduler_def worker_New_def)
    moreover have "?job \<in> set (sc_jobs (app_scheduler cfg logger))" if "i < length (rn_loops (gr_Worker g))"
      using that selects by (simp add: app_New_sel [OF new] app_jobs)
    ultimately show ?thesis
      using web_step.sweep [OF _ run] run by (auto simp: TickOf gr_world_def st)
  next
    case (DoneOf i)
    then show ?thesis by (simp add: gr_world_def)
  qed (use selects in \<open>simp add: selectable_def\<close>)
next
  case (janitor g e "on" l)
  then show ?case
    using web_step.janitor [of lib pkg cfg "gr_limiter g" "gr_world g"]
    by (cases e) (auto simp: janitor_selectable_def)
qed auto

theorem Run_is_program:
  assumes new: "app_New dr cfg logger b = (Inr a, b')" and "0 < kc_SweepInterval (cf_Worker cfg)"
    and "wd_db w = empty_db" "wd_tx w = None" "net_ok w"
    and run: "(run_step lib pkg a)\<^sup>*\<^sup>* (run_start a w) g"
  shows "web_reachable lib pkg cfg (gr_limiter g, gr_world g)"
proof -
  have pos: "list_all (\<lambda>j. 0 < jb_Interval j) (sc_jobs (ap_scheduler a))"
    using assms(2) by (simp add: app_New_sel [OF new] app_jobs)
  from run show ?thesis
  proof (induction rule: rtranclp_induct)
    case base
    have "gr_limiter (run_start a w) = app_limiter cfg" "gr_world (run_start a w) = w"
      by (simp_all add: run_start_def gr_world_def app_New_sel [OF new])
    with assms(3-5) show ?case using web_reachable.start by metis
  next
    case (step g h)
    have "gr_begun g \<longrightarrow> length (rn_loops (gr_Worker g)) = 1"
      using run_inv_reachable [OF pos step.hyps(1) run_inv_start]
      by (simp add: run_inv_def app_New_sel [OF new] app_jobs)
    moreover have "goroutine lib pkg a g h" using step.hyps(2) by (simp add: run_step_def)
    ultimately consider "(gr_limiter h, gr_world h) = (gr_limiter g, gr_world g)"
      | "web_step lib pkg cfg (gr_limiter g, gr_world g) (gr_limiter h, gr_world h)"
      using goroutine_web [OF new] by blast
    then show ?case
      using step.IH by cases (auto intro: web_reachable.further)
  qed
qed

section \<open>Properties\<close>

text \<open>
  Claim C17. \<open>Run\<close> of an application with a positive sweep interval returns after a signal, or after the
  failure of a goroutine, if its listener was open (or had failed) before the shutdown: every fair run comes
  to the end of all four goroutines, none of which can be kept from it by ticks, requests and
  the janitor's evictions; the worker does not panic; and from every state on the way the end can be
  reached. \<open>Run\<close> returns nil only after a signal, and otherwise the error of the listener or of the
  shutdown.
\<close>

theorem Run_returns:
  assumes "app_New dr cfg logger b = (Inr a, b')" and "0 < kc_SweepInterval (cf_Worker cfg)"
    and "(run_step lib pkg a)\<^sup>*\<^sup>* (run_start a w) g"
    and "gctx_Done g" and "gr_Shutdown g = None" and "gr_Listen g \<noteq> Unopened"
  shows "(\<forall>r. fair_run lib pkg a r \<and> r 0 = g \<longrightarrow> (\<exists>i. Wait_returned (r i))) \<and>
    (\<forall>h. (run_step lib pkg a)\<^sup>*\<^sup>* g h \<longrightarrow> \<not> panicked h \<and>
       (\<exists>k. (run_step lib pkg a)\<^sup>*\<^sup>* h k \<and> Wait_returned k) \<and>
       (Wait_returned h \<longrightarrow>
          (case gr_error h of None \<Rightarrow> gr_signal h
           | Some e \<Rightarrow> gr_Listen h = Listened (Some e) \<or> gr_Shutdown h = Some (Some e))))"
proof -
  have pos: "list_all (\<lambda>j. 0 < jb_Interval j) (sc_jobs (ap_scheduler a))"
    using assms(2) by (simp add: app_New_sel [OF assms(1)] app_jobs)
  have g: "kept_up a g"
    using run_inv_reachable [OF pos assms(3) run_inv_start] assms(4-6) by (simp add: kept_up_def ending_def)
  have "\<exists>i. Wait_returned (r i)" if "fair_run lib pkg a r" "r 0 = g" for r
    using fair_run_returns [OF pos that(1), of 0] that(2) g by auto
  moreover have "\<not> panicked h \<and> (\<exists>k. (run_step lib pkg a)\<^sup>*\<^sup>* h k \<and> Wait_returned k) \<and>
      (Wait_returned h \<longrightarrow> (case gr_error h of None \<Rightarrow> gr_signal h
         | Some e \<Rightarrow> gr_Listen h = Listened (Some e) \<or> gr_Shutdown h = Some (Some e)))"
    if "(run_step lib pkg a)\<^sup>*\<^sup>* g h" for h
  proof -
    have h: "kept_up a h" using kept_up_reachable [OF pos that g] .
    then have inv: "run_inv a h" and fin: "gctx_Done h" by (simp_all add: kept_up_def ending_def)
    have "case gr_error h of None \<Rightarrow> gr_signal h
        | Some e \<Rightarrow> gr_Listen h = Listened (Some e) \<or> gr_Shutdown h = Some (Some e)"
      using inv fin by (cases "gr_error h") (simp_all add: run_inv_def gctx_Done_def)
    with run_inv_sound [OF inv] can_return [OF pos h, of lib pkg] show ?thesis by blast
  qed
  ultimately show ?thesis by blast
qed

text \<open>An application of the example configuration, and its run up to a signal.\<close>

definition demo_drivers :: Drivers where
  "demo_drivers =
    \<lparr>dr_ParseConfig = (\<lambda>_. Inr \<lparr>pp_MaxConns = 4, pp_MinConns = 0, pp_MaxConnLifetime = 0,
        pp_MaxConnIdleTime = 0, pp_HealthCheckPeriod = 0, pp_RuntimeParams = Map.empty\<rparr>),
     dr_NewWithConfig = (\<lambda>_. None), dr_minio_New = (\<lambda>_. None)\<rparr>"

definition demo_boot :: boot where
  "demo_boot = \<lparr>bt_world = demo [], bt_pools = 0, bt_buckets = Map.empty\<rparr>"

definition demo_app :: "Config \<Rightarrow> bucket Application" where
  "demo_app cfg = projr (fst (app_New demo_drivers cfg [] demo_boot))"

lemma demo_app_New: "app_New demo_drivers cfg [] demo_boot = (Inr (demo_app cfg), snd (app_New demo_drivers cfg [] demo_boot))"
  by (simp add: demo_app_def demo_drivers_def demo_boot_def app_New_def NewPool_def open_MinIO_def bt_call_def
      next_outcome_def Let_def)

theorem Run_returns_witness:
  "\<exists>k. (run_step demo_libs token_bucket (demo_app demo_config))\<^sup>*\<^sup>*
      ((run_start (demo_app demo_config) (demo []))\<lparr>gr_Listen := Serving, gr_signal := True\<rparr>) k \<and> Wait_returned k"
proof -
  let ?a = "demo_app demo_config" and ?g = "run_start (demo_app demo_config) (demo [])"
  have "run_step demo_libs token_bucket ?a ?g (?g\<lparr>gr_Listen := Serving\<rparr>)"
    unfolding run_step_def by (rule conjI [OF _ goroutine.opened]) (simp_all add: run_start_def panicked_def)
  moreover have "run_step demo_libs token_bucket ?a (?g\<lparr>gr_Listen := Serving\<rparr>) (?g\<lparr>gr_Listen := Serving, gr_signal := True\<rparr>)"
    using goroutine.signal [of "?g\<lparr>gr_Listen := Serving\<rparr>" demo_libs token_bucket ?a]
    by (simp add: run_step_def run_start_def panicked_def)
  ultimately have "(run_step demo_libs token_bucket ?a)\<^sup>*\<^sup>* ?g (?g\<lparr>gr_Listen := Serving, gr_signal := True\<rparr>)"
    by (rule converse_rtranclp_into_rtranclp [OF _ r_into_rtranclp])
  from Run_returns [OF demo_app_New _ this] show ?thesis
    by (simp add: demo_config_def gctx_Done_def run_start_def)
qed

text \<open>The sweep interval is not validated.\<close>

lemma ParseDuration_Nil: "ParseDuration [] = None"
  by (simp add: ParseDuration_def Let_def)

lemma Load_interval:
  assumes "Load parse ev = Inr cfg" and "ParseDuration v = Some d"
  shows "Load parse (ev(''SWEEP_INTERVAL'' \<mapsto> v)) = Inr (cfg\<lparr>cf_Worker := (cf_Worker cfg)\<lparr>kc_SweepInterval := d\<rparr>\<rparr>)"
proof -
  have v: "v \<noteq> []" using assms(2) ParseDuration_Nil by auto
  have "Load_settings (ev(''SWEEP_INTERVAL'' \<mapsto> v)) =
      (Load_settings ev)\<lparr>cf_Worker := (cf_Worker (Load_settings ev))\<lparr>kc_SweepInterval := d\<rparr>\<rparr>"
    using assms(2) v
    by (simp add: Load_settings_def env_def envDuration_def env_parsed_def envInt64_def envBool_def envStrings_def)
  moreover have "Validate (c\<lparr>cf_Worker := k\<rparr>) = Validate c" for c k by (simp add: Validate_def)
  moreover have "env (ev(''SWEEP_INTERVAL'' \<mapsto> v)) ''PRICE_STANDARD'' x = env ev ''PRICE_STANDARD'' x"
    "env (ev(''SWEEP_INTERVAL'' \<mapsto> v)) ''PRICE_ELECTRONIC'' x = env ev ''PRICE_ELECTRONIC'' x" for x
    by (simp_all add: env_def)
  ultimately show ?thesis using assms(1) by (auto simp: Load_cases split: sum.splits option.splits)
qed

text \<open>
  Claim C22. Take any environment that \<open>Load\<close> accepts and set \<open>SWEEP_INTERVAL\<close> to a duration of zero or
  less: \<open>Load\<close> accepts it as well, with that interval. The program that is started with it never comes to a
  regular end: in every state that \<open>Run\<close> can reach the process is down by a panic of the worker,
  or the first step of the worker takes it down.
\<close>

theorem nonpositive_interval_crashes:
  assumes "Load parse ev = Inr cfg" and "ParseDuration v = Some d" and "d \<le> 0"
  shows "\<exists>cfg'. Load parse (ev(''SWEEP_INTERVAL'' \<mapsto> v)) = Inr cfg' \<and> kc_SweepInterval (cf_Worker cfg') = d \<and>
    (\<forall>dr logger b a b' w g. app_New dr cfg' logger b = (Inr a, b') \<and> (run_step lib pkg a)\<^sup>*\<^sup>* (run_start a w) g \<longrightarrow>
       \<not> Wait_returned g \<and>
       (if panicked g then \<nexists>h. run_step lib pkg a g h else \<exists>h. run_step lib pkg a g h \<and> panicked h))"
proof -
  let ?cfg = "cfg\<lparr>cf_Worker := (cf_Worker cfg)\<lparr>kc_SweepInterval := d\<rparr>\<rparr>"
  have "\<not> Wait_returned g \<and>
      (if panicked g then \<nexists>h. run_step lib pkg a g h else \<exists>h. run_step lib pkg a g h \<and> panicked h)"
    if new: "app_New dr ?cfg logger b = (Inr a, b')" and run: "(run_step lib pkg a)\<^sup>*\<^sup>* (run_start a w) g"
    for dr logger b a b' w g
  proof -
    let ?job = "hd (sc_jobs (ap_scheduler a))"
    have job: "runJob_start ?job = Crashed" "?job \<in> set (sc_jobs (ap_scheduler a))"
      using assms(3) by (simp_all add: app_New_sel [OF new] app_jobs runJob_start_def)
    have g: "\<not> gr_Scheduler g \<and> (panicked g \<or> \<not> gr_begun g \<and> rn_loops (gr_Worker g) = [])"
      by (rule crash_reachable [OF job run])
    have "\<exists>h. run_step lib pkg a g h \<and> panicked h" if "\<not> panicked g"
    proof -
      from that g have "run_step lib pkg a g
          (g\<lparr>gr_begun := True, gr_Worker := Scheduler_start (ap_scheduler a) (gr_world g)\<rparr>)"
        by (simp add: run_step_def goroutine.begins)
      moreover have "panicked (g\<lparr>gr_begun := True, gr_Worker := Scheduler_start (ap_scheduler a) (gr_world g)\<rparr>)"
        using job by (force simp: panicked_def Scheduler_start_def)
      ultimately show ?thesis by blast
    qed
    with g show ?thesis by (auto simp: Wait_returned_def run_step_def)
  qed
  moreover have "kc_SweepInterval (cf_Worker ?cfg) = d" by simp
  ultimately show ?thesis using Load_interval [OF assms(1,2)] by blast
qed

theorem nonpositive_interval_crashes_witness:
  "\<exists>cfg'. Load plain_decimal ((\<lambda>_. None)(''SWEEP_INTERVAL'' \<mapsto> ''0s'')) = Inr cfg' \<and>
     (\<exists>h. run_step demo_libs token_bucket (demo_app cfg') (run_start (demo_app cfg') (demo [])) h \<and> panicked h)"
proof -
  have "ParseDuration ''0s'' = Some 0" by code_simp
  from nonpositive_interval_crashes [OF Load_defaults this, of demo_libs token_bucket] obtain cfg' where
    cfg': "Load plain_decimal ((\<lambda>_. None)(''SWEEP_INTERVAL'' \<mapsto> ''0s'')) = Inr cfg'"
    and crash: "\<And>(a :: bucket Application) b' w g. app_New demo_drivers cfg' [] demo_boot = (Inr a, b') \<and>
        (run_step demo_libs token_bucket a)\<^sup>*\<^sup>* (run_start a w) g \<Longrightarrow>
      if panicked g then \<nexists>h. run_step demo_libs token_bucket a g h
      else \<exists>h. run_step demo_libs token_bucket a g h \<and> panicked h"
    by (metis order_refl)
  from crash [OF conjI [OF demo_app_New rtranclp.rtrancl_refl], of "demo []"] cfg' show ?thesis
    by (auto simp: panicked_def run_start_def)
qed

end
