(* ===== verification/Session.thy ===== *)
theory Session
  imports System
begin

text \<open>
  A request as a conversation with the driven side. The services are functions of an arbitrary
  state: over the state \<open>replay\<close> their ports answer from a list of replies received so
  far, and when it is used up they note the call the service makes next. So the code of
  a service, unchanged, says which call follows which replies, and the calls of several requests
  can be interleaved.
\<close>

section \<open>Calls and replies\<close>

datatype query =
    QListHouseholds gint gint
  | QCountHouseholds
  | QFindHousehold uuid
  | QInsertHousehold Household
  | QDeleteHousehold uuid
  | QListPickups "PickupStatus option" "uuid option" gint gint
  | QCountPickups "PickupStatus option" "uuid option"
  | QFindPickup uuid
  | QInsertPickup Pickup
  | QSchedule uuid instant instant
  | QComplete uuid instant
  | QCancel uuid instant
  | QCancelStale instant instant
  | QHasPending uuid
  | QListPayments "PaymentStatus option" "uuid option" "instant option" "instant option" gint gint
  | QCountPayments "PaymentStatus option" "uuid option" "instant option" "instant option"
  | QFindPayment uuid
  | QInsertPayment Payment
  | QConfirm uuid string instant
  | QWasteSummary
  | QPaymentSummary
  | QHouseholdPickups uuid
  | QHouseholdPayments uuid
  | QPut string string gint string
  | QBegin
  | QCommit
  | QRollback

datatype reply =
    RUnit
  | RNat nat
  | RBool bool
  | RText string
  | RHousehold Household
  | RHouseholds "Household list"
  | RPickup Pickup
  | RPickupOpt "Pickup option"
  | RPickups "Pickup list"
  | RPayment Payment
  | RPaymentOpt "Payment option"
  | RPayments "Payment list"
  | RWaste "WasteCount list"
  | RTotals "PaymentStatusTotal list"

type_synonym response = "go_error + reply"

text \<open>A call on the state of the driven side.\<close>

definition wrap :: "('a \<Rightarrow> reply) \<Rightarrow> (go_error + 'a) \<times> world \<Rightarrow> response \<times> world" where
  "wrap R x = (case x of (Inl e, w) \<Rightarrow> (Inl e, w) | (Inr a, w) \<Rightarrow> (Inr (R a), w))"

definition unit_reply :: "unit \<Rightarrow> reply" where
  "unit_reply u = RUnit"

definition commit_response :: "go_error option \<times> world \<Rightarrow> response \<times> world" where
  "commit_response x = (case x of (None, w) \<Rightarrow> (Inr RUnit, w) | (Some e, w) \<Rightarrow> (Inl e, w))"

fun perform :: "MinIO \<Rightarrow> query \<Rightarrow> ctx \<Rightarrow> (world, reply) act" where
  "perform m (QListHouseholds lmt off) c w = wrap RHouseholds (HouseholdRepository_List c lmt off w)"
| "perform m QCountHouseholds c w = wrap RNat (HouseholdRepository_Count c w)"
| "perform m (QFindHousehold i) c w = wrap RHousehold (HouseholdRepository_FindByID c i w)"
| "perform m (QInsertHousehold h) c w = wrap unit_reply (HouseholdRepository_Insert c h w)"
| "perform m (QDeleteHousehold i) c w = wrap unit_reply (HouseholdRepository_Delete c i w)"
| "perform m (QListPickups st h lmt off) c w = wrap RPickups (PickupRepository_List c st h lmt off w)"
| "perform m (QCountPickups st h) c w = wrap RNat (PickupRepository_Count c st h w)"
| "perform m (QFindPickup i) c w = wrap RPickup (PickupRepository_FindByID c i w)"
| "perform m (QInsertPickup p) c w = wrap unit_reply (PickupRepository_Insert c p w)"
| "perform m (QSchedule i date now) c w = wrap RPickupOpt (PickupRepository_Schedule c i date now w)"
| "perform m (QComplete i now) c w = wrap RPickupOpt (PickupRepository_Complete c i now w)"
| "perform m (QCancel i now) c w = wrap RPickupOpt (PickupRepository_Cancel c i now w)"
| "perform m (QCancelStale cutoff now) c w =
     wrap RNat (PickupRepository_CancelStaleOrganic c cutoff now w)"
| "perform m (QHasPending h) c w = wrap RBool (PaymentRepository_HasPendingByHousehold c h w)"
| "perform m (QListPayments st h df dt lmt off) c w =
     wrap RPayments (PaymentRepository_List c st h df dt lmt off w)"
| "perform m (QCountPayments st h df dt) c w = wrap RNat (PaymentRepository_Count c st h df dt w)"
| "perform m (QFindPayment i) c w = wrap RPayment (PaymentRepository_FindByID c i w)"
| "perform m (QInsertPayment y) c w = wrap unit_reply (PaymentRepository_Insert c y w)"
| "perform m (QConfirm i url now) c w = wrap RPaymentOpt (PaymentRepository_Confirm c i url now w)"
| "perform m QWasteSummary c w = wrap RWaste (ReportRepository_WasteSummary c w)"
| "perform m QPaymentSummary c w = wrap RTotals (ReportRepository_PaymentSummary c w)"
| "perform m (QHouseholdPickups i) c w = wrap RPickups (ReportRepository_HouseholdPickups c i w)"
| "perform m (QHouseholdPayments i) c w = wrap RPayments (ReportRepository_HouseholdPayments c i w)"
| "perform m (QPut key content sz ct) c w = wrap RText (MinIO_Put m c key content sz ct w)"
| "perform m QBegin c w = wrap (\<lambda>_. RUnit) (pool_Begin w)"
| "perform m QCommit c w = commit_response (tx_Commit w)"
| "perform m QRollback c w = (Inr RUnit, tx_Rollback w)"

section \<open>Ports that answer from the past\<close>

text \<open>Every reply comes with what the clock showed when the service made the call.\<close>

record replay =
  rp_past :: "(instant \<times> response) list"
  rp_now :: instant
  rp_ask :: "(ctx \<times> query) option"

definition suspended :: go_error where
  "suspended = Opaque ''suspended''"

definition ask :: "(reply \<Rightarrow> 'a option) \<Rightarrow> query \<Rightarrow> ctx \<Rightarrow> (replay, 'a) act" where
  "ask get q c r =
    (case rp_ask r of
       Some _ \<Rightarrow> (Inl suspended, r)
     | None \<Rightarrow>
         (case rp_past r of
            [] \<Rightarrow> (Inl suspended, r\<lparr>rp_ask := Some (c, q)\<rparr>)
          | (n, Inl e) # past \<Rightarrow> (Inl e, r\<lparr>rp_past := past\<rparr>)
          | (n, Inr v) # past \<Rightarrow>
              (case get v of
                 None \<Rightarrow> (Inl suspended, r\<lparr>rp_past := past\<rparr>)
               | Some x \<Rightarrow> (Inr x, r\<lparr>rp_past := past\<rparr>))))"

definition the_unit :: "reply \<Rightarrow> unit option" where
  "the_unit v = (case v of RUnit \<Rightarrow> Some () | _ \<Rightarrow> None)"

definition the_nat :: "reply \<Rightarrow> nat option" where
  "the_nat v = (case v of RNat n \<Rightarrow> Some n | _ \<Rightarrow> None)"

definition the_bool :: "reply \<Rightarrow> bool option" where
  "the_bool v = (case v of RBool b \<Rightarrow> Some b | _ \<Rightarrow> None)"

definition the_text :: "reply \<Rightarrow> string option" where
  "the_text v = (case v of RText s \<Rightarrow> Some s | _ \<Rightarrow> None)"

definition the_household :: "reply \<Rightarrow> Household option" where
  "the_household v = (case v of RHousehold h \<Rightarrow> Some h | _ \<Rightarrow> None)"

definition the_households :: "reply \<Rightarrow> Household list option" where
  "the_households v = (case v of RHouseholds hs \<Rightarrow> Some hs | _ \<Rightarrow> None)"

definition the_pickup :: "reply \<Rightarrow> Pickup option" where
  "the_pickup v = (case v of RPickup p \<Rightarrow> Some p | _ \<Rightarrow> None)"

definition the_pickup_opt :: "reply \<Rightarrow> Pickup option option" where
  "the_pickup_opt v = (case v of RPickupOpt p \<Rightarrow> Some p | _ \<Rightarrow> None)"

definition the_pickups :: "reply \<Rightarrow> Pickup list option" where
  "the_pickups v = (case v of RPickups ps \<Rightarrow> Some ps | _ \<Rightarrow> None)"

definition the_payment :: "reply \<Rightarrow> Payment option" where
  "the_payment v = (case v of RPayment y \<Rightarrow> Some y | _ \<Rightarrow> None)"

definition the_payment_opt :: "reply \<Rightarrow> Payment option option" where
  "the_payment_opt v = (case v of RPaymentOpt y \<Rightarrow> Some y | _ \<Rightarrow> None)"

definition the_payments :: "reply \<Rightarrow> Payment list option" where
  "the_payments v = (case v of RPayments ys \<Rightarrow> Some ys | _ \<Rightarrow> None)"

definition the_waste :: "reply \<Rightarrow> WasteCount list option" where
  "the_waste v = (case v of RWaste cs \<Rightarrow> Some cs | _ \<Rightarrow> None)"

definition the_totals :: "reply \<Rightarrow> PaymentStatusTotal list option" where
  "the_totals v = (case v of RTotals ts \<Rightarrow> Some ts | _ \<Rightarrow> None)"

definition replay_households :: "replay HouseholdRepository" where
  "replay_households =
    \<lparr>hr_List = (\<lambda>c lmt off. ask the_households (QListHouseholds lmt off) c),
     hr_Count = (\<lambda>c. ask the_nat QCountHouseholds c),
     hr_FindByID = (\<lambda>c i. ask the_household (QFindHousehold i) c),
     hr_Insert = (\<lambda>c h. ask the_unit (QInsertHousehold h) c),
     hr_Delete = (\<lambda>c i. ask the_unit (QDeleteHousehold i) c)\<rparr>"

definition replay_pickups :: "replay PickupRepository" where
  "replay_pickups =
    \<lparr>pr_List = (\<lambda>c st h lmt off. ask the_pickups (QListPickups st h lmt off) c),
     pr_Count = (\<lambda>c st h. ask the_nat (QCountPickups st h) c),
     pr_FindByID = (\<lambda>c i. ask the_pickup (QFindPickup i) c),
     pr_Insert = (\<lambda>c p. ask the_unit (QInsertPickup p) c),
     pr_Schedule = (\<lambda>c i date now. ask the_pickup_opt (QSchedule i date now) c),
     pr_Complete = (\<lambda>c i now. ask the_pickup_opt (QComplete i now) c),
     pr_Cancel = (\<lambda>c i now. ask the_pickup_opt (QCancel i now) c),
     pr_CancelStaleOrganic = (\<lambda>c cutoff now. ask the_nat (QCancelStale cutoff now) c)\<rparr>"

definition replay_payments :: "replay PaymentRepository" where
  "replay_payments =
    \<lparr>yr_HasPendingByHousehold = (\<lambda>c h. ask the_bool (QHasPending h) c),
     yr_List = (\<lambda>c st h df dt lmt off. ask the_payments (QListPayments st h df dt lmt off) c),
     yr_Count = (\<lambda>c st h df dt. ask the_nat (QCountPayments st h df dt) c),
     yr_FindByID = (\<lambda>c i. ask the_payment (QFindPayment i) c),
     yr_Insert = (\<lambda>c y. ask the_unit (QInsertPayment y) c),
     yr_Confirm = (\<lambda>c i url now. ask the_payment_opt (QConfirm i url now) c)\<rparr>"

definition replay_reports :: "replay ReportReader" where
  "replay_reports =
    \<lparr>rr_WasteSummary = (\<lambda>c. ask the_waste QWasteSummary c),
     rr_PaymentSummary = (\<lambda>c. ask the_totals QPaymentSummary c),
     rr_HouseholdPickups = (\<lambda>c i. ask the_pickups (QHouseholdPickups i) c),
     rr_HouseholdPayments = (\<lambda>c i. ask the_payments (QHouseholdPayments i) c)\<rparr>"

definition replay_storage :: "replay FileStorage" where
  "replay_storage = \<lparr>fs_Put = (\<lambda>c key content sz ct. ask the_text (QPut key content sz ct) c)\<rparr>"

definition replay_clock :: "replay Clock" where
  "replay_clock =
    \<lparr>ck_Now = (\<lambda>r. case rp_past r of [] \<Rightarrow> rp_now r | (n, a) # past \<Rightarrow> n)\<rparr>"

text \<open>\<open>TxManager.Do\<close>, with the three requests to the server as calls.\<close>

definition replay_Do :: "ctx \<Rightarrow> (ctx \<Rightarrow> (replay, Pickup) act) \<Rightarrow> (replay, Pickup) act" where
  "replay_Do c fn r =
    (if txFromContext c \<noteq> None then fn c r
     else
       (case ask the_unit QBegin c r of
          (Inl err, r) \<Rightarrow> (Inl (map_error err), r)
        | (Inr t, r) \<Rightarrow>
            (case fn (withTx c OpenTx) r of
               (Inl err, r) \<Rightarrow> (Inl err, snd (ask the_unit QRollback c r))
             | (Inr a, r) \<Rightarrow>
                 (case ask the_unit QCommit c r of
                    (Inl err, r) \<Rightarrow> (Inl (map_error err), r)
                  | (Inr _, r) \<Rightarrow> (Inr a, r)))))"

definition replay_tx :: "replay TxManager" where
  "replay_tx = \<lparr>tx_Do = replay_Do\<rparr>"

section \<open>A session\<close>

text \<open>The composition root over any driven side, and the use case a request calls.\<close>

record 'w services =
  sv_households :: "'w HouseholdService"
  sv_pickups :: "'w PickupService"
  sv_payments :: "'w PaymentService"
  sv_reports :: "'w ReportService"

definition world_services :: "Config \<Rightarrow> world services" where
  "world_services cfg =
    \<lparr>sv_households = householdService, sv_pickups = pickupService cfg,
     sv_payments = paymentService cfg, sv_reports = reportService\<rparr>"

definition replay_services :: "Config \<Rightarrow> replay services" where
  "replay_services cfg =
    \<lparr>sv_households = household_NewService replay_households replay_clock,
     sv_pickups = pickup_NewService replay_pickups replay_payments replay_tx replay_clock
       (app_pricing cfg) (kc_OrganicTTL (cf_Worker cfg)),
     sv_payments = payment_NewService replay_payments replay_pickups replay_storage replay_clock
       (app_pricing cfg),
     sv_reports = report_NewService replay_reports replay_households\<rparr>"

definition judged :: "(go_error + 'a) \<times> 'w \<Rightarrow> (go_error + unit) \<times> 'w" where
  "judged x = (map_sum id (\<lambda>_. ()) (fst x), snd x)"

fun dispatch :: "(uuid \<Rightarrow> string) \<Rightarrow> 'w services \<Rightarrow> request \<Rightarrow> ('w, unit) act" where
  "dispatch fmt sv (ReqCreateHousehold cmd i) w = judged (household_Create (sv_households sv) None cmd i w)"
| "dispatch fmt sv (ReqGetHousehold i) w = judged (household_Get (sv_households sv) None i w)"
| "dispatch fmt sv (ReqListHouseholds p) w = judged (household_List (sv_households sv) None p w)"
| "dispatch fmt sv (ReqDeleteHousehold i) w = judged (household_Delete (sv_households sv) None i w)"
| "dispatch fmt sv (ReqCreatePickup cp i) w = judged (pickup_Create (sv_pickups sv) None cp i w)"
| "dispatch fmt sv (ReqListPickups pf p) w = judged (pickup_List (sv_pickups sv) None pf p w)"
| "dispatch fmt sv (ReqSchedulePickup i sp) w = judged (pickup_Schedule (sv_pickups sv) None i sp w)"
| "dispatch fmt sv (ReqCompletePickup i j) w = judged (pickup_Complete (sv_pickups sv) None i j w)"
| "dispatch fmt sv (ReqCancelPickup i) w = judged (pickup_Cancel (sv_pickups sv) None i w)"
| "dispatch fmt sv ReqSweep w = judged (pickup_CancelStaleOrganic (sv_pickups sv) None w)"
| "dispatch fmt sv (ReqCreatePayment cy i) w = judged (payment_Create (sv_payments sv) None cy i w)"
| "dispatch fmt sv (ReqListPayments yf p) w = judged (payment_List (sv_payments sv) None yf p w)"
| "dispatch fmt sv (ReqConfirmPayment i ci j) w =
     judged (payment_Confirm fmt (sv_payments sv) None i ci j w)"
| "dispatch fmt sv ReqWasteSummary w = judged (report_WasteSummary (sv_reports sv) None w)"
| "dispatch fmt sv ReqPaymentSummary w = judged (report_PaymentSummary (sv_reports sv) None w)"
| "dispatch fmt sv (ReqHistory i) w = judged (report_HouseholdHistory (sv_reports sv) None i w)"

definition resume :: "(uuid \<Rightarrow> string) \<Rightarrow> Config \<Rightarrow> request \<Rightarrow> (instant \<times> response) list \<Rightarrow> instant \<Rightarrow>
    (go_error + unit) \<times> replay" where
  "resume fmt cfg rq past n =
     dispatch fmt (replay_services cfg) rq \<lparr>rp_past = past, rp_now = n, rp_ask = None\<rparr>"

text \<open>The call a session makes next, if any, and the result of a session that makes no more.\<close>

definition upcoming :: "(uuid \<Rightarrow> string) \<Rightarrow> Config \<Rightarrow> request \<Rightarrow> (instant \<times> response) list \<Rightarrow> instant \<Rightarrow>
    (ctx \<times> query) option" where
  "upcoming fmt cfg rq past n = rp_ask (snd (resume fmt cfg rq past n))"

definition outcome_of :: "(uuid \<Rightarrow> string) \<Rightarrow> Config \<Rightarrow> request \<Rightarrow> (instant \<times> response) list \<Rightarrow>
    go_error + unit" where
  "outcome_of fmt cfg rq past = fst (resume fmt cfg rq past 0)"

section \<open>Alone, a session is the request\<close>

fun alone :: "nat \<Rightarrow> (uuid \<Rightarrow> string) \<Rightarrow> Config \<Rightarrow> request \<Rightarrow> (instant \<times> response) list \<Rightarrow>
    (world, unit) act" where
  "alone 0 fmt cfg rq past w = (outcome_of fmt cfg rq past, w)"
| "alone (Suc k) fmt cfg rq past w =
    (case upcoming fmt cfg rq past (wd_now w) of
       None \<Rightarrow> (outcome_of fmt cfg rq past, w)
     | Some (c, q) \<Rightarrow>
         (case perform (NewMinIO (cf_MinIO cfg)) q c w of
            (a, w') \<Rightarrow> alone k fmt cfg rq (past @ [(wd_now w, a)]) w'))"

lemmas replay_defs = resume_def upcoming_def outcome_of_def replay_services_def household_NewService_def
  pickup_NewService_def payment_NewService_def report_NewService_def replay_households_def
  replay_pickups_def replay_payments_def replay_reports_def replay_storage_def replay_clock_def
  replay_tx_def replay_Do_def txFromContext_def withTx_def judged_def

lemma the_simps [simp]:
  "the_unit v = Some u \<longleftrightarrow> v = RUnit" "the_nat v = Some n \<longleftrightarrow> v = RNat n"
  "the_bool v = Some b \<longleftrightarrow> v = RBool b" "the_text v = Some s \<longleftrightarrow> v = RText s"
  "the_household v = Some h \<longleftrightarrow> v = RHousehold h" "the_households v = Some hs \<longleftrightarrow> v = RHouseholds hs"
  "the_pickup v = Some p \<longleftrightarrow> v = RPickup p" "the_pickup_opt v = Some po \<longleftrightarrow> v = RPickupOpt po"
  "the_pickups v = Some ps \<longleftrightarrow> v = RPickups ps" "the_payment v = Some y \<longleftrightarrow> v = RPayment y"
  "the_payment_opt v = Some yo \<longleftrightarrow> v = RPaymentOpt yo" "the_payments v = Some ys \<longleftrightarrow> v = RPayments ys"
  "the_waste v = Some ws \<longleftrightarrow> v = RWaste ws" "the_totals v = Some ts \<longleftrightarrow> v = RTotals ts"
  by (cases v; auto simp: the_unit_def the_nat_def the_bool_def the_text_def the_household_def
      the_households_def the_pickup_def the_pickup_opt_def the_pickups_def the_payment_def
      the_payment_opt_def the_payments_def the_waste_def the_totals_def)+

lemma the_reply [simp]:
  "the_unit RUnit = Some ()" "the_nat (RNat n) = Some n" "the_bool (RBool b) = Some b"
  "the_text (RText s) = Some s" "the_household (RHousehold h) = Some h"
  "the_households (RHouseholds hs) = Some hs" "the_pickup (RPickup p) = Some p"
  "the_pickup_opt (RPickupOpt po) = Some po" "the_pickups (RPickups ps) = Some ps"
  "the_payment (RPayment y) = Some y" "the_payment_opt (RPaymentOpt yo) = Some yo"
  "the_payments (RPayments ys) = Some ys" "the_waste (RWaste ws) = Some ws"
  "the_totals (RTotals ts) = Some ts"
  by simp_all

lemma ask_simps [simp]:
  "rp_ask r = Some x \<Longrightarrow> ask get q c r = (Inl suspended, r)"
  "ask get q c \<lparr>rp_past = [], rp_now = n, rp_ask = None\<rparr> =
     (Inl suspended, \<lparr>rp_past = [], rp_now = n, rp_ask = Some (c, q)\<rparr>)"
  "ask get q c \<lparr>rp_past = (k, Inl e) # past, rp_now = n, rp_ask = None\<rparr> =
     (Inl e, \<lparr>rp_past = past, rp_now = n, rp_ask = None\<rparr>)"
  "get v = Some b \<Longrightarrow> ask get q c \<lparr>rp_past = (k, Inr v) # past, rp_now = n, rp_ask = None\<rparr> =
     (Inr b, \<lparr>rp_past = past, rp_now = n, rp_ask = None\<rparr>)"
  by (simp_all add: ask_def split: option.splits)

lemma wrap_simps [simp]: "wrap R (Inl e, w) = (Inl e, w)" "wrap R (Inr x, w) = (Inr (R x), w)"
  by (simp_all add: wrap_def)

end
