(* ===== verification/Conversation.thy ===== *)
theory Conversation
  imports Session
begin

text \<open>
  What every request asks for, in the order in which the services ask it: one table per request, from the
  replies so far to the next call or to the result. A session that nothing interrupts does
  what the request does when it is served alone.
\<close>

section \<open>Values the services make\<close>

definition new_household_for :: "CreateHouseholdCommand \<Rightarrow> uuid \<Rightarrow> instant \<Rightarrow> Household" where
  "new_household_for cmd i now =
    \<lparr>hh_ID = i, hh_OwnerName = ch_OwnerName cmd, hh_Address = ch_Address cmd, hh_CreatedAt = now,
     hh_UpdatedAt = now\<rparr>"

definition payment_for :: "Pricing \<Rightarrow> CreatePaymentCommand \<Rightarrow> uuid \<Rightarrow> instant \<Rightarrow> Pickup \<Rightarrow> Payment" where
  "payment_for pricing cy i now p =
    \<lparr>pm_ID = i, pm_HouseholdID = cy_HouseholdID cy, pm_WasteID = cy_WasteID cy,
     pm_Amount = AmountFor pricing (pk_Type p), pm_PaymentDate = None, pm_Status = PaymentPending,
     pm_ProofFileURL = None, pm_CreatedAt = now, pm_UpdatedAt = now\<rparr>"

section \<open>The tables\<close>

lemma talk_CreateHousehold:
  fixes fmt cfg cmd i n n1 n2 n3 n4 e
  defines "rq \<equiv> ReqCreateHousehold cmd i"
  shows
  "upcoming fmt cfg rq [] n = Some (None, QInsertHousehold (new_household_for cmd i n))"
  "upcoming fmt cfg rq [(n1, Inl e)] n = None"
  "outcome_of fmt cfg rq [(n1, Inl e)] = Inl e"
  "upcoming fmt cfg rq [(n1, Inr RUnit)] n = None"
  "outcome_of fmt cfg rq [(n1, Inr RUnit)] = Inr ()"
  unfolding rq_def
  by (simp add: replay_defs household_Create_def new_household_for_def Let_def ask_def split: option.split)+

lemma talk_GetHousehold:
  fixes fmt cfg i h n n1 n2 n3 n4 e
  defines "rq \<equiv> ReqGetHousehold i"
  shows
  "upcoming fmt cfg rq [] n = Some (None, QFindHousehold i)"
  "upcoming fmt cfg rq [(n1, Inl e)] n = None"
  "outcome_of fmt cfg rq [(n1, Inl e)] = Inl e"
  "upcoming fmt cfg rq [(n1, Inr (RHousehold h))] n = None"
  "outcome_of fmt cfg rq [(n1, Inr (RHousehold h))] = Inr ()"
  unfolding rq_def
  by (simp add: replay_defs household_Get_def Let_def ask_def split: option.split)+

lemma talk_DeleteHousehold:
  fixes fmt cfg i n n1 n2 n3 n4 e
  defines "rq \<equiv> ReqDeleteHousehold i"
  shows
  "upcoming fmt cfg rq [] n = Some (None, QDeleteHousehold i)"
  "upcoming fmt cfg rq [(n1, Inl e)] n = None"
  "outcome_of fmt cfg rq [(n1, Inl e)] = Inl e"
  "upcoming fmt cfg rq [(n1, Inr RUnit)] n = None"
  "outcome_of fmt cfg rq [(n1, Inr RUnit)] = Inr ()"
  unfolding rq_def
  by (simp add: replay_defs household_Delete_def Let_def ask_def split: option.split)+

lemma talk_ListHouseholds:
  fixes fmt cfg p hs k n n1 n2 n3 n4 e
  defines "rq \<equiv> ReqListHouseholds p"
  shows
  "upcoming fmt cfg rq [] n = Some (None, QListHouseholds (Limit p) (Offset p))"
  "upcoming fmt cfg rq [(n1, Inl e)] n = None"
  "outcome_of fmt cfg rq [(n1, Inl e)] = Inl e"
  "upcoming fmt cfg rq [(n1, Inr (RHouseholds hs))] n = Some (None, QCountHouseholds)"
  "upcoming fmt cfg rq [(n1, Inr (RHouseholds hs)), (n2, Inl e)] n = None"
  "outcome_of fmt cfg rq [(n1, Inr (RHouseholds hs)), (n2, Inl e)] = Inl e"
  "upcoming fmt cfg rq [(n1, Inr (RHouseholds hs)), (n2, Inr (RNat k))] n = None"
  "outcome_of fmt cfg rq [(n1, Inr (RHouseholds hs)), (n2, Inr (RNat k))] = Inr ()"
  unfolding rq_def
  by (simp add: replay_defs household_List_def Let_def ask_def split: option.split)+

lemma talk_CreatePickup:
  fixes fmt cfg cp i x n n1 n2 n3 n4 e
  defines "rq \<equiv> ReqCreatePickup cp i"
  shows
  "upcoming fmt cfg rq [] n = Some (None, QBegin)"
  "upcoming fmt cfg rq [(n1, Inl e)] n = None"
  "outcome_of fmt cfg rq [(n1, Inl e)] = Inl (map_error e)"
  "upcoming fmt cfg rq [(n1, Inr RUnit)] n = Some (Some OpenTx, QHasPending (cp_HouseholdID cp))"
  "upcoming fmt cfg rq [(n1, Inr RUnit), (n2, Inl e)] n = Some (None, QRollback)"
  "upcoming fmt cfg rq [(n1, Inr RUnit), (n2, Inl e), x] n = None"
  "outcome_of fmt cfg rq [(n1, Inr RUnit), (n2, Inl e), x] = Inl e"
  "upcoming fmt cfg rq [(n1, Inr RUnit), (n2, Inr (RBool True))] n = Some (None, QRollback)"
  "upcoming fmt cfg rq [(n1, Inr RUnit), (n2, Inr (RBool True)), x] n = None"
  "outcome_of fmt cfg rq [(n1, Inr RUnit), (n2, Inr (RBool True)), x] = Inl (App ErrHouseholdHasPendingPayment)"
  "upcoming fmt cfg rq [(n1, Inr RUnit), (n2, Inr (RBool False))] n = Some (Some OpenTx, QInsertPickup (new_pickup cp i n1))"
  "upcoming fmt cfg rq [(n1, Inr RUnit), (n2, Inr (RBool False)), (n3, Inl e)] n = Some (None, QRollback)"
  "upcoming fmt cfg rq [(n1, Inr RUnit), (n2, Inr (RBool False)), (n3, Inl e), x] n = None"
  "outcome_of fmt cfg rq [(n1, Inr RUnit), (n2, Inr (RBool False)), (n3, Inl e), x] = Inl e"
  "upcoming fmt cfg rq [(n1, Inr RUnit), (n2, Inr (RBool False)), (n3, Inr RUnit)] n = Some (None, QCommit)"
  "upcoming fmt cfg rq [(n1, Inr RUnit), (n2, Inr (RBool False)), (n3, Inr RUnit), (n4, Inl e)] n = None"
  "outcome_of fmt cfg rq [(n1, Inr RUnit), (n2, Inr (RBool False)), (n3, Inr RUnit), (n4, Inl e)] = Inl (map_error e)"
  "upcoming fmt cfg rq [(n1, Inr RUnit), (n2, Inr (RBool False)), (n3, Inr RUnit), (n4, Inr RUnit)] n = None"
  "outcome_of fmt cfg rq [(n1, Inr RUnit), (n2, Inr (RBool False)), (n3, Inr RUnit), (n4, Inr RUnit)] = Inr ()"
  unfolding rq_def
  by (cases x, cases "snd x"; simp add: replay_defs pickup_Create_def new_pickup_def Let_def ask_def split: option.split)+

lemma talk_ListPickups:
  fixes fmt cfg pf p ps k n n1 n2 n3 n4 e
  defines "rq \<equiv> ReqListPickups pf p"
  shows
  "upcoming fmt cfg rq [] n = Some (None, QListPickups (pf_Status pf) (pf_HouseholdID pf) (Limit p) (Offset p))"
  "upcoming fmt cfg rq [(n1, Inl e)] n = None"
  "outcome_of fmt cfg rq [(n1, Inl e)] = Inl e"
  "upcoming fmt cfg rq [(n1, Inr (RPickups ps))] n = Some (None, QCountPickups (pf_Status pf) (pf_HouseholdID pf))"
  "upcoming fmt cfg rq [(n1, Inr (RPickups ps)), (n2, Inl e)] n = None"
  "outcome_of fmt cfg rq [(n1, Inr (RPickups ps)), (n2, Inl e)] = Inl e"
  "upcoming fmt cfg rq [(n1, Inr (RPickups ps)), (n2, Inr (RNat k))] n = None"
  "outcome_of fmt cfg rq [(n1, Inr (RPickups ps)), (n2, Inr (RNat k))] = Inr ()"
  unfolding rq_def
  by (simp add: replay_defs pickup_List_def Let_def ask_def split: option.split)+

lemma talk_SchedulePickup:
  fixes fmt cfg i sp p q n n1 n2 n3 n4 e
  defines "rq \<equiv> ReqSchedulePickup i sp"
  shows
  "upcoming fmt cfg rq [] n = Some (None, QSchedule i (sp_PickupDate sp) n)"
  "upcoming fmt cfg rq [(n1, Inl e)] n = None"
  "outcome_of fmt cfg rq [(n1, Inl e)] = Inl e"
  "upcoming fmt cfg rq [(n1, Inr (RPickupOpt (Some q)))] n = None"
  "outcome_of fmt cfg rq [(n1, Inr (RPickupOpt (Some q)))] = Inr ()"
  "upcoming fmt cfg rq [(n1, Inr (RPickupOpt None))] n = Some (None, QFindPickup i)"
  "upcoming fmt cfg rq [(n1, Inr (RPickupOpt None)), (n2, Inl e)] n = None"
  "outcome_of fmt cfg rq [(n1, Inr (RPickupOpt None)), (n2, Inl e)] = Inl e"
  "upcoming fmt cfg rq [(n1, Inr (RPickupOpt None)), (n2, Inr (RPickup p))] n = None"
  "outcome_of fmt cfg rq [(n1, Inr (RPickupOpt None)), (n2, Inr (RPickup p))] = Inl (App (case CanSchedule p of None \<Rightarrow> ErrPickupNotPending | Some err \<Rightarrow> err))"
  unfolding rq_def
  by (simp add: replay_defs pickup_Schedule_def Let_def ask_def split: option.split)+

lemma talk_CompletePickup:
  fixes fmt cfg i j p q x n n1 n2 n3 n4 e
  defines "rq \<equiv> ReqCompletePickup i j"
  shows
  "upcoming fmt cfg rq [] n = Some (None, QBegin)"
  "upcoming fmt cfg rq [(n1, Inl e)] n = None"
  "outcome_of fmt cfg rq [(n1, Inl e)] = Inl (map_error e)"
  "upcoming fmt cfg rq [(n1, Inr RUnit)] n = Some (Some OpenTx, QComplete i n1)"
  "upcoming fmt cfg rq [(n1, Inr RUnit), (n2, Inl e)] n = Some (None, QRollback)"
  "upcoming fmt cfg rq [(n1, Inr RUnit), (n2, Inl e), x] n = None"
  "outcome_of fmt cfg rq [(n1, Inr RUnit), (n2, Inl e), x] = Inl e"
  "upcoming fmt cfg rq [(n1, Inr RUnit), (n2, Inr (RPickupOpt None))] n = Some (Some OpenTx, QFindPickup i)"
  "upcoming fmt cfg rq [(n1, Inr RUnit), (n2, Inr (RPickupOpt None)), (n3, Inl e)] n = Some (None, QRollback)"
  "upcoming fmt cfg rq [(n1, Inr RUnit), (n2, Inr (RPickupOpt None)), (n3, Inl e), x] n = None"
  "outcome_of fmt cfg rq [(n1, Inr RUnit), (n2, Inr (RPickupOpt None)), (n3, Inl e), x] = Inl e"
  "upcoming fmt cfg rq [(n1, Inr RUnit), (n2, Inr (RPickupOpt None)), (n3, Inr (RPickup q))] n = Some (None, QRollback)"
  "upcoming fmt cfg rq [(n1, Inr RUnit), (n2, Inr (RPickupOpt None)), (n3, Inr (RPickup q)), x] n = None"
  "outcome_of fmt cfg rq [(n1, Inr RUnit), (n2, Inr (RPickupOpt None)), (n3, Inr (RPickup q)), x] = Inl (App ErrPickupNotScheduled)"
  "upcoming fmt cfg rq [(n1, Inr RUnit), (n2, Inr (RPickupOpt (Some p)))] n = Some (Some OpenTx, QInsertPayment (due (app_pricing cfg) j n1 p))"
  "upcoming fmt cfg rq [(n1, Inr RUnit), (n2, Inr (RPickupOpt (Some p))), (n3, Inl e)] n = Some (None, QRollback)"
  "upcoming fmt cfg rq [(n1, Inr RUnit), (n2, Inr (RPickupOpt (Some p))), (n3, Inl e), x] n = None"
  "outcome_of fmt cfg rq [(n1, Inr RUnit), (n2, Inr (RPickupOpt (Some p))), (n3, Inl e), x] = Inl e"
  "upcoming fmt cfg rq [(n1, Inr RUnit), (n2, Inr (RPickupOpt (Some p))), (n3, Inr RUnit)] n = Some (None, QCommit)"
  "upcoming fmt cfg rq [(n1, Inr RUnit), (n2, Inr (RPickupOpt (Some p))), (n3, Inr RUnit), (n4, Inl e)] n = None"
  "outcome_of fmt cfg rq [(n1, Inr RUnit), (n2, Inr (RPickupOpt (Some p))), (n3, Inr RUnit), (n4, Inl e)] = Inl (map_error e)"
  "upcoming fmt cfg rq [(n1, Inr RUnit), (n2, Inr (RPickupOpt (Some p))), (n3, Inr RUnit), (n4, Inr RUnit)] n = None"
  "outcome_of fmt cfg rq [(n1, Inr RUnit), (n2, Inr (RPickupOpt (Some p))), (n3, Inr RUnit), (n4, Inr RUnit)] = Inr ()"
  unfolding rq_def
  by (cases x, cases "snd x"; simp add: replay_defs pickup_Complete_def due_def Let_def ask_def split: option.split)+

lemma talk_CancelPickup:
  fixes fmt cfg i p q n n1 n2 n3 n4 e
  defines "rq \<equiv> ReqCancelPickup i"
  shows
  "upcoming fmt cfg rq [] n = Some (None, QCancel i n)"
  "upcoming fmt cfg rq [(n1, Inl e)] n = None"
  "outcome_of fmt cfg rq [(n1, Inl e)] = Inl e"
  "upcoming fmt cfg rq [(n1, Inr (RPickupOpt (Some q)))] n = None"
  "outcome_of fmt cfg rq [(n1, Inr (RPickupOpt (Some q)))] = Inr ()"
  "upcoming fmt cfg rq [(n1, Inr (RPickupOpt None))] n = Some (None, QFindPickup i)"
  "upcoming fmt cfg rq [(n1, Inr (RPickupOpt None)), (n2, Inl e)] n = None"
  "outcome_of fmt cfg rq [(n1, Inr (RPickupOpt None)), (n2, Inl e)] = Inl e"
  "upcoming fmt cfg rq [(n1, Inr (RPickupOpt None)), (n2, Inr (RPickup p))] n = None"
  "outcome_of fmt cfg rq [(n1, Inr (RPickupOpt None)), (n2, Inr (RPickup p))] = Inl (App ErrPickupNotCancelable)"
  unfolding rq_def
  by (simp add: replay_defs pickup_Cancel_def Let_def ask_def split: option.split)+

lemma talk_Sweep:
  fixes fmt cfg k n n1 n2 n3 n4 e
  defines "rq \<equiv> ReqSweep"
  shows
  "upcoming fmt cfg rq [] n = Some (None, QCancelStale (n - kc_OrganicTTL (cf_Worker cfg)) n)"
  "upcoming fmt cfg rq [(n1, Inl e)] n = None"
  "outcome_of fmt cfg rq [(n1, Inl e)] = Inl e"
  "upcoming fmt cfg rq [(n1, Inr (RNat k))] n = None"
  "outcome_of fmt cfg rq [(n1, Inr (RNat k))] = Inr ()"
  unfolding rq_def
  by (simp add: replay_defs pickup_CancelStaleOrganic_def Let_def ask_def split: option.split)+

lemma talk_CreatePayment:
  fixes fmt cfg cy j p n n1 n2 n3 n4 e
  defines "rq \<equiv> ReqCreatePayment cy j"
  shows
  "upcoming fmt cfg rq [] n = Some (None, QFindPickup (cy_WasteID cy))"
  "upcoming fmt cfg rq [(n1, Inl e)] n = None"
  "outcome_of fmt cfg rq [(n1, Inl e)] = Inl e"
  unfolding rq_def
  by (simp add: replay_defs payment_Create_def Let_def ask_def split: option.split)+

lemma talk_CreatePayment_found:
  fixes fmt cfg cy j p n n1 n2 e
  defines "rq \<equiv> ReqCreatePayment cy j"
  assumes "pk_HouseholdID p = cy_HouseholdID cy"
  shows
  "upcoming fmt cfg rq [(n1, Inr (RPickup p))] n = Some (None, QInsertPayment (payment_for (app_pricing cfg) cy j n p))"
  "upcoming fmt cfg rq [(n1, Inr (RPickup p)), (n2, Inl e)] n = None"
  "outcome_of fmt cfg rq [(n1, Inr (RPickup p)), (n2, Inl e)] = Inl e"
  "upcoming fmt cfg rq [(n1, Inr (RPickup p)), (n2, Inr RUnit)] n = None"
  "outcome_of fmt cfg rq [(n1, Inr (RPickup p)), (n2, Inr RUnit)] = Inr ()"
  unfolding rq_def
  by (simp add: assms(2) replay_defs payment_Create_def payment_for_def Let_def)+

lemma talk_CreatePayment_foreign:
  fixes fmt cfg cy j p n n1
  defines "rq \<equiv> ReqCreatePayment cy j"
  assumes "pk_HouseholdID p \<noteq> cy_HouseholdID cy"
  shows
  "upcoming fmt cfg rq [(n1, Inr (RPickup p))] n = None"
  "outcome_of fmt cfg rq [(n1, Inr (RPickup p))] = Inl (App ErrPaymentHouseholdMismatch)"
  unfolding rq_def
  by (simp add: assms(2) replay_defs payment_Create_def Let_def)+

lemma talk_ListPayments:
  fixes fmt cfg yf p ys k n n1 n2 n3 n4 e
  defines "rq \<equiv> ReqListPayments yf p"
  shows
  "upcoming fmt cfg rq [] n = Some (None, QListPayments (yf_Status yf) (yf_HouseholdID yf) (yf_DateFrom yf) (yf_DateTo yf) (Limit p) (Offset p))"
  "upcoming fmt cfg rq [(n1, Inl e)] n = None"
  "outcome_of fmt cfg rq [(n1, Inl e)] = Inl e"
  "upcoming fmt cfg rq [(n1, Inr (RPayments ys))] n = Some (None, QCountPayments (yf_Status yf) (yf_HouseholdID yf) (yf_DateFrom yf) (yf_DateTo yf))"
  "upcoming fmt cfg rq [(n1, Inr (RPayments ys)), (n2, Inl e)] n = None"
  "outcome_of fmt cfg rq [(n1, Inr (RPayments ys)), (n2, Inl e)] = Inl e"
  "upcoming fmt cfg rq [(n1, Inr (RPayments ys)), (n2, Inr (RNat k))] n = None"
  "outcome_of fmt cfg rq [(n1, Inr (RPayments ys)), (n2, Inr (RNat k))] = Inr ()"
  unfolding rq_def
  by (simp add: replay_defs payment_List_def Let_def ask_def split: option.split)+

lemma talk_ConfirmPayment:
  fixes fmt cfg i ci j n n1 n2 n3 n4 e
  defines "rq \<equiv> ReqConfirmPayment i ci j"
  shows
  "upcoming fmt cfg rq [] n = Some (None, QFindPayment i)"
  "upcoming fmt cfg rq [(n1, Inl e)] n = None"
  "outcome_of fmt cfg rq [(n1, Inl e)] = Inl e"
  unfolding rq_def
  by (simp add: replay_defs payment_Confirm_def Let_def ask_def split: option.split)+

lemma talk_ConfirmPayment_pending:
  fixes fmt cfg i ci j y url z n n1 n2 n3 e
  defines "rq \<equiv> ReqConfirmPayment i ci j"
  assumes "pm_Status y = PaymentPending"
  shows
  "upcoming fmt cfg rq [(n1, Inr (RPayment y))] n =
     Some (None, QPut (proof_key fmt i j (ci_ContentType ci)) (ci_Reader ci) (ci_Size ci) (ci_ContentType ci))"
  "upcoming fmt cfg rq [(n1, Inr (RPayment y)), (n2, Inl e)] n = None"
  "outcome_of fmt cfg rq [(n1, Inr (RPayment y)), (n2, Inl e)] =
     Inl (App (WithCause ErrStorageUnavailable e))"
  "upcoming fmt cfg rq [(n1, Inr (RPayment y)), (n2, Inr (RText url))] n = Some (None, QConfirm i url n)"
  "upcoming fmt cfg rq [(n1, Inr (RPayment y)), (n2, Inr (RText url)), (n3, Inl e)] n = None"
  "outcome_of fmt cfg rq [(n1, Inr (RPayment y)), (n2, Inr (RText url)), (n3, Inl e)] = Inl e"
  "upcoming fmt cfg rq [(n1, Inr (RPayment y)), (n2, Inr (RText url)), (n3, Inr (RPaymentOpt None))] n = None"
  "outcome_of fmt cfg rq [(n1, Inr (RPayment y)), (n2, Inr (RText url)), (n3, Inr (RPaymentOpt None))] =
     Inl (App ErrPaymentNotPending)"
  "upcoming fmt cfg rq [(n1, Inr (RPayment y)), (n2, Inr (RText url)), (n3, Inr (RPaymentOpt (Some z)))] n = None"
  "outcome_of fmt cfg rq [(n1, Inr (RPayment y)), (n2, Inr (RText url)), (n3, Inr (RPaymentOpt (Some z)))] = Inr ()"
  unfolding rq_def
  by (simp add: assms(2) replay_defs payment_Confirm_def proof_key_def Let_def)+

lemma talk_ConfirmPayment_settled:
  fixes fmt cfg i ci j y n n1
  defines "rq \<equiv> ReqConfirmPayment i ci j"
  assumes "pm_Status y \<noteq> PaymentPending"
  shows
  "upcoming fmt cfg rq [(n1, Inr (RPayment y))] n = None"
  "outcome_of fmt cfg rq [(n1, Inr (RPayment y))] = Inl (App ErrPaymentNotPending)"
  unfolding rq_def
  by (simp add: assms(2) replay_defs payment_Confirm_def Let_def)+

lemma talk_WasteSummary:
  fixes fmt cfg cs n n1 n2 n3 n4 e
  defines "rq \<equiv> ReqWasteSummary"
  shows
  "upcoming fmt cfg rq [] n = Some (None, QWasteSummary)"
  "upcoming fmt cfg rq [(n1, Inl e)] n = None"
  "outcome_of fmt cfg rq [(n1, Inl e)] = Inl e"
  "upcoming fmt cfg rq [(n1, Inr (RWaste cs))] n = None"
  "outcome_of fmt cfg rq [(n1, Inr (RWaste cs))] = Inr ()"
  unfolding rq_def
  by (simp add: replay_defs report_WasteSummary_def Let_def ask_def split: option.split)+

lemma talk_PaymentSummary:
  fixes fmt cfg ts n n1 n2 n3 n4 e
  defines "rq \<equiv> ReqPaymentSummary"
  shows
  "upcoming fmt cfg rq [] n = Some (None, QPaymentSummary)"
  "upcoming fmt cfg rq [(n1, Inl e)] n = None"
  "outcome_of fmt cfg rq [(n1, Inl e)] = Inl e"
  "upcoming fmt cfg rq [(n1, Inr (RTotals ts))] n = None"
  "outcome_of fmt cfg rq [(n1, Inr (RTotals ts))] = Inr ()"
  unfolding rq_def
  by (simp add: replay_defs report_PaymentSummary_def Let_def ask_def split: option.split)+

lemma talk_History:
  fixes fmt cfg i h ps ys n n1 n2 n3 n4 e
  defines "rq \<equiv> ReqHistory i"
  shows
  "upcoming fmt cfg rq [] n = Some (None, QFindHousehold i)"
  "upcoming fmt cfg rq [(n1, Inl e)] n = None"
  "outcome_of fmt cfg rq [(n1, Inl e)] = Inl e"
  "upcoming fmt cfg rq [(n1, Inr (RHousehold h))] n = Some (None, QHouseholdPickups i)"
  "upcoming fmt cfg rq [(n1, Inr (RHousehold h)), (n2, Inl e)] n = None"
  "outcome_of fmt cfg rq [(n1, Inr (RHousehold h)), (n2, Inl e)] = Inl e"
  "upcoming fmt cfg rq [(n1, Inr (RHousehold h)), (n2, Inr (RPickups ps))] n = Some (None, QHouseholdPayments i)"
  "upcoming fmt cfg rq [(n1, Inr (RHousehold h)), (n2, Inr (RPickups ps)), (n3, Inl e)] n = None"
  "outcome_of fmt cfg rq [(n1, Inr (RHousehold h)), (n2, Inr (RPickups ps)), (n3, Inl e)] = Inl e"
  "upcoming fmt cfg rq [(n1, Inr (RHousehold h)), (n2, Inr (RPickups ps)), (n3, Inr (RPayments ys))] n = None"
  "outcome_of fmt cfg rq [(n1, Inr (RHousehold h)), (n2, Inr (RPickups ps)), (n3, Inr (RPayments ys))] = Inr ()"
  unfolding rq_def
  by (simp add: replay_defs report_HouseholdHistory_def Let_def ask_def split: option.split)+

section \<open>Alone, a session is the request\<close>

lemma withTx_handle: "withTx c t = Some OpenTx"
  by (cases t) (simp add: withTx_def)

lemma five: "(5 :: nat) = Suc (Suc (Suc (Suc (Suc 0))))"
  by simp

lemmas conversation_defs = service_defs verdict_def Let_def unit_reply_def NewTxManager_def
  TxManager_Do_def txFromContext_def withTx_handle mapError_def commit_response_def wrap_def
  reportService_def report_NewService_def NewReportRepository_def
  new_household_for_def new_pickup_def payment_for_def proof_key_def due_def

lemmas conversation_splits = prod.split sum.split option.split

lemma alone_answer: "alone 5 fmt cfg rq [] w = answer fmt cfg rq w"
proof (cases rq)
  case (ReqCreateHousehold cmd i)
  then show ?thesis
    by (auto simp: five talk_CreateHousehold conversation_defs household_Create_def split: conversation_splits)
next
  case (ReqGetHousehold i)
  then show ?thesis
    by (auto simp: five talk_GetHousehold conversation_defs household_Get_def split: conversation_splits)
next
  case (ReqListHouseholds p)
  then show ?thesis
    by (auto simp: five talk_ListHouseholds conversation_defs household_List_def split: conversation_splits)
next
  case (ReqDeleteHousehold i)
  then show ?thesis
    by (auto simp: five talk_DeleteHousehold conversation_defs household_Delete_def split: conversation_splits)
next
  case (ReqCreatePickup cp i)
  then show ?thesis
    by (auto simp: five talk_CreatePickup conversation_defs pickup_Create_def split: conversation_splits)
next
  case (ReqListPickups pf p)
  then show ?thesis
    by (auto simp: five talk_ListPickups conversation_defs pickup_List_def split: conversation_splits)
next
  case (ReqSchedulePickup i sp)
  then show ?thesis
    by (auto simp: five talk_SchedulePickup conversation_defs pickup_Schedule_def split: conversation_splits)
next
  case (ReqCompletePickup i j)
  then show ?thesis
    by (auto simp: five talk_CompletePickup conversation_defs pickup_Complete_def split: conversation_splits)
next
  case (ReqCancelPickup i)
  then show ?thesis
    by (auto simp: five talk_CancelPickup conversation_defs pickup_Cancel_def split: conversation_splits)
next
  case ReqSweep
  then show ?thesis
    by (auto simp: five talk_Sweep conversation_defs pickup_CancelStaleOrganic_def split: conversation_splits)
next
  case (ReqCreatePayment cy i)
  then show ?thesis
    by (auto simp: five talk_CreatePayment talk_CreatePayment_found talk_CreatePayment_foreign
        conversation_defs payment_Create_def split: conversation_splits)
next
  case (ReqListPayments yf p)
  then show ?thesis
    by (auto simp: five talk_ListPayments conversation_defs payment_List_def split: conversation_splits)
next
  case (ReqConfirmPayment i ci j)
  then show ?thesis
    by (auto simp: five talk_ConfirmPayment talk_ConfirmPayment_pending talk_ConfirmPayment_settled
        conversation_defs payment_Confirm_def split: conversation_splits)
next
  case ReqWasteSummary
  then show ?thesis
    by (auto simp: five talk_WasteSummary conversation_defs report_WasteSummary_def split: conversation_splits)
next
  case ReqPaymentSummary
  then show ?thesis
    by (auto simp: five talk_PaymentSummary conversation_defs report_PaymentSummary_def split: conversation_splits)
next
  case (ReqHistory i)
  then show ?thesis
    by (auto simp: five talk_History conversation_defs report_HouseholdHistory_def split: conversation_splits)
qed

section \<open>When a session may make which call\<close>

text \<open>
  The calls that write, and those inside a transaction, with the replies that come before them.
  \<open>c\<close> says whether the call runs in the transaction of the session.
\<close>

definition transactional :: "request \<Rightarrow> bool" where
  "transactional rq \<longleftrightarrow>
     (case rq of ReqCreatePickup cp i \<Rightarrow> True | ReqCompletePickup i j \<Rightarrow> True | _ \<Rightarrow> False)"

definition legal :: "Config \<Rightarrow> request \<Rightarrow> (instant \<times> response) list \<Rightarrow> instant \<Rightarrow> ctx \<Rightarrow> query \<Rightarrow> bool" where
  "legal cfg rq past n c q \<longleftrightarrow> length past < 4 \<and>
    (case q of
       QInsertPickup p \<Rightarrow> c = Some OpenTx \<and>
         (\<exists>cp i n1 n2. rq = ReqCreatePickup cp i \<and> p = new_pickup cp i n1 \<and>
            past = [(n1, Inr RUnit), (n2, Inr (RBool False))])
     | QHasPending h \<Rightarrow> c = Some OpenTx \<and>
         (\<exists>cp i n1. rq = ReqCreatePickup cp i \<and> h = cp_HouseholdID cp \<and> past = [(n1, Inr RUnit)])
     | QComplete i now \<Rightarrow> c = Some OpenTx \<and>
         (\<exists>j. rq = ReqCompletePickup i j \<and> past = [(now, Inr RUnit)])
     | QInsertPayment y \<Rightarrow>
         c = None \<and> (\<exists>cy j n1 p. rq = ReqCreatePayment cy j \<and> past = [(n1, Inr (RPickup p))] \<and>
            pk_HouseholdID p = cy_HouseholdID cy \<and> y = payment_for (app_pricing cfg) cy j n p) \<or>
         c = Some OpenTx \<and> (\<exists>i j n1 n2 p. rq = ReqCompletePickup i j \<and>
            past = [(n1, Inr RUnit), (n2, Inr (RPickupOpt (Some p)))] \<and>
            y = due (app_pricing cfg) j n1 p)
     | QFindPickup i \<Rightarrow> c = None \<and> \<not> transactional rq \<or>
         c = Some OpenTx \<and> (\<exists>j n1 n2. rq = ReqCompletePickup i j \<and>
            past = [(n1, Inr RUnit), (n2, Inr (RPickupOpt None))])
     | QBegin \<Rightarrow> c = None \<and> past = [] \<and> transactional rq
     | QCommit \<Rightarrow> c = None \<and>
         ((\<exists>cp i n1 n2 n3. rq = ReqCreatePickup cp i \<and>
             past = [(n1, Inr RUnit), (n2, Inr (RBool False)), (n3, Inr RUnit)]) \<or>
          (\<exists>i j n1 n2 n3 p. rq = ReqCompletePickup i j \<and>
             past = [(n1, Inr RUnit), (n2, Inr (RPickupOpt (Some p))), (n3, Inr RUnit)]))
     | QRollback \<Rightarrow> c = None \<and> transactional rq
     | _ \<Rightarrow> c = None \<and> \<not> transactional rq)"

lemmas legal_splits = list.splits sum.splits option.splits prod.splits if_splits

lemma legal_CreatePickup:
  assumes "upcoming fmt cfg (ReqCreatePickup cp i) past n = Some (c, q)"
  shows "legal cfg (ReqCreatePickup cp i) past n c q"
proof -
  note defs = replay_defs pickup_Create_def new_pickup_def Let_def ask_def legal_def transactional_def
  show ?thesis
  proof (cases past)
    case Nil
    with assms show ?thesis by (auto simp: defs)
  next
    case 1: (Cons x1 p1)
    show ?thesis
    proof (cases "\<exists>n1. x1 = (n1, Inr RUnit)")
      case False
      with 1 assms show ?thesis
        by (cases x1; cases "snd x1") (auto simp: defs split: option.splits)
    next
      case True
      then obtain n1 where x1: "x1 = (n1, Inr RUnit)" by blast
      show ?thesis
      proof (cases p1)
        case Nil
        with 1 x1 assms show ?thesis by (auto simp: defs)
      next
        case 2: (Cons x2 p2)
        show ?thesis
        proof (cases "\<exists>n2. x2 = (n2, Inr (RBool False))")
          case False
          with 1 2 x1 assms show ?thesis
            by (cases x2; cases "snd x2"; cases p2) (auto simp: defs split: list.splits option.splits sum.splits)
        next
          case True
          then obtain n2 where x2: "x2 = (n2, Inr (RBool False))" by blast
          with 1 2 x1 assms show ?thesis
            by (auto simp: defs split: list.splits sum.splits option.splits)
        qed
      qed
    qed
  qed
qed

lemma legal_CompletePickup:
  assumes "upcoming fmt cfg (ReqCompletePickup i j) past n = Some (c, q)"
  shows "legal cfg (ReqCompletePickup i j) past n c q"
proof -
  note defs = replay_defs pickup_Complete_def due_def Let_def ask_def legal_def transactional_def
  show ?thesis
  proof (cases past)
    case Nil
    with assms show ?thesis by (auto simp: defs)
  next
    case 1: (Cons x1 p1)
    show ?thesis
    proof (cases "\<exists>n1. x1 = (n1, Inr RUnit)")
      case False
      with 1 assms show ?thesis
        by (cases x1; cases "snd x1") (auto simp: defs split: option.splits)
    next
      case True
      then obtain n1 where x1: "x1 = (n1, Inr RUnit)" by blast
      show ?thesis
      proof (cases p1)
        case Nil
        with 1 x1 assms show ?thesis by (auto simp: defs)
      next
        case 2: (Cons x2 p2)
        show ?thesis
        proof (cases "\<exists>n2 p. x2 = (n2, Inr (RPickupOpt (Some p)))")
          case False
          with 1 2 x1 assms show ?thesis
            by (cases x2; cases "snd x2"; cases p2) (auto simp: defs split: list.splits option.splits sum.splits)
        next
          case True
          then obtain n2 p where x2: "x2 = (n2, Inr (RPickupOpt (Some p)))" by blast
          with 1 2 x1 assms show ?thesis
            by (auto simp: defs split: list.splits sum.splits option.splits)
        qed
      qed
    qed
  qed
qed

lemma upcoming_legal:
  assumes "upcoming fmt cfg rq past n = Some (c, q)"
  shows "legal cfg rq past n c q"
proof (cases rq)
  case (ReqCreateHousehold cmd i)
  with assms show ?thesis
    by (auto simp: legal_def transactional_def replay_defs ask_def Let_def household_Create_def split: legal_splits)
next
  case (ReqGetHousehold i)
  with assms show ?thesis
    by (auto simp: legal_def transactional_def replay_defs ask_def Let_def household_Get_def split: legal_splits)
next
  case (ReqListHouseholds p)
  with assms show ?thesis
    by (auto simp: legal_def transactional_def replay_defs ask_def Let_def household_List_def split: legal_splits)
next
  case (ReqDeleteHousehold i)
  with assms show ?thesis
    by (auto simp: legal_def transactional_def replay_defs ask_def Let_def household_Delete_def split: legal_splits)
next
  case (ReqCreatePickup cp i)
  with assms show ?thesis by (simp add: legal_CreatePickup)
next
  case (ReqListPickups pf p)
  with assms show ?thesis
    by (auto simp: legal_def transactional_def replay_defs ask_def Let_def pickup_List_def split: legal_splits)
next
  case (ReqSchedulePickup i sp)
  with assms show ?thesis
    by (auto simp: legal_def transactional_def replay_defs ask_def Let_def pickup_Schedule_def split: legal_splits)
next
  case (ReqCompletePickup i j)
  with assms show ?thesis by (simp add: legal_CompletePickup)
next
  case (ReqCancelPickup i)
  with assms show ?thesis
    by (auto simp: legal_def transactional_def replay_defs ask_def Let_def pickup_Cancel_def split: legal_splits)
next
  case ReqSweep
  with assms show ?thesis
    by (auto simp: legal_def transactional_def replay_defs ask_def Let_def pickup_CancelStaleOrganic_def split: legal_splits)
next
  case (ReqCreatePayment cy i)
  with assms show ?thesis
    by (auto simp: legal_def transactional_def replay_defs ask_def Let_def payment_Create_def payment_for_def split: legal_splits)
next
  case (ReqListPayments yf p)
  with assms show ?thesis
    by (auto simp: legal_def transactional_def replay_defs ask_def Let_def payment_List_def split: legal_splits)
next
  case (ReqConfirmPayment i ci j)
  with assms show ?thesis
    by (auto simp: legal_def transactional_def replay_defs ask_def Let_def payment_Confirm_def split: legal_splits)
next
  case ReqWasteSummary
  with assms show ?thesis
    by (auto simp: legal_def transactional_def replay_defs ask_def Let_def report_WasteSummary_def split: legal_splits)
next
  case ReqPaymentSummary
  with assms show ?thesis
    by (auto simp: legal_def transactional_def replay_defs ask_def Let_def report_PaymentSummary_def split: legal_splits)
next
  case (ReqHistory i)
  with assms show ?thesis
    by (auto simp: legal_def transactional_def replay_defs ask_def Let_def report_HouseholdHistory_def split: legal_splits)
qed

section \<open>How a session succeeds\<close>

text \<open>The replies behind a success, for the requests that write.\<close>

definition success :: "request \<Rightarrow> (instant \<times> response) list \<Rightarrow> bool" where
  "success rq past \<longleftrightarrow>
    (case rq of
       ReqCreateHousehold cmd i \<Rightarrow> (\<exists>n1 xs. past = (n1, Inr RUnit) # xs)
     | ReqDeleteHousehold i \<Rightarrow> (\<exists>n1 xs. past = (n1, Inr RUnit) # xs)
     | ReqCreatePickup cp i \<Rightarrow>
         (\<exists>n1 n2 n3 n4 xs. past = (n1, Inr RUnit) # (n2, Inr (RBool False)) # (n3, Inr RUnit) # (n4, Inr RUnit) # xs)
     | ReqSchedulePickup i sp \<Rightarrow> (\<exists>n1 p xs. past = (n1, Inr (RPickupOpt (Some p))) # xs)
     | ReqCompletePickup i j \<Rightarrow>
         (\<exists>n1 n2 n3 n4 p xs. past = (n1, Inr RUnit) # (n2, Inr (RPickupOpt (Some p))) # (n3, Inr RUnit) # (n4, Inr RUnit) # xs)
     | ReqCancelPickup i \<Rightarrow> (\<exists>n1 p xs. past = (n1, Inr (RPickupOpt (Some p))) # xs)
     | ReqCreatePayment cy j \<Rightarrow>
         (\<exists>n1 n2 p xs. past = (n1, Inr (RPickup p)) # (n2, Inr RUnit) # xs \<and> pk_HouseholdID p = cy_HouseholdID cy)
     | ReqConfirmPayment i ci j \<Rightarrow>
         (\<exists>n1 n2 n3 y url z xs. past = (n1, Inr (RPayment y)) # (n2, Inr (RText url)) #
            (n3, Inr (RPaymentOpt (Some z))) # xs \<and> pm_Status y = PaymentPending)
     | _ \<Rightarrow> True)"

lemma success_shape:
  assumes "outcome_of fmt cfg rq past = Inr ()"
  shows "success rq past"
proof (cases rq)
  case (ReqCreateHousehold cmd i)
  with assms show ?thesis
    by (auto simp: success_def replay_defs ask_def Let_def household_Create_def split: legal_splits)
next
  case (ReqDeleteHousehold i)
  with assms show ?thesis
    by (auto simp: success_def replay_defs ask_def Let_def household_Delete_def split: legal_splits)
next
  case (ReqCreatePickup cp i)
  with assms show ?thesis
    by (auto simp: success_def replay_defs ask_def Let_def pickup_Create_def split: legal_splits)
next
  case (ReqSchedulePickup i sp)
  with assms show ?thesis
    by (auto simp: success_def replay_defs ask_def Let_def pickup_Schedule_def split: legal_splits)
next
  case (ReqCompletePickup i j)
  with assms show ?thesis
    by (auto simp: success_def replay_defs ask_def Let_def pickup_Complete_def split: legal_splits)
next
  case (ReqCancelPickup i)
  with assms show ?thesis
    by (auto simp: success_def replay_defs ask_def Let_def pickup_Cancel_def split: legal_splits)
next
  case (ReqCreatePayment cy i)
  with assms show ?thesis
    by (auto simp: success_def replay_defs ask_def Let_def payment_Create_def split: legal_splits)
next
  case (ReqConfirmPayment i ci j)
  with assms show ?thesis
    by (auto simp: success_def replay_defs ask_def Let_def payment_Confirm_def split: legal_splits)
qed (simp_all add: success_def)

text \<open>A request that has succeeded makes no further call.\<close>

definition writes :: "request \<Rightarrow> bool" where
  "writes rq \<longleftrightarrow>
    (case rq of ReqCreatePickup cp i \<Rightarrow> True | ReqSchedulePickup i sp \<Rightarrow> True | ReqCompletePickup i j \<Rightarrow> True
     | ReqCancelPickup i \<Rightarrow> True | ReqCreatePayment cy j \<Rightarrow> True | ReqConfirmPayment i ci j \<Rightarrow> True
     | _ \<Rightarrow> False)"

lemma success_finished:
  assumes "success rq past" and "writes rq"
  shows "upcoming fmt cfg rq past n = None"
proof (cases rq)
  case (ReqCreatePickup cp i)
  with assms show ?thesis
    by (auto simp: success_def writes_def replay_defs ask_def Let_def pickup_Create_def split: legal_splits)
next
  case (ReqSchedulePickup i sp)
  with assms show ?thesis
    by (auto simp: success_def writes_def replay_defs ask_def Let_def pickup_Schedule_def split: legal_splits)
next
  case (ReqCompletePickup i j)
  with assms show ?thesis
    by (auto simp: success_def writes_def replay_defs ask_def Let_def pickup_Complete_def split: legal_splits)
next
  case (ReqCancelPickup i)
  with assms show ?thesis
    by (auto simp: success_def writes_def replay_defs ask_def Let_def pickup_Cancel_def split: legal_splits)
next
  case (ReqCreatePayment cy i)
  with assms show ?thesis
    by (auto simp: success_def writes_def replay_defs ask_def Let_def payment_Create_def split: legal_splits)
next
  case (ReqConfirmPayment i ci j)
  with assms show ?thesis
    by (auto simp: success_def writes_def replay_defs ask_def Let_def payment_Confirm_def split: legal_splits)
qed (use assms in \<open>simp_all add: writes_def\<close>)

end
