(* ===== verification/Interleaving.thy ===== *)
theory Interleaving
  imports Conversation
begin

text \<open>
  Requests that run at the same time. The shared state is the committed tables, the
  object store and the clock; every session has its request, the replies it has got and the
  work of its open transaction. One turn is one call of one session, in any order.

  Transactions run at the level READ COMMITTED: a statement in a transaction sees what is committed
  when it runs and the transaction's own changes. What a transaction has
  changed is therefore kept as the statements that changed it, with their replies, and run again
  on the tables as they are. A turn that would change one of these replies has to wait, as the row,
  key and reference locks of PostgreSQL make it wait; so do two transactions whose changes do not
  fit together.
\<close>

section \<open>State\<close>

datatype work = Live "(query \<times> response) list" | Dead

record session =
  ss_request :: request
  ss_past :: "(instant \<times> response) list"
  ss_work :: "work option"
  ss_since :: instant

record shared =
  sh_db :: db
  sh_blobs :: "blob list"
  sh_now :: instant
  sh_sessions :: "session list"

definition bucket_of :: "Config \<Rightarrow> MinIO" where
  "bucket_of cfg = NewMinIO (cf_MinIO cfg)"

text \<open>The state amid an open transaction with tables \<open>d\<close>.\<close>

definition amid :: "db \<Rightarrow> world" where
  "amid d = \<lparr>wd_db = d, wd_tx = Some (Active d), wd_net = [], wd_now = 0, wd_blobs = []\<rparr>"

fun rerun :: "MinIO \<Rightarrow> (query \<times> response) list \<Rightarrow> db \<Rightarrow> db option" where
  "rerun m [] d = Some d"
| "rerun m ((q, a) # lg) d =
    (case perform m q (Some OpenTx) (amid d) of
       (a', w) \<Rightarrow>
         if a' = a then (case wd_tx w of Some (Active d') \<Rightarrow> rerun m lg d' | _ \<Rightarrow> None) else None)"

definition working :: "MinIO \<Rightarrow> db \<Rightarrow> work option \<Rightarrow> tx_state option" where
  "working m d wk =
    (case wk of
       None \<Rightarrow> None
     | Some Dead \<Rightarrow> Some Aborted
     | Some (Live lg) \<Rightarrow>
         (case rerun m lg d of None \<Rightarrow> Some Aborted | Some d' \<Rightarrow> Some (Active d')))"

definition work_after :: "work option \<Rightarrow> tx_state option \<Rightarrow> query \<Rightarrow> response \<Rightarrow> tx_state option \<Rightarrow> work option" where
  "work_after wk before q a after =
    (case after of
       None \<Rightarrow> None
     | Some Aborted \<Rightarrow> Some Dead
     | Some (Active d) \<Rightarrow>
         (case wk of
            Some (Live lg) \<Rightarrow>
              Some (Live (if before = Some (Active d) then lg else lg @ [(q, a)]))
          | _ \<Rightarrow> Some (Live [])))"

section \<open>Turns\<close>

text \<open>
  The session reads the clock at \<open>n\<close>, some time between its last reply and now, and its next
  call has the outcome \<open>x\<close>.
\<close>

definition at_site :: "shared \<Rightarrow> tx_state option \<Rightarrow> outcome \<Rightarrow> world" where
  "at_site s t x =
    \<lparr>wd_db = sh_db s, wd_tx = t, wd_net = [x], wd_now = sh_now s, wd_blobs = sh_blobs s\<rparr>"

definition turn :: "(uuid \<Rightarrow> string) \<Rightarrow> Config \<Rightarrow> instant \<Rightarrow> outcome \<Rightarrow> shared \<Rightarrow> session \<Rightarrow>
    (shared \<times> session) option" where
  "turn fmt cfg n x s ss =
    (if ss_since ss \<le> n \<and> n \<le> sh_now s \<and> outcome_ok x
     then (case upcoming fmt cfg (ss_request ss) (ss_past ss) n of
             None \<Rightarrow> None
           | Some (c, q) \<Rightarrow>
               let before = working (bucket_of cfg) (sh_db s) (ss_work ss)
               in (case perform (bucket_of cfg) q c (at_site s before x) of
                     (a, w) \<Rightarrow>
                       Some (s\<lparr>sh_db := wd_db w, sh_blobs := wd_blobs w\<rparr>,
                             ss\<lparr>ss_past := ss_past ss @ [(n, a)],
                                ss_work := work_after (ss_work ss) before q a (wd_tx w),
                                ss_since := sh_now s\<rparr>)))
     else None)"

definition open_logs :: "session list \<Rightarrow> (query \<times> response) list list" where
  "open_logs sss =
    concat (map (\<lambda>ss. case ss_work ss of Some (Live lg) \<Rightarrow> [lg] | _ \<Rightarrow> []) sss)"

definition undisturbed :: "MinIO \<Rightarrow> shared \<Rightarrow> bool" where
  "undisturbed m s \<longleftrightarrow>
    (let ls = open_logs (sh_sessions s); ks = [0..<length ls]
     in list_all (\<lambda>i. list_all (\<lambda>j.
          rerun m (if i = j then ls ! i else ls ! i @ ls ! j) (sh_db s) \<noteq> None) ks) ks)"

datatype event =
    Arrive request
  | Turn nat instant outcome
  | Tick instant
  | Restart

fun happen :: "(uuid \<Rightarrow> string) \<Rightarrow> Config \<Rightarrow> event \<Rightarrow> shared \<Rightarrow> shared option" where
  "happen fmt cfg (Arrive rq) s =
     Some (s\<lparr>sh_sessions := sh_sessions s @
       [\<lparr>ss_request = rq, ss_past = [], ss_work = None, ss_since = sh_now s\<rparr>]\<rparr>)"
| "happen fmt cfg (Turn k n x) s =
     (if k < length (sh_sessions s)
      then (case turn fmt cfg n x s (sh_sessions s ! k) of
              None \<Rightarrow> None
            | Some (t, ss) \<Rightarrow>
                let t = t\<lparr>sh_sessions := (sh_sessions t)[k := ss]\<rparr>
                in if undisturbed (bucket_of cfg) t then Some t else None)
      else None)"
| "happen fmt cfg (Tick n) s = (if sh_now s \<le> n then Some (s\<lparr>sh_now := n\<rparr>) else None)"
| "happen fmt cfg Restart s = Some (s\<lparr>sh_sessions := []\<rparr>)"

fun happens :: "(uuid \<Rightarrow> string) \<Rightarrow> Config \<Rightarrow> event list \<Rightarrow> shared \<Rightarrow> shared option" where
  "happens fmt cfg [] s = Some s"
| "happens fmt cfg (ev # evs) s =
    (case happen fmt cfg ev s of None \<Rightarrow> None | Some t \<Rightarrow> happens fmt cfg evs t)"

definition at_start :: "instant \<Rightarrow> shared" where
  "at_start now = \<lparr>sh_db = empty_db, sh_blobs = [], sh_now = now, sh_sessions = []\<rparr>"

inductive interleaved :: "(uuid \<Rightarrow> string) \<Rightarrow> Config \<Rightarrow> shared \<Rightarrow> bool" for fmt cfg where
  at_start: "interleaved fmt cfg (at_start now)"
| event: "interleaved fmt cfg s \<Longrightarrow> happen fmt cfg ev s = Some t \<Longrightarrow> interleaved fmt cfg t"

inductive_cases interleavedE: "interleaved fmt cfg s"

lemma happens_append:
  "happens fmt cfg (evs @ evs') s =
    (case happens fmt cfg evs s of None \<Rightarrow> None | Some t \<Rightarrow> happens fmt cfg evs' t)"
  by (induction evs arbitrary: s) (auto split: option.split)

lemma interleaved_happens:
  "happens fmt cfg evs s = Some t \<Longrightarrow> interleaved fmt cfg s \<Longrightarrow> interleaved fmt cfg t"
  by (induction evs arbitrary: s) (auto split: option.splits intro: interleaved.event)

end
