(* ===== verification/Timeless.thy ===== *)
theory Timeless
  imports PgPayment Machine
begin

text \<open>
  The state machine of the specification with its times left out (\<open>timeless\<close>), for the invariant of
  overlapping requests: a session reads the clock before the statement that stores the reading, so
  the invariant of \<open>Machine\<close>, which compares times with the clock, is kept for the tables without
  them. Here a pickup is created without a check of pending payments at that moment, and a
  sweep takes some open organic pickups, since their age is a matter of times; the exact
  steps, with their times, are those of \<open>Dated\<close>.
\<close>

section \<open>Leaving out the clock\<close>

definition untimed_household :: "Household \<Rightarrow> Household" where
  "untimed_household h = h\<lparr>hh_CreatedAt := 0, hh_UpdatedAt := 0\<rparr>"

definition untimed_pickup :: "Pickup \<Rightarrow> Pickup" where
  "untimed_pickup p = p\<lparr>pk_CreatedAt := 0, pk_UpdatedAt := 0\<rparr>"

definition untimed_payment :: "Payment \<Rightarrow> Payment" where
  "untimed_payment y =
     y\<lparr>pm_PaymentDate := map_option (\<lambda>_. 0) (pm_PaymentDate y), pm_CreatedAt := 0, pm_UpdatedAt := 0\<rparr>"

definition timeless :: "store \<Rightarrow> store" where
  "timeless s =
    \<lparr>st_now = 0, st_households = (\<lambda>i. map_option untimed_household (st_households s i)),
     st_pickups = (\<lambda>i. map_option untimed_pickup (st_pickups s i)),
     st_payments = (\<lambda>i. map_option untimed_payment (st_payments s i))\<rparr>"

lemma untimed_sel [simp]:
  "hh_ID (untimed_household h) = hh_ID h" "hh_OwnerName (untimed_household h) = hh_OwnerName h"
  "hh_Address (untimed_household h) = hh_Address h"
  "pk_ID (untimed_pickup p) = pk_ID p" "pk_HouseholdID (untimed_pickup p) = pk_HouseholdID p"
  "pk_Type (untimed_pickup p) = pk_Type p" "pk_Status (untimed_pickup p) = pk_Status p"
  "pk_PickupDate (untimed_pickup p) = pk_PickupDate p"
  "pk_SafetyCheck (untimed_pickup p) = pk_SafetyCheck p"
  "pm_ID (untimed_payment y) = pm_ID y" "pm_HouseholdID (untimed_payment y) = pm_HouseholdID y"
  "pm_WasteID (untimed_payment y) = pm_WasteID y" "pm_Amount (untimed_payment y) = pm_Amount y"
  "pm_Status (untimed_payment y) = pm_Status y"
  "pm_ProofFileURL (untimed_payment y) = pm_ProofFileURL y"
  "pm_PaymentDate (untimed_payment y) = None \<longleftrightarrow> pm_PaymentDate y = None"
  by (simp_all add: untimed_household_def untimed_pickup_def untimed_payment_def)

lemma ran_map_option: "ran (\<lambda>i. map_option f (m i)) = f ` ran m"
  by (auto simp: ran_def)

lemma dom_map_option: "dom (\<lambda>i. map_option f (m i)) = dom m"
  by (auto simp: dom_def)

lemma timeless_sel [simp]:
  "st_now (timeless s) = 0"
  "st_households (timeless s) i = map_option untimed_household (st_households s i)"
  "st_pickups (timeless s) i = map_option untimed_pickup (st_pickups s i)"
  "st_payments (timeless s) i = map_option untimed_payment (st_payments s i)"
  "dom (st_households (timeless s)) = dom (st_households s)"
  "dom (st_pickups (timeless s)) = dom (st_pickups s)"
  "dom (st_payments (timeless s)) = dom (st_payments s)"
  "ran (st_pickups (timeless s)) = untimed_pickup ` ran (st_pickups s)"
  "ran (st_payments (timeless s)) = untimed_payment ` ran (st_payments s)"
  by (simp_all add: timeless_def ran_map_option dom_map_option)

lemma timeless_simps:
  "timeless (s\<lparr>st_households := (st_households s)(i \<mapsto> h)\<rparr>) =
     (timeless s)\<lparr>st_households := (st_households (timeless s))(i \<mapsto> untimed_household h)\<rparr>"
  "timeless (s\<lparr>st_households := (st_households s)(i := None)\<rparr>) =
     (timeless s)\<lparr>st_households := (st_households (timeless s))(i := None)\<rparr>"
  "timeless (s\<lparr>st_pickups := (st_pickups s)(i \<mapsto> p)\<rparr>) =
     (timeless s)\<lparr>st_pickups := (st_pickups (timeless s))(i \<mapsto> untimed_pickup p)\<rparr>"
  "timeless (s\<lparr>st_payments := (st_payments s)(i \<mapsto> y)\<rparr>) =
     (timeless s)\<lparr>st_payments := (st_payments (timeless s))(i \<mapsto> untimed_payment y)\<rparr>"
  by (simp_all add: timeless_def fun_eq_iff)

section \<open>The machine\<close>

inductive loose_step :: "Pricing \<Rightarrow> store \<Rightarrow> store \<Rightarrow> bool" for pricing where
  strict: "store_step pricing ttl s t \<Longrightarrow> loose_step pricing s t"
| unguarded: "add_pickup p s = Inr (u, t) \<Longrightarrow> pk_Status p = PickupPending \<Longrightarrow> pk_PickupDate p = None \<Longrightarrow>
    pk_CreatedAt p = st_now s \<Longrightarrow> pk_UpdatedAt p = st_now s \<Longrightarrow> loose_step pricing s t"
| swept: "loose_step pricing s
    (s\<lparr>st_pickups := (\<lambda>i. map_option (\<lambda>p.
        if pk_ID p \<in> S \<and> pk_Type p = PickupOrganic \<and> pk_Status p \<in> {PickupPending, PickupScheduled}
        then canceled (st_now s) p else p)
      (st_pickups s i))\<rparr>)"

lemma add_pickup_Inr:
  "add_pickup p s = Inr (u, t) \<longleftrightarrow>
     pg_text (pk_Type p) \<and> pg_text (pk_Status p) \<and> PickupType_Valid (pk_Type p) \<and>
     check_pickup_status (pk_Status p) \<and> pk_ID p \<notin> dom (st_pickups s) \<and>
     pk_HouseholdID p \<in> dom (st_households s) \<and>
     t = s\<lparr>st_pickups := (st_pickups s)(pk_ID p \<mapsto> p)\<rparr>"
  by (auto simp: add_pickup_def)

lemma good_loose:
  assumes "loose_step pricing s t" and g: "good_store pricing s"
  shows "good_store pricing t"
  using assms(1)
proof cases
  case (strict ttl)
  then show ?thesis using g by (rule good_step)
next
  case (unguarded p u)
  then show ?thesis
    by (auto simp: add_pickup_Inr good_pickup_def intro!: good_add_pickup [OF g])
next
  case (swept S)
  show ?thesis
    unfolding swept by (rule good_map_pickups [OF g]) (auto intro: good_canceled)
qed

lemma loose_pickup:
  assumes "loose_step pricing s t" and "st_pickups s i = Some p"
  shows "\<exists>q. st_pickups t i = Some q \<and> pickup_move p q"
  using assms(1)
proof cases
  case (strict ttl)
  then show ?thesis using assms(2) by (rule step_pickup)
next
  case (unguarded p u)
  then show ?thesis using assms(2) by (auto simp: add_pickup_Inr)
next
  case (swept S)
  then show ?thesis using assms(2) by (auto simp: pickup_move_def same_pickup_def status_moves_def)
qed

lemma loose_payment:
  assumes "loose_step pricing s t" and "st_payments s i = Some y"
  shows "\<exists>z. st_payments t i = Some z \<and> payment_move y z"
  using assms(1)
proof cases
  case (strict ttl)
  then show ?thesis using assms(2) by (rule step_payment)
next
  case (unguarded p u)
  then show ?thesis using assms(2) by (auto simp: add_pickup_Inr)
next
  case (swept S)
  then show ?thesis using assms(2) by simp
qed

section \<open>Repository methods are steps of it\<close>

definition advances :: "Pricing \<Rightarrow> store \<Rightarrow> store \<Rightarrow> bool" where
  "advances pricing s t \<longleftrightarrow> timeless t = timeless s \<or> loose_step pricing (timeless s) (timeless t)"

lemma advances_refl [simp]: "advances pricing s s"
  by (simp add: advances_def)

lemma advancesI: "store_step pricing ttl (timeless s) (timeless t) \<Longrightarrow> advances pricing s t"
  by (simp add: advances_def strict)

lemma advance_add_household:
  assumes "add_household h s = Inr (u, t)"
  shows "advances pricing s t"
proof -
  have "spec_CreateHousehold \<lparr>ch_OwnerName = hh_OwnerName h, ch_Address = hh_Address h\<rparr> (hh_ID h) (timeless s) =
      Inr (untimed_household h, timeless t)"
    using assms by (auto simp: add_household_def spec_CreateHousehold_Inr timeless_simps
        untimed_household_def split: if_splits)
  then show ?thesis by (rule advancesI [OF household_created])
qed

lemma advance_remove_household:
  assumes "remove_household i s = Inr (u, t)"
  shows "advances pricing s t"
proof -
  have "remove_household i (timeless s) = Inr (u, timeless t)"
    using assms by (auto simp: remove_household_Inr timeless_simps)
  then show ?thesis by (rule advancesI [OF household_deleted])
qed

lemma change_pickup_Inr:
  "change_pickup i guard f s = Inr (r, t) \<longleftrightarrow>
     (r = None \<and> t = s \<and> (\<forall>p. st_pickups s i = Some p \<longrightarrow> \<not> guard p)) \<or>
     (\<exists>p. st_pickups s i = Some p \<and> guard p \<and> r = Some (f p) \<and>
        t = s\<lparr>st_pickups := (st_pickups s)(i \<mapsto> f p)\<rparr>)"
  by (auto simp: change_pickup_def split: option.splits)

lemma advance_schedule:
  assumes "change_pickup i (\<lambda>p. CanSchedule p = None) (scheduled_for date now) s = Inr (r, t)"
  shows "advances pricing s t"
proof (cases r)
  case (Some q)
  with assms have "spec_SchedulePickup i date (timeless s) = Inr (untimed_pickup q, timeless t)"
    by (auto simp: change_pickup_Inr spec_SchedulePickup_Inr timeless_simps CanSchedule_None_iff
        scheduled_for_def untimed_pickup_def)
  then show ?thesis by (rule advancesI [OF pickup_scheduled])
qed (use assms in \<open>simp add: change_pickup_Inr\<close>)

lemma advance_cancel:
  assumes "change_pickup i (\<lambda>p. pk_Status p \<in> {PickupPending, PickupScheduled}) (canceled now) s = Inr (r, t)"
  shows "advances pricing s t"
proof (cases r)
  case (Some q)
  with assms have "spec_CancelPickup i (timeless s) = Inr (untimed_pickup q, timeless t)"
    by (auto simp: change_pickup_Inr spec_CancelPickup_Inr timeless_simps canceled_def untimed_pickup_def)
  then show ?thesis by (rule advancesI [OF pickup_canceled])
qed (use assms in \<open>simp add: change_pickup_Inr\<close>)

lemma advance_sweep:
  assumes "cancel_stale cutoff now s = Inr (k, t)" and ids: "\<And>i p. st_pickups s i = Some p \<Longrightarrow> pk_ID p = i"
  shows "advances pricing s t"
proof -
  let ?S = "{i. \<exists>p. st_pickups s i = Some p \<and> stale cutoff p}"
  have "map_option untimed_pickup (map_option (\<lambda>p. if stale cutoff p then canceled now p else p) (st_pickups s i)) =
      map_option (\<lambda>p. if pk_ID p \<in> ?S \<and> pk_Type p = PickupOrganic \<and>
          pk_Status p \<in> {PickupPending, PickupScheduled} then canceled 0 p else p) (map_option untimed_pickup (st_pickups s i))" for i
    using ids by (cases "st_pickups s i") (auto simp: stale_def canceled_def untimed_pickup_def)
  then have "timeless t = (timeless s)\<lparr>st_pickups := (\<lambda>i. map_option (\<lambda>p.
      if pk_ID p \<in> ?S \<and> pk_Type p = PickupOrganic \<and> pk_Status p \<in> {PickupPending, PickupScheduled}
      then canceled 0 p else p)
      (st_pickups (timeless s) i))\<rparr>"
    using assms(1) by (auto simp: cancel_stale_def timeless_def)
  then show ?thesis
    using loose_step.swept [of pricing "timeless s" ?S] unfolding advances_def timeless_sel(1) by simp
qed

lemma advance_confirm:
  assumes "confirm_payment i url now s = Inr (r, t)"
  shows "advances pricing s t"
proof (cases r)
  case (Some z)
  with assms have "spec_ConfirmPayment i url (timeless s) = Inr (untimed_payment z, timeless t)"
    by (auto simp: confirm_payment_def spec_ConfirmPayment_Inr timeless_simps Let_def
        untimed_payment_def split: if_splits option.splits)
  then show ?thesis by (rule advancesI [OF payment_confirmed])
qed (use assms in \<open>auto simp: confirm_payment_def Let_def split: if_splits option.splits\<close>)

lemma advance_add_pickup:
  assumes "add_pickup p s = Inr (u, t)" and "pk_Status p = PickupPending" and "pk_PickupDate p = None"
  shows "advances pricing s t"
proof -
  have "add_pickup (untimed_pickup p) (timeless s) = Inr (u, timeless t)"
    using assms(1) by (simp add: add_pickup_Inr timeless_simps)
  then have "loose_step pricing (timeless s) (timeless t)"
    using assms(2,3) by (intro unguarded [of "untimed_pickup p"]) (simp_all add: untimed_pickup_def)
  then show ?thesis by (simp add: advances_def)
qed

text \<open>A new payment, and a completed pickup with its payment.\<close>

definition payable :: "Pricing \<Rightarrow> Pickup \<Rightarrow> Payment \<Rightarrow> bool" where
  "payable pricing p y \<longleftrightarrow> pm_HouseholdID y = pk_HouseholdID p \<and> pm_WasteID y = pk_ID p \<and>
     pm_Amount y = AmountFor pricing (pk_Type p) \<and> pm_PaymentDate y = None \<and>
     pm_Status y = PaymentPending \<and> pm_ProofFileURL y = None"

lemma add_payment_Inr:
  "add_payment y s = Inr (u, t) \<longleftrightarrow>
     pg_text (pm_Status y) \<and> (\<forall>url. pm_ProofFileURL y = Some url \<longrightarrow> pg_text url) \<and>
     fits_numeric_14_2 (pm_Amount y) \<and> check_payment_status (pm_Status y) \<and>
     pm_ID y \<notin> dom (st_payments s) \<and> (\<forall>z \<in> ran (st_payments s). pm_WasteID z \<noteq> pm_WasteID y) \<and>
     pm_HouseholdID y \<in> dom (st_households s) \<and> pm_WasteID y \<in> dom (st_pickups s) \<and>
     t = s\<lparr>st_payments := (st_payments s)(pm_ID y \<mapsto> y\<lparr>pm_Amount := cents (pm_Amount y)\<rparr>)\<rparr>"
  by (auto simp: add_payment_def split: option.splits)

lemma charge_timeless:
  assumes y: "payable pricing p y" and "add_payment y s = Inr (u, t)"
    and q: "pk_ID q = pk_ID p" "pk_HouseholdID q = pk_HouseholdID p" "pk_Type q = pk_Type p"
  shows "charge pricing (pm_ID y) q (timeless s) =
      Inr (due pricing (pm_ID y) 0 q,
        (timeless s)\<lparr>st_payments := (st_payments (timeless s))
          (pm_ID y \<mapsto> untimed_payment (y\<lparr>pm_Amount := cents (pm_Amount y)\<rparr>))\<rparr>)"
proof -
  have "untimed_payment (y\<lparr>pm_Amount := cents (pm_Amount y)\<rparr>) =
      (due pricing (pm_ID y) 0 q)\<lparr>pm_Amount := cents (pm_Amount y)\<rparr>"
    using y q by (simp add: untimed_payment_def due_def payable_def)
  with y q assms(2) show ?thesis
    by (auto simp: charge_Inr add_payment_Inr due_def payable_def)
qed

lemma advance_add_payment:
  assumes "payable pricing p y" and "add_payment y s = Inr (u, t)"
    and "st_pickups s (pk_ID p) = Some q" "pk_ID q = pk_ID p" "pk_HouseholdID q = pk_HouseholdID p"
      "pk_Type q = pk_Type p"
  shows "advances pricing s t"
proof -
  have "spec_CreatePayment pricing \<lparr>cy_HouseholdID = pk_HouseholdID p, cy_WasteID = pk_ID p\<rparr> (pm_ID y)
      (timeless s) = Inr (due pricing (pm_ID y) 0 (untimed_pickup q), timeless t)"
    using charge_timeless [OF assms(1,2), of "untimed_pickup q"] assms
    by (simp add: spec_CreatePayment_Inr timeless_simps add_payment_Inr)
  then show ?thesis by (rule advancesI [OF payment_created])
qed

lemma advance_complete:
  assumes p: "change_pickup i (\<lambda>p. pk_Status p = PickupScheduled) (completed_at now) s = Inr (Some q, s1)"
    and i: "pk_ID q = i" and y: "payable pricing q y" and t: "add_payment y s1 = Inr (u, t)"
  shows "advances pricing s t"
proof -
  from p obtain p0 where p0: "st_pickups s i = Some p0" "pk_Status p0 = PickupScheduled"
    and q: "q = completed_at now p0" and s1: "s1 = s\<lparr>st_pickups := (st_pickups s)(i \<mapsto> q)\<rparr>"
    by (auto simp: change_pickup_Inr)
  have "add_payment y s = Inr (u, s\<lparr>st_payments := (st_payments s)(pm_ID y \<mapsto> y\<lparr>pm_Amount := cents (pm_Amount y)\<rparr>)\<rparr>)"
    using t p0 s1 by (auto simp: add_payment_Inr)
  with y have "charge pricing (pm_ID y) (untimed_pickup q) (timeless s) =
      Inr (due pricing (pm_ID y) 0 (untimed_pickup q),
        (timeless s)\<lparr>st_payments := (st_payments (timeless s))
          (pm_ID y \<mapsto> untimed_payment (y\<lparr>pm_Amount := cents (pm_Amount y)\<rparr>))\<rparr>)"
    by (rule charge_timeless) simp_all
  moreover have "untimed_pickup q =
      (untimed_pickup p0)\<lparr>pk_Status := PickupCompleted, pk_UpdatedAt := st_now (timeless s)\<rparr>"
    by (simp add: q completed_at_def untimed_pickup_def)
  moreover have "timeless t = (timeless s)\<lparr>st_pickups := (st_pickups (timeless s))(i \<mapsto> untimed_pickup q),
      st_payments := (st_payments (timeless s))
          (pm_ID y \<mapsto> untimed_payment (y\<lparr>pm_Amount := cents (pm_Amount y)\<rparr>))\<rparr>"
    using t unfolding s1 by (simp add: add_payment_Inr timeless_def fun_eq_iff)
  ultimately have "spec_CompletePickup pricing i (pm_ID y) (timeless s) = Inr (untimed_pickup q, timeless t)"
    using p0 by (auto simp: spec_CompletePickup_Inr)
  then show ?thesis by (rule advancesI [OF pickup_completed])
qed

end
