(* ===== verification/Effects.thy ===== *)
theory Effects
  imports Interleaving Timeless
begin

text \<open>
  What one call does to the tables, for every call a session can make: on the pool it changes the
  committed tables, in a transaction its working copy, and both in the ways of the specification.
\<close>

section \<open>Statements\<close>

definition changes :: "query \<Rightarrow> db \<Rightarrow> db \<Rightarrow> bool" where
  "changes q d d' \<longleftrightarrow>
    (case q of
       QInsertHousehold h \<Rightarrow> \<exists>a. sql_insert_household (household_row h) d = Inr (a, d')
     | QDeleteHousehold i \<Rightarrow> \<exists>a. sql_delete_household i d = Inr (a, d')
     | QInsertPickup p \<Rightarrow> \<exists>a. sql_insert_pickup (pickup_row p) d = Inr (a, d')
     | QSchedule i date now \<Rightarrow> \<exists>a. sql_update_pickup i schedule_guard (schedule_set date now) d = Inr (a, d')
     | QComplete i now \<Rightarrow> \<exists>a. sql_update_pickup i complete_guard (complete_set now) d = Inr (a, d')
     | QCancel i now \<Rightarrow> \<exists>a. sql_update_pickup i cancel_guard (cancel_set now) d = Inr (a, d')
     | QCancelStale cutoff now \<Rightarrow> \<exists>a. sql_cancel_stale cutoff now d = Inr (a, d')
     | QInsertPayment y \<Rightarrow> \<exists>a. sql_insert_payment (pm_Amount y) (payment_row y) d = Inr (a, d')
     | QConfirm i url now \<Rightarrow> \<exists>a. sql_confirm_payment i url now d = Inr (a, d')
     | _ \<Rightarrow> d' = d)"

definition on_tables :: "query \<Rightarrow> bool" where
  "on_tables q \<longleftrightarrow> q \<notin> {QBegin, QCommit, QRollback}"

lemma call_pool:
  assumes "call st onerr onok None w = (r, w')"
  shows "wd_tx w' = wd_tx w \<and> (wd_db w' = wd_db w \<or> (\<exists>a. st (wd_db w) = Inr (a, wd_db w'))) \<and>
    (\<forall>b. r = Inr b \<longrightarrow> (\<exists>a. st (wd_db w) = Inr (a, wd_db w') \<and> onok a = Inr b))"
  using assms
  by (cases w rule: next_outcome_cases)
    (auto simp: call_def Executor_def txFromContext_def on_pool_def split: outcome.splits sum.splits)

lemma call_tx:
  assumes "call st onerr onok (Some t) w = (r, w')"
  shows "wd_db w' = wd_db w \<and>
    (wd_tx w = None \<and> wd_tx w' = None \<and> (\<exists>e. r = Inl e) \<or> wd_tx w' = Some Aborted \<and> (\<exists>e. r = Inl e) \<or>
     (\<exists>d a d'. wd_tx w = Some (Active d) \<and> st d = Inr (a, d') \<and> wd_tx w' = Some (Active d') \<and> r = onok a))"
  using assms
  by (cases w rule: next_outcome_cases)
    (auto simp: call_def Executor_def txFromContext_def on_tx_def
      split: outcome.splits sum.splits option.splits tx_state.splits)

lemma wrap_split: "wrap R x = (a, w) \<longleftrightarrow> (\<exists>r. x = (r, w) \<and> a = map_sum id R r)"
  by (auto simp: wrap_def split: prod.splits sum.splits)

lemma MinIO_Put_tables:
  assumes "MinIO_Put m c key content sz ct w = (r, w')"
  shows "wd_db w' = wd_db w \<and> wd_tx w' = wd_tx w"
  using assms
  by (cases w rule: next_outcome_cases)
    (auto simp: MinIO_Put_def PutObject_def Let_def split: outcome.splits)

lemmas all_calls = household_calls pickup_calls payment_calls report_calls
  PickupRepository_Schedule_def PickupRepository_Complete_def PickupRepository_Cancel_def

lemmas reads = list_households.reads_only count_households.reads_only list_pickups.reads_only
  count_pickups.reads_only list_payments.reads_only count_payments.reads_only
  waste_summary.reads_only payment_summary.reads_only household_pickups.reads_only
  household_payments.reads_only

lemma finds:
  "sql_find_household i d = Inr (a, d') \<Longrightarrow> d' = d" "sql_find_pickup i d = Inr (b, d') \<Longrightarrow> d' = d"
  "sql_find_payment i d = Inr (c, d') \<Longrightarrow> d' = d" "sql_has_pending i d = Inr (x, d') \<Longrightarrow> d' = d"
  by (simp_all add: sql_find_household_def sql_find_pickup_def sql_find_payment_def sql_has_pending_def)

lemma perform_pool:
  assumes "perform m q None w = (a, w')" and "on_tables q"
  shows "wd_tx w' = wd_tx w \<and> (wd_db w' = wd_db w \<or> changes q (wd_db w) (wd_db w'))"
  using assms
  by (cases q) (auto simp: wrap_split all_calls changes_def on_tables_def
      dest!: call_pool MinIO_Put_tables dest: reads finds)

lemma perform_tx:
  assumes "perform m q (Some t) w = (a, w')" and "on_tables q"
  shows "wd_db w' = wd_db w \<and> (wd_tx w' = wd_tx w \<or> wd_tx w' = Some Aborted \<or>
    (\<exists>d d'. wd_tx w = Some (Active d) \<and> changes q d d' \<and> wd_tx w' = Some (Active d')))"
  using assms
  by (cases q) (auto simp: wrap_split all_calls changes_def on_tables_def
      dest!: call_tx MinIO_Put_tables dest: reads finds)

section \<open>What they mean\<close>

definition facts :: "db \<Rightarrow> store" where
  "facts d = store_of 0 d"

lemma facts_sel [simp]:
  "st_households (facts d) = household_map d" "st_pickups (facts d) = pickup_map d"
  "st_payments (facts d) = payment_map d"
  by (simp_all add: facts_def)

lemma statement_advances:
  assumes rc: "repository_call store_of st onerr onok spec" and "schema_ok d" and "st d = Inr (a, d')"
    and "\<And>b. spec (facts d) = Inr (b, facts d') \<Longrightarrow> advances pricing (facts d) (facts d')"
  shows "schema_ok d' \<and> advances pricing (facts d) (facts d')"
  using repository_call.carried_out [OF assms(1-3), of 0]
    repository_call.pool_effect [OF assms(1-3), of 0] assms(4)
  by (auto simp: facts_def)

lemma statement_reply:
  assumes rc: "repository_call store_of st onerr onok spec" and "schema_ok d" and "st d = Inr (a, d')"
    and "onok a = Inr b"
  shows "schema_ok d' \<and> spec (facts d) = Inr (b, facts d')"
  using repository_call.carried_out [OF assms(1-3), of 0] assms(4) by (simp add: facts_def)

lemmas update_calls = schedule.update.repository_call_axioms complete.update.repository_call_axioms
  cancel.update.repository_call_axioms

lemma changes_advance:
  assumes ok: "schema_ok d" and q: "changes q d d'"
    and "\<And>p. q \<noteq> QInsertPickup p" "\<And>i now. q \<noteq> QComplete i now" "\<And>y. q \<noteq> QInsertPayment y"
  shows "schema_ok d' \<and> advances pricing (facts d) (facts d')"
proof (cases q)
  case (QInsertHousehold h)
  with q show ?thesis
    by (auto simp: changes_def
        dest!: statement_advances [OF insert_household.repository_call_axioms ok] intro: advance_add_household)
next
  case (QDeleteHousehold i)
  with q show ?thesis
    by (auto simp: changes_def
        dest!: statement_advances [OF delete_household.repository_call_axioms ok] intro: advance_remove_household)
next
  case (QSchedule i date now)
  with q show ?thesis
    by (auto simp: changes_def
        dest!: statement_advances [OF schedule.update.repository_call_axioms ok] intro: advance_schedule)
next
  case (QCancel i now)
  with q obtain a where run: "sql_update_pickup i cancel_guard (cancel_set now) d = Inr (a, d')"
    by (auto simp: changes_def)
  show ?thesis
    by (rule statement_advances [OF cancel.update.repository_call_axioms ok run]) (rule advance_cancel)
next
  case (QCancelStale cutoff now)
  with q obtain a where run: "sql_cancel_stale cutoff now d = Inr (a, d')"
    by (auto simp: changes_def)
  show ?thesis
    by (rule statement_advances [OF cancel_stale.repository_call_axioms ok run])
      (rule advance_sweep, simp_all add: pickup_map_ID)
next
  case (QConfirm i url now)
  with q show ?thesis
    by (auto simp: changes_def
        dest!: statement_advances [OF confirm.repository_call_axioms ok] intro: advance_confirm)
qed (use assms in \<open>simp_all add: changes_def\<close>)

end
