(* ===== verification/Concurrency.thy ===== *)
theory Concurrency
  imports Effects
begin

text \<open>
  What holds of requests that overlap. A session is described by what it knows
  about the tables (\<open>sound\<close>); the steps of the others may change the tables in the ways
  the specification allows (\<open>advances\<close>), and what a session knows survives them. So every
  turn of every interleaving is a step of the specification of \<open>Timeless\<close>.
\<close>

section \<open>Rely and guarantee\<close>

text \<open>
  Processes over shared state: a turn of one changes the shared state and its own. If it keeps the
  promise \<open>keeps\<close> whenever its own knowledge \<open>holds\<close>, and the knowledge of every process
  survives what \<open>keeps\<close> allows, then all of them can be run together.
\<close>

locale rely_guarantee =
  fixes turns :: "'s \<Rightarrow> 'p \<Rightarrow> 's \<Rightarrow> 'p \<Rightarrow> bool"
    and good :: "'s \<Rightarrow> bool"
    and keeps :: "'s \<Rightarrow> 's \<Rightarrow> bool"
    and holds :: "'s \<Rightarrow> 'p \<Rightarrow> bool"
  assumes guarantee: "turns s p s' p' \<Longrightarrow> good s \<Longrightarrow> holds s p \<Longrightarrow> keeps s s' \<and> good s' \<and> holds s' p'"
    and stable: "keeps s s' \<Longrightarrow> good s \<Longrightarrow> holds s p \<Longrightarrow> holds s' p"
begin

definition all_hold :: "'s \<Rightarrow> 'p list \<Rightarrow> bool" where
  "all_hold s ps \<longleftrightarrow> good s \<and> list_all (holds s) ps"

lemma turn_of_one:
  assumes "all_hold s ps" and "k < length ps" and "turns s (ps ! k) s' p'"
  shows "all_hold s' (ps[k := p']) \<and> keeps s s'"
proof -
  have good: "good s" and all: "\<And>p. p \<in> set ps \<Longrightarrow> holds s p"
    using assms(1) by (auto simp: all_hold_def list_all_iff)
  from guarantee [OF assms(3) good all] assms(2)
  have keeps: "keeps s s'" and "good s'" "holds s' p'" by auto
  moreover have "holds s' p" if "p \<in> set (ps[k := p'])" for p
    using set_update_subset_insert [of ps k p'] that stable [OF keeps good all] \<open>holds s' p'\<close> by auto
  ultimately show ?thesis by (simp add: all_hold_def list_all_iff)
qed

lemma all_hold_Cons: "all_hold s (p # ps) \<longleftrightarrow> holds s p \<and> all_hold s ps"
  by (auto simp: all_hold_def)

lemma all_hold_append: "all_hold s (ps @ [p]) \<longleftrightarrow> holds s p \<and> all_hold s ps"
  by (auto simp: all_hold_def)

end

section \<open>What survives the steps of the others\<close>

lemma advances_pickup:
  assumes "advances pricing s t" and "st_pickups s i = Some p"
  shows "\<exists>q. st_pickups t i = Some q \<and> pickup_move (untimed_pickup p) (untimed_pickup q)"
proof -
  have p: "st_pickups (timeless s) i = Some (untimed_pickup p)" using assms(2) by simp
  have "\<exists>r. st_pickups (timeless t) i = Some r \<and> pickup_move (untimed_pickup p) r"
    using assms(1) p loose_pickup [OF _ p] unfolding advances_def by (metis pickup_move_refl)
  then show ?thesis by auto
qed

lemma advances_payment:
  assumes "advances pricing s t" and "st_payments s i = Some y"
  shows "\<exists>z. st_payments t i = Some z \<and> payment_move (untimed_payment y) (untimed_payment z)"
proof -
  have y: "st_payments (timeless s) i = Some (untimed_payment y)" using assms(2) by simp
  have "\<exists>r. st_payments (timeless t) i = Some r \<and> payment_move (untimed_payment y) r"
    using assms(1) y loose_payment [OF _ y] unfolding advances_def by (metis payment_move_refl)
  then show ?thesis by auto
qed

lemma untimed_pickup_move:
  "pickup_move (untimed_pickup p) (untimed_pickup q) \<Longrightarrow>
     pk_ID q = pk_ID p \<and> pk_HouseholdID q = pk_HouseholdID p \<and> pk_Type q = pk_Type p \<and>
     pk_SafetyCheck q = pk_SafetyCheck p \<and>
     (pk_Status q = pk_Status p \<and> pk_PickupDate q = pk_PickupDate p \<or>
      (pk_Status p, pk_Status q) \<in> status_moves)"
  by (auto simp: pickup_move_def same_pickup_def dest!: arg_cong [where f = "\<lambda>p. (pk_ID p, pk_HouseholdID p,
      pk_Type p, pk_SafetyCheck p, pk_Status p, pk_PickupDate p)"])

lemma untimed_payment_move:
  "payment_move (untimed_payment y) (untimed_payment z) \<Longrightarrow>
     pm_ID z = pm_ID y \<and> pm_HouseholdID z = pm_HouseholdID y \<and> pm_WasteID z = pm_WasteID y \<and>
     pm_Amount z = pm_Amount y \<and>
     (pm_Status z = pm_Status y \<and> pm_ProofFileURL z = pm_ProofFileURL y \<or>
      pm_Status y = PaymentPending \<and> pm_Status z = PaymentPaid)"
  by (auto simp: payment_move_def same_payment_def dest!: arg_cong [where f = "\<lambda>y. (pm_ID y, pm_HouseholdID y,
      pm_WasteID y, pm_Amount y, pm_Status y, pm_ProofFileURL y)"])

section \<open>What a session knows\<close>

text \<open>The statements of the open transaction that changed the tables, from the replies.\<close>

definition expected :: "Config \<Rightarrow> request \<Rightarrow> (instant \<times> response) list \<Rightarrow> (query \<times> response) list" where
  "expected cfg rq past =
    (case rq of
       ReqCreatePickup cp i \<Rightarrow>
         (case past of
            [(n1, a1), (n2, a2), (n3, Inr RUnit)] \<Rightarrow> [(QInsertPickup (new_pickup cp i n1), Inr RUnit)]
          | _ \<Rightarrow> [])
     | ReqCompletePickup i j \<Rightarrow>
         (case past of
            [(n1, a1), (n2, Inr (RPickupOpt (Some p)))] \<Rightarrow> [(QComplete i n1, Inr (RPickupOpt (Some p)))]
          | [(n1, a1), (n2, Inr (RPickupOpt (Some p))), (n3, Inr RUnit)] \<Rightarrow>
              [(QComplete i n1, Inr (RPickupOpt (Some p))),
               (QInsertPayment (due (app_pricing cfg) j n1 p), Inr RUnit)]
          | _ \<Rightarrow> [])
     | _ \<Rightarrow> [])"

definition rolls_back :: "(uuid \<Rightarrow> string) \<Rightarrow> Config \<Rightarrow> request \<Rightarrow> (instant \<times> response) list \<Rightarrow> bool" where
  "rolls_back fmt cfg rq past \<longleftrightarrow> (\<forall>n c q. upcoming fmt cfg rq past n = Some (c, q) \<longrightarrow> q = QRollback)"

definition works :: "(uuid \<Rightarrow> string) \<Rightarrow> Config \<Rightarrow> session \<Rightarrow> bool" where
  "works fmt cfg ss \<longleftrightarrow>
     (transactional (ss_request ss) \<or> ss_work ss = None) \<and>
     (ss_past ss = [] \<longrightarrow> ss_work ss = None) \<and>
     (\<forall>lg. ss_work ss = Some (Live lg) \<longrightarrow>
        lg = expected cfg (ss_request ss) (ss_past ss) \<or>
        rolls_back fmt cfg (ss_request ss) (ss_past ss))"

text \<open>What the replies tell for good.\<close>

definition told :: "(uuid \<Rightarrow> string) \<Rightarrow> Config \<Rightarrow> store \<Rightarrow> request \<Rightarrow> (instant \<times> response) list \<Rightarrow> bool" where
  "told fmt cfg t rq past \<longleftrightarrow>
    (case rq of
       ReqCreatePayment cy j \<Rightarrow>
         (case past of
            (n1, Inr (RPickup p)) # xs \<Rightarrow>
              (\<exists>q. st_pickups t (cy_WasteID cy) = Some q \<and> pk_HouseholdID q = pk_HouseholdID p \<and>
                 pk_Type q = pk_Type p)
          | _ \<Rightarrow> True)
     | ReqConfirmPayment i ci j \<Rightarrow>
         (case past of
            (n1, a1) # (n2, Inr (RText url)) # xs \<Rightarrow>
              url = object_url (bucket_of cfg) (proof_key fmt i j (ci_ContentType ci))
          | _ \<Rightarrow> True)
     | _ \<Rightarrow> True)"

text \<open>What the client of a successful request may rely on from then on.\<close>

definition promised :: "(uuid \<Rightarrow> string) \<Rightarrow> Config \<Rightarrow> request \<Rightarrow> store \<Rightarrow> bool" where
  "promised fmt cfg rq t \<longleftrightarrow>
    (case rq of
       ReqCreatePickup cp i \<Rightarrow>
         (\<exists>p. st_pickups t i = Some p \<and> pk_HouseholdID p = cp_HouseholdID cp \<and> pk_Type p = cp_Type cp)
     | ReqSchedulePickup i sp \<Rightarrow> (\<exists>p. st_pickups t i = Some p \<and> pk_Status p \<noteq> PickupPending)
     | ReqCompletePickup i j \<Rightarrow>
         (\<exists>p y. st_pickups t i = Some p \<and> pk_Status p = PickupCompleted \<and>
            st_payments t j = Some y \<and> pm_WasteID y = i)
     | ReqCancelPickup i \<Rightarrow> (\<exists>p. st_pickups t i = Some p \<and> pk_Status p = PickupCanceled)
     | ReqCreatePayment cy j \<Rightarrow>
         (\<exists>y. st_payments t j = Some y \<and> pm_WasteID y = cy_WasteID cy \<and>
            pm_HouseholdID y = cy_HouseholdID cy)
     | ReqConfirmPayment i ci j \<Rightarrow>
         (\<exists>y. st_payments t i = Some y \<and> pm_Status y = PaymentPaid \<and>
            pm_ProofFileURL y = Some (object_url (bucket_of cfg) (proof_key fmt i j (ci_ContentType ci))))
     | _ \<Rightarrow> True)"

definition sound :: "(uuid \<Rightarrow> string) \<Rightarrow> Config \<Rightarrow> shared \<Rightarrow> session \<Rightarrow> bool" where
  "sound fmt cfg s ss \<longleftrightarrow> works fmt cfg ss \<and>
     told fmt cfg (facts (sh_db s)) (ss_request ss) (ss_past ss) \<and>
     (outcome_of fmt cfg (ss_request ss) (ss_past ss) = Inr () \<longrightarrow>
        promised fmt cfg (ss_request ss) (facts (sh_db s)))"

definition kept :: "Config \<Rightarrow> shared \<Rightarrow> shared \<Rightarrow> bool" where
  "kept cfg s s' \<longleftrightarrow> advances (app_pricing cfg) (facts (sh_db s)) (facts (sh_db s'))"

definition fine :: "Config \<Rightarrow> shared \<Rightarrow> bool" where
  "fine cfg s \<longleftrightarrow> schema_ok (sh_db s) \<and> good_store (app_pricing cfg) (timeless (facts (sh_db s)))"

lemma told_stable:
  assumes adv: "advances (app_pricing cfg) s t" and "told fmt cfg s rq past"
  shows "told fmt cfg t rq past"
proof (cases rq)
  case (ReqCreatePayment cy j)
  with assms(2) show ?thesis
    by (auto simp: told_def split: list.splits sum.splits reply.splits
        dest!: advances_pickup [OF adv] untimed_pickup_move)
qed (use assms(2) in \<open>simp_all add: told_def\<close>)

lemma promised_stable:
  assumes adv: "advances (app_pricing cfg) s t" and "promised fmt cfg rq s"
  shows "promised fmt cfg rq t"
proof -
  note moves = advances_pickup [OF adv] advances_payment [OF adv]
  show ?thesis
  proof (cases rq)
    case (ReqCompletePickup i j)
    with assms(2) obtain p y where "st_pickups s i = Some p" "pk_Status p = PickupCompleted"
      and "st_payments s j = Some y" "pm_WasteID y = i" by (auto simp: promised_def)
    with moves(1) [of i p] moves(2) [of j y] ReqCompletePickup show ?thesis
      by (auto simp: promised_def status_moves_def dest!: untimed_pickup_move untimed_payment_move)
  next
    case (ReqConfirmPayment i ci j)
    with assms(2) show ?thesis
      by (auto simp: promised_def dest!: moves(2) untimed_payment_move)
  next
    case (ReqCreatePayment cy j)
    with assms(2) show ?thesis
      by (fastforce simp: promised_def dest!: moves(2) untimed_payment_move)
  next
    case (ReqSchedulePickup i sp)
    with assms(2) show ?thesis
      by (fastforce simp: promised_def status_moves_def dest!: moves(1) untimed_pickup_move)
  next
    case (ReqCancelPickup i)
    with assms(2) show ?thesis
      by (fastforce simp: promised_def status_moves_def dest!: moves(1) untimed_pickup_move)
  next
    case (ReqCreatePickup cp i)
    with assms(2) show ?thesis
      by (fastforce simp: promised_def dest!: moves(1) untimed_pickup_move)
  qed (use assms(2) in \<open>simp_all add: promised_def\<close>)
qed


section \<open>One turn\<close>

lemma turnE:
  assumes "turn fmt cfg n x s ss = Some (s', ss')"
  obtains c q a w where "upcoming fmt cfg (ss_request ss) (ss_past ss) n = Some (c, q)"
    "perform (bucket_of cfg) q c (at_site s (working (bucket_of cfg) (sh_db s) (ss_work ss)) x) = (a, w)"
    "s' = s\<lparr>sh_db := wd_db w, sh_blobs := wd_blobs w\<rparr>"
    "ss_request ss' = ss_request ss" "ss_past ss' = ss_past ss @ [(n, a)]"
    "ss_work ss' = work_after (ss_work ss) (working (bucket_of cfg) (sh_db s) (ss_work ss)) q a (wd_tx w)"
  using assms by (auto simp: turn_def Let_def split: if_splits option.splits prod.splits)

lemma at_site_sel [simp]:
  "wd_db (at_site s t x) = sh_db s" "wd_tx (at_site s t x) = t"
  by (simp_all add: at_site_def)

lemma amid_sel [simp]: "wd_db (amid d) = d" "wd_tx (amid d) = Some (Active d)"
  by (simp_all add: amid_def)

lemma work_after_simps [simp]:
  "work_after wk before q a None = None"
  "work_after wk before q a (Some Aborted) = Some Dead"
  by (simp_all add: work_after_def)

lemma working_simps [simp]:
  "working m d None = None" "working m d (Some Dead) = Some Aborted"
  by (simp_all add: working_def)

lemma working_Active:
  "working m d wk = Some (Active d') \<Longrightarrow> \<exists>lg. wk = Some (Live lg) \<and> rerun m lg d = Some d'"
  by (auto simp: working_def split: option.splits work.splits)

text \<open>What a reply inside the transaction tells of the working copy.\<close>

lemma reply_tx:
  assumes rc: "repository_call store_of st onerr onok spec"
    and run: "call st onerr onok (Some t) w = (Inr b, w')" and "wd_tx w = Some (Active d)" and "schema_ok d"
  shows "\<exists>d'. wd_tx w' = Some (Active d') \<and> schema_ok d' \<and> spec (facts d) = Inr (b, facts d')"
  using call_tx [OF run] assms(3) statement_reply [OF rc assms(4)] by (fastforce dest: sym)

lemma reply_pool:
  assumes rc: "repository_call store_of st onerr onok spec"
    and run: "call st onerr onok None w = (Inr b, w')" and "schema_ok (wd_db w)"
  shows "schema_ok (wd_db w') \<and> spec (facts (wd_db w)) = Inr (b, facts (wd_db w'))"
  using call_pool [OF run] statement_reply [OF rc assms(3)] by auto

lemma wrap_Inr: "wrap R x = (Inr v, w) \<longleftrightarrow> (\<exists>r. x = (Inr r, w) \<and> v = R r)"
  by (auto simp: wrap_def split: prod.splits sum.splits)

lemma reply_insert_pickup:
  assumes "perform m (QInsertPickup p) (Some t) w = (Inr v, w')" and "wd_tx w = Some (Active d)" and "schema_ok d"
  shows "v = RUnit \<and> (\<exists>d'. wd_tx w' = Some (Active d') \<and> schema_ok d' \<and> add_pickup p (facts d) = Inr ((), facts d'))"
proof -
  from assms(1) obtain r where "call (sql_insert_pickup (pickup_row p)) (on_code foreign_key_violation ErrHouseholdNotFound) Inr (Some t) w = (Inr r, w')" and "v = RUnit"
    by (auto simp: wrap_Inr all_calls unit_reply_def)
  with reply_tx [OF insert_pickup.repository_call_axioms this(1) assms(2,3)] show ?thesis by simp
qed

lemma reply_insert_payment:
  assumes "perform m (QInsertPayment y) (Some t) w = (Inr v, w')" and "wd_tx w = Some (Active d)" and "schema_ok d"
  shows "v = RUnit \<and> (\<exists>d'. wd_tx w' = Some (Active d') \<and> schema_ok d' \<and> add_payment y (facts d) = Inr ((), facts d'))"
proof -
  from assms(1) obtain r where "call (sql_insert_payment (pm_Amount y) (payment_row y)) (on_code unique_violation ErrPaymentAlreadyExists) Inr (Some t) w = (Inr r, w')" and "v = RUnit"
    by (auto simp: wrap_Inr all_calls unit_reply_def)
  with reply_tx [OF insert_payment.repository_call_axioms this(1) assms(2,3)] show ?thesis by simp
qed

lemma reply_complete:
  assumes "perform m (QComplete i now) (Some t) w = (Inr v, w')" and "wd_tx w = Some (Active d)" and "schema_ok d"
  shows "\<exists>r d'. v = RPickupOpt r \<and> wd_tx w' = Some (Active d') \<and> schema_ok d' \<and>
    change_pickup i (\<lambda>p. pk_Status p = PickupScheduled) (completed_at now) (facts d) = Inr (r, facts d')"
proof -
  from assms(1) obtain r where "call (sql_update_pickup i complete_guard (complete_set now)) map_error (opt_row pickupRow_toDomain) (Some t) w = (Inr r, w')" and "v = RPickupOpt r"
    by (auto simp: wrap_Inr all_calls unit_reply_def)
  with reply_tx [OF complete.update.repository_call_axioms this(1) assms(2,3)] show ?thesis by simp
qed

lemma reply_has_pending:
  assumes "perform m (QHasPending h) (Some t) w = (Inr v, w')" and "wd_tx w = Some (Active d)" and "schema_ok d"
  shows "\<exists>r d'. v = RBool r \<and> has_pending h (facts d) = Inr (r, facts d')"
proof -
  from assms(1) obtain r where "call (sql_has_pending h) map_error Inr (Some t) w = (Inr r, w')" and "v = RBool r"
    by (auto simp: wrap_Inr all_calls unit_reply_def)
  with reply_tx [OF has_pending.repository_call_axioms this(1) assms(2,3)] show ?thesis by auto
qed

lemma rerun_insert:
  assumes "rerun m [(QInsertPickup p, Inr RUnit)] d = Some d'" and "schema_ok d"
  shows "schema_ok d' \<and> add_pickup p (facts d) = Inr ((), facts d')"
  using assms reply_insert_pickup [of m p OpenTx "amid d" RUnit _ d]
  by (auto split: prod.splits if_splits option.splits tx_state.splits)

lemma rerun_complete:
  assumes run: "rerun m [(QComplete i now, Inr (RPickupOpt (Some p))), (QInsertPayment y, Inr RUnit)] d = Some d'"
    and ok: "schema_ok d"
  shows "schema_ok d' \<and> (\<exists>s1. change_pickup i (\<lambda>p. pk_Status p = PickupScheduled) (completed_at now) (facts d) =
      Inr (Some p, s1) \<and> add_payment y s1 = Inr ((), facts d'))"
proof -
  obtain w1 d1 where 1: "perform m (QComplete i now) (Some OpenTx) (amid d) = (Inr (RPickupOpt (Some p)), w1)"
      "wd_tx w1 = Some (Active d1)"
    and rest: "rerun m [(QInsertPayment y, Inr RUnit)] d1 = Some d'"
    using run by (auto simp del: perform.simps split: prod.splits if_splits option.splits tx_state.splits)
  from rest obtain w2 where 2: "perform m (QInsertPayment y) (Some OpenTx) (amid d1) = (Inr RUnit, w2)"
      "wd_tx w2 = Some (Active d')"
    by (auto simp del: perform.simps split: prod.splits if_splits option.splits tx_state.splits)
  from reply_complete [OF 1(1) _ ok] 1(2) have "schema_ok d1"
    and c: "change_pickup i (\<lambda>p. pk_Status p = PickupScheduled) (completed_at now) (facts d) = Inr (Some p, facts d1)"
    by auto
  with reply_insert_payment [OF 2(1), of d1] 2(2) show ?thesis by auto
qed

text \<open>A transaction that is committed has done what its request is for, in one step.\<close>

lemma commit_effect:
  assumes work: "works fmt cfg ss" and ok: "schema_ok d"
    and q: "upcoming fmt cfg (ss_request ss) (ss_past ss) n = Some (c, QCommit)"
    and view: "working m d (ss_work ss) = Some (Active d')"
  shows "schema_ok d' \<and> advances (app_pricing cfg) (facts d) (facts d') \<and>
    promised fmt cfg (ss_request ss) (facts d')"
proof -
  from working_Active [OF view] obtain lg where lg: "ss_work ss = Some (Live lg)" and run: "rerun m lg d = Some d'"
    by blast
  with work q have e: "lg = expected cfg (ss_request ss) (ss_past ss)"
    by (auto simp: works_def rolls_back_def)
  from upcoming_legal [OF q] consider
      (insert) cp i n1 n2 n3 where "ss_request ss = ReqCreatePickup cp i"
        "ss_past ss = [(n1, Inr RUnit), (n2, Inr (RBool False)), (n3, Inr RUnit)]"
    | (complete) i j n1 n2 n3 p where "ss_request ss = ReqCompletePickup i j"
        "ss_past ss = [(n1, Inr RUnit), (n2, Inr (RPickupOpt (Some p))), (n3, Inr RUnit)]"
    by (auto simp: legal_def)
  then show ?thesis
  proof cases
    case insert
    with run e have "rerun m [(QInsertPickup (new_pickup cp i n1), Inr RUnit)] d = Some d'"
      by (simp add: expected_def)
    from rerun_insert [OF this ok] have d': "schema_ok d'"
        "add_pickup (new_pickup cp i n1) (facts d) = Inr ((), facts d')" by auto
    moreover from d'(2) have "advances (app_pricing cfg) (facts d) (facts d')"
      by (rule advance_add_pickup) (simp_all add: new_pickup_def)
    moreover have "promised fmt cfg (ss_request ss) (facts d')"
      using d'(2) insert(1) by (auto simp: promised_def add_pickup_Inr new_pickup_def simp del: facts_sel)
    ultimately show ?thesis by blast
  next
    case complete
    with run e have "rerun m [(QComplete i n1, Inr (RPickupOpt (Some p))),
        (QInsertPayment (due (app_pricing cfg) j n1 p), Inr RUnit)] d = Some d'"
      by (simp add: expected_def)
    from rerun_complete [OF this ok] obtain s1 where d': "schema_ok d'"
      and c: "change_pickup i (\<lambda>p. pk_Status p = PickupScheduled) (completed_at n1) (facts d) = Inr (Some p, s1)"
      and y: "add_payment (due (app_pricing cfg) j n1 p) s1 = Inr ((), facts d')" by blast
    have i: "pk_ID p = i"
      using c by (auto simp: change_pickup_Inr completed_at_def dest: pickup_map_ID)
    have "advances (app_pricing cfg) (facts d) (facts d')"
      by (rule advance_complete [OF c i _ y]) (simp add: payable_def due_def)
    moreover have "promised fmt cfg (ss_request ss) (facts d')"
      using c y i complete(1)
      by (auto simp: promised_def add_payment_Inr change_pickup_Inr completed_at_def due_def simp del: facts_sel)
    ultimately show ?thesis using d' by blast
  qed
qed

lemma perform_begin:
  "perform m QBegin c w = (a, w') \<Longrightarrow>
     wd_db w' = wd_db w \<and> (wd_tx w' = wd_tx w \<or> wd_tx w' = Some (Active (wd_db w)))"
  by (cases w rule: next_outcome_cases)
    (auto simp: pool_Begin_def wrap_def split: outcome.splits)

lemma perform_commit:
  "perform m QCommit c w = (a, w') \<Longrightarrow>
     wd_tx w' = None \<and> (wd_db w' = wd_db w \<or> (\<exists>d. wd_tx w = Some (Active d) \<and> wd_db w' = d)) \<and>
     (\<forall>v. a = Inr v \<longrightarrow> (\<exists>d. wd_tx w = Some (Active d) \<and> wd_db w' = d))"
  by (cases w rule: next_outcome_cases)
    (auto simp: tx_Commit_def commit_response_def split: outcome.splits option.splits tx_state.splits)

lemma perform_rollback:
  "perform m QRollback c w = (a, w') \<Longrightarrow> wd_db w' = wd_db w \<and> wd_tx w' = None"
  by (cases w rule: next_outcome_cases) (auto simp: tx_Rollback_def)

lemma payment_advance:
  assumes told: "told fmt cfg (facts d) (ReqCreatePayment cy j) ((n1, Inr (RPickup p)) # xs)"
    and h: "pk_HouseholdID p = cy_HouseholdID cy" and ok: "schema_ok d"
    and run: "sql_insert_payment (pm_Amount y) (payment_row y) d = Inr (u, d')"
    and y: "y = payment_for (app_pricing cfg) cy j n p"
  shows "schema_ok d' \<and> advances (app_pricing cfg) (facts d) (facts d')"
proof -
  from told obtain q where q: "pickup_map d (cy_WasteID cy) = Some q" "pk_HouseholdID q = pk_HouseholdID p"
      "pk_Type q = pk_Type p"
    by (auto simp: told_def)
  have pay: "payable (app_pricing cfg) q y"
    using q h pickup_map_ID [OF q(1)] by (simp add: payable_def y payment_for_def)
  show ?thesis
    by (rule statement_advances [OF insert_payment.repository_call_axioms ok run])
      (rule advance_add_payment [OF pay, of _ _ _ q], use q pickup_map_ID [OF q(1)] in simp_all)
qed

lemma turn_advances:
  assumes turn: "turn fmt cfg n x s ss = Some (s', ss')" and "fine cfg s" and "sound fmt cfg s ss"
  shows "schema_ok (sh_db s') \<and> kept cfg s s'"
  using turn
proof (cases rule: turnE)
  case t: (1 c q a w)
  have ok: "schema_ok (sh_db s)" using assms(2) by (simp add: fine_def)
  note legal = upcoming_legal [OF t(1)]
  have "wd_db w = sh_db s \<or>
      schema_ok (wd_db w) \<and> advances (app_pricing cfg) (facts (sh_db s)) (facts (wd_db w))"
  proof (cases "on_tables q")
    case True
    show ?thesis
    proof (cases c)
      case None
      with perform_pool [OF _ True] t(2)
      have eff: "wd_db w = sh_db s \<or> changes q (sh_db s) (wd_db w)" by fastforce
      show ?thesis
      proof (cases "\<exists>y. q = QInsertPayment y")
        case True
        then obtain y where q: "q = QInsertPayment y" by blast
        from legal None obtain cy j n1 p where "ss_request ss = ReqCreatePayment cy j"
            "ss_past ss = [(n1, Inr (RPickup p))]" "pk_HouseholdID p = cy_HouseholdID cy"
            "y = payment_for (app_pricing cfg) cy j n p"
          by (auto simp: legal_def q)
        with eff assms(3) payment_advance [OF _ _ ok] show ?thesis
          by (auto simp: q changes_def sound_def)
      next
        case False
        have "\<And>p. q \<noteq> QInsertPickup p" "\<And>i now. q \<noteq> QComplete i now"
          using legal None by (auto simp: legal_def)
        with eff changes_advance [OF ok] False show ?thesis by blast
      qed
    next
      case (Some t)
      with perform_tx [OF _ True] t(2) show ?thesis by fastforce
    qed
  next
    case False
    then consider "q = QBegin" | "q = QCommit" | "q = QRollback" by (auto simp: on_tables_def)
    then show ?thesis
    proof cases
      case 1
      from perform_begin [OF \<open>perform _ q c _ = (a, w)\<close> [unfolded 1]] show ?thesis by simp
    next
      case 3
      from perform_rollback [OF \<open>perform _ q c _ = (a, w)\<close> [unfolded 3]] show ?thesis by simp
    next
      case 2
      from perform_commit [OF t(2) [unfolded 2]] have "wd_db w = sh_db s \<or>
          working (bucket_of cfg) (sh_db s) (ss_work ss) = Some (Active (wd_db w))" by auto
      with commit_effect [OF _ ok t(1) [unfolded 2]] assms(3) show ?thesis by (auto simp: sound_def)
    qed
  qed
  with ok t(3) show ?thesis by (auto simp: kept_def)
qed

section \<open>A turn keeps what the session knows\<close>

text \<open>The transaction after a call inside it: ended, aborted, or with a new working copy.\<close>

lemma tx_turn:
  assumes "perform m q (Some t) (at_site s (working m d wk) x) = (a, w)" and "on_tables q"
    and "work_after wk (working m d wk) q a (wd_tx w) = Some (Live lg)"
  obtains lg0 d0 d1 where "wk = Some (Live lg0)" "working m d wk = Some (Active d0)" "rerun m lg0 d = Some d0"
    "d1 = d0 \<or> changes q d0 d1" "wd_tx w = Some (Active d1)"
    "lg = (if d0 = d1 then lg0 else lg0 @ [(q, a)])"
proof -
  have "wd_tx w \<noteq> None" "wd_tx w \<noteq> Some Aborted"
    using assms(3) by (auto simp: work_after_def split: option.splits)
  then obtain d1 where d1: "wd_tx w = Some (Active d1)"
    using tx_state.exhaust by (metis option.exhaust)
  with perform_tx [OF assms(1,2)] obtain d0 where d0: "working m d wk = Some (Active d0)"
      "d1 = d0 \<or> changes q d0 d1" by fastforce
  from working_Active [OF d0(1)] obtain lg0 where lg0: "wk = Some (Live lg0)" "rerun m lg0 d = Some d0"
    by blast
  show thesis
    by (rule that [OF lg0(1) d0(1) lg0(2) d0(2) d1])
      (use assms(3) lg0 d0 d1 in \<open>auto simp: work_after_def split: if_splits\<close>)
qed

text \<open>A guarded update that found no row has changed nothing.\<close>

lemma complete_none:
  assumes "perform m (QComplete i now) (Some t) w = (Inr (RPickupOpt None), w')" and "wd_tx w' = Some (Active d1)"
  shows "wd_tx w = Some (Active d1)"
proof -
  from assms(1) have "call (sql_update_pickup i complete_guard (complete_set now)) map_error
      (opt_row pickupRow_toDomain) (Some t) w = (Inr None, w')"
    by (auto simp: wrap_Inr all_calls)
  from call_tx [OF this] assms(2) obtain d a where d: "wd_tx w = Some (Active d)"
    and a: "sql_update_pickup i complete_guard (complete_set now) d = Inr (a, d1)"
      "opt_row pickupRow_toDomain a = Inr None" by auto
  from a(2) have "a = []" by (auto simp: opt_row_def split: list.splits)
  with a(1) have none: "\<forall>r \<in> set (tb_pickups d). \<not> (pw_id r = i \<and> complete_guard r)"
    and d1: "d1 = d\<lparr>tb_pickups := update_where (\<lambda>r. pw_id r = i \<and> complete_guard r) (complete_set now) (tb_pickups d)\<rparr>"
    by (auto simp: sql_update_pickup_def filter_empty_conv)
  with d d1 show ?thesis by (simp add: update_where_none)
qed

lemma rerun_single:
  assumes "rerun m [(QComplete i now, Inr (RPickupOpt (Some p)))] d = Some d'" and "schema_ok d"
  shows "schema_ok d'"
  using assms reply_complete [of m i now OpenTx "amid d" "RPickupOpt (Some p)" _ d]
  by (auto simp del: perform.simps split: prod.splits if_splits option.splits tx_state.splits)

text \<open>The statements whose replies are logged have changed the working copy.\<close>

lemma upd_same:
  "s = s\<lparr>st_pickups := (st_pickups s)(i \<mapsto> p)\<rparr> \<Longrightarrow> st_pickups s i = Some p"
  "s = s\<lparr>st_payments := (st_payments s)(j \<mapsto> y)\<rparr> \<Longrightarrow> st_payments s j = Some y"
  by (drule arg_cong [where f = "\<lambda>s. (st_pickups s i, st_payments s j)"], simp)+

lemma log_insert:
  assumes "schema_ok d0" and "wd_tx w = Some (Active d1)"
    and "perform m (QInsertPickup p) (Some t) v = (Inr b, w)" and "wd_tx v = Some (Active d0)"
  shows "d0 \<noteq> d1 \<and> b = RUnit"
  using reply_insert_pickup [OF assms(3,4,1)] assms(2)
  by (auto simp: add_pickup_Inr simp del: facts_sel dest!: upd_same)

lemma log_payment:
  assumes "schema_ok d0" and "wd_tx w = Some (Active d1)"
    and "perform m (QInsertPayment y) (Some t) v = (Inr b, w)" and "wd_tx v = Some (Active d0)"
  shows "d0 \<noteq> d1 \<and> b = RUnit"
  using reply_insert_payment [OF assms(3,4,1)] assms(2)
  by (auto simp: add_payment_Inr simp del: facts_sel dest!: upd_same)

lemma log_complete:
  assumes "schema_ok d0" and "wd_tx w = Some (Active d1)"
    and "perform m (QComplete i now) (Some t) v = (Inr b, w)" and "wd_tx v = Some (Active d0)"
  shows "\<exists>r. b = RPickupOpt r \<and> (r = None \<longleftrightarrow> d0 = d1)"
proof -
  from reply_complete [OF assms(3,4,1)] assms(2) obtain r where b: "b = RPickupOpt r"
    and c: "change_pickup i (\<lambda>p. pk_Status p = PickupScheduled) (completed_at now) (facts d0) = Inr (r, facts d1)"
    by auto
  have "d0 = d1" if "r = None"
    using complete_none [of m i now t v w d1] that assms(2-4) b by simp
  moreover have "d0 \<noteq> d1" if "r = Some q" for q
  proof
    assume "d0 = d1"
    with c that have "\<exists>p. pickup_map d0 i = Some p \<and> pk_Status p = PickupScheduled \<and>
        facts d0 = (facts d0)\<lparr>st_pickups := (pickup_map d0)(i \<mapsto> completed_at now p)\<rparr>"
      by (auto simp: change_pickup_Inr)
    then obtain p where p: "pickup_map d0 i = Some p" "pk_Status p = PickupScheduled"
      and "facts d0 = (facts d0)\<lparr>st_pickups := (pickup_map d0)(i \<mapsto> completed_at now p)\<rparr>" by blast
    from arg_cong [OF this(3), of "\<lambda>s. st_pickups s i"] p have "completed_at now p = p" by simp
    from arg_cong [OF this, of pk_Status] p(2) show False by (simp add: completed_at_def type_defs)
  qed
  ultimately show ?thesis using b by (cases r) auto
qed

text \<open>One call inside the transaction, whose log is as the replies so far say.\<close>

lemma log_grows:
  assumes legal: "legal cfg rq past n (Some tx) q" and ok: "schema_ok d"
    and inside: "perform m q (Some tx) v = (a, w)" and view: "wd_tx v = Some (Active d0)"
    and run: "rerun m (expected cfg rq past) d = Some d0" and d1: "wd_tx w = Some (Active d1)"
    and eff: "d1 = d0 \<or> changes q d0 d1"
  shows "(if d0 = d1 then expected cfg rq past else expected cfg rq past @ [(q, a)]) =
      expected cfg rq (past @ [(n, a)]) \<or> rolls_back fmt cfg rq (past @ [(n, a)])"
proof -
  consider (check) h where "q = QHasPending h" | (insert) p where "q = QInsertPickup p"
    | (complete) i now where "q = QComplete i now" | (find) i where "q = QFindPickup i"
    | (pay) y where "q = QInsertPayment y"
    using legal by (auto simp: legal_def split: query.splits)
  then show ?thesis
  proof cases
    case insert
    with legal obtain cp i n1 n2 where sh: "rq = ReqCreatePickup cp i" "p = new_pickup cp i n1"
        "past = [(n1, Inr RUnit), (n2, Inr (RBool False))]"
      by (auto simp: legal_def)
    with run have "d0 = d" by (simp add: expected_def)
    with ok have "d0 \<noteq> d1 \<and> b = RUnit" if "a = Inr b" for b
      using log_insert [OF _ d1 inside [unfolded insert that] view] by simp
    then show ?thesis
      using insert sh by (cases a) (auto simp: expected_def rolls_back_def talk_CreatePickup)
  next
    case complete
    with legal obtain j where sh: "rq = ReqCompletePickup i j" "past = [(now, Inr RUnit)]"
      by (auto simp: legal_def)
    with run have "d0 = d" by (simp add: expected_def)
    with ok have "\<exists>r. b = RPickupOpt r \<and> (r = None \<longleftrightarrow> d0 = d1)" if "a = Inr b" for b
      using log_complete [OF _ d1 inside [unfolded complete that] view] by simp
    then show ?thesis
      using complete sh
      by (cases a) (auto simp: expected_def rolls_back_def talk_CompletePickup split: option.splits)
  next
    case pay
    with legal obtain i j n1 n2 p where sh: "rq = ReqCompletePickup i j"
        "past = [(n1, Inr RUnit), (n2, Inr (RPickupOpt (Some p)))]" "y = due (app_pricing cfg) j n1 p"
      by (auto simp: legal_def)
    with run have "rerun m [(QComplete i n1, Inr (RPickupOpt (Some p)))] d = Some d0"
      by (simp add: expected_def del: rerun.simps)
    with rerun_single ok have "schema_ok d0" by blast
    then have "d0 \<noteq> d1 \<and> b = RUnit" if "a = Inr b" for b
      using log_payment [OF _ d1 inside [unfolded pay that] view] by simp
    then show ?thesis
      using pay sh by (cases a) (auto simp: expected_def rolls_back_def talk_CompletePickup)
  qed (use legal eff in \<open>auto simp: legal_def changes_def expected_def\<close>)
qed

lemma turn_quiet:
  assumes "legal cfg (ss_request ss) past n c q" and "works fmt cfg ss"
    and "\<not> transactional (ss_request ss) \<or> on_tables q \<and> c = None"
    and "perform m q c (at_site s (working m d (ss_work ss)) x) = (a, w)"
  shows "wd_tx w = None"
proof -
  from assms(1,3) have "\<not> transactional (ss_request ss)" "on_tables q" "c = None"
    by (auto simp: legal_def transactional_def on_tables_def split: query.splits)
  moreover from this assms(2) have "ss_work ss = None" by (simp add: works_def)
  ultimately show ?thesis using perform_pool [of m q] assms(4) by fastforce
qed

lemma turn_log:
  assumes legal: "legal cfg (ss_request ss) (ss_past ss) n c q" and work: "works fmt cfg ss"
    and q: "upcoming fmt cfg (ss_request ss) (ss_past ss) n = Some (c, q)" and ok: "schema_ok d"
    and run: "perform m q c (at_site s (working m d (ss_work ss)) x) = (a, w)"
    and lg: "work_after (ss_work ss) (working m d (ss_work ss)) q a (wd_tx w) = Some (Live lg)"
  shows "lg = expected cfg (ss_request ss) (ss_past ss @ [(n, a)]) \<or>
    rolls_back fmt cfg (ss_request ss) (ss_past ss @ [(n, a)])"
proof (cases "on_tables q")
  case True
  with turn_quiet [OF legal work _ run] lg obtain tx where c: "c = Some tx" by fastforce
  from tx_turn [OF run [unfolded c] True lg] obtain lg0 d0 d1 where wk: "ss_work ss = Some (Live lg0)"
    and b: "working m d (ss_work ss) = Some (Active d0)" and re: "rerun m lg0 d = Some d0"
    and eff: "d1 = d0 \<or> changes q d0 d1" and d1: "wd_tx w = Some (Active d1)"
    and lg: "lg = (if d0 = d1 then lg0 else lg0 @ [(q, a)])"
    by metis
  have lg0: "lg0 = expected cfg (ss_request ss) (ss_past ss)"
    using work wk q True by (auto simp: works_def rolls_back_def on_tables_def)
  show ?thesis
    unfolding lg lg0
    by (rule log_grows [OF legal [unfolded c] ok run [unfolded c] _ re [unfolded lg0] d1 eff]) (simp add: b)
next
  case False
  then consider "q = QBegin" | "q = QCommit" | "q = QRollback" by (auto simp: on_tables_def)
  then show ?thesis
  proof cases
    case 1
    with legal have past: "ss_past ss = []" by (simp add: legal_def)
    with work have "ss_work ss = None" by (simp add: works_def)
    with lg past show ?thesis
      by (auto simp: work_after_def expected_def split: option.splits tx_state.splits request.splits)
  next
    case 2
    with lg perform_commit [OF run [unfolded 2]] show ?thesis by simp
  next
    case 3
    with lg perform_rollback [OF run [unfolded 3]] show ?thesis by simp
  qed
qed

lemma turn_works:
  assumes turn: "turn fmt cfg n x s ss = Some (s', ss')" and ok: "schema_ok (sh_db s)" and work: "works fmt cfg ss"
  shows "works fmt cfg ss'"
  using turn
proof (cases rule: turnE)
  case t: (1 c q a w)
  note legal = upcoming_legal [OF t(1)]
  have "\<not> transactional (ss_request ss) \<longrightarrow> ss_work ss' = None"
    using turn_quiet [OF legal work _ t(2)] by (simp add: t)
  moreover have "\<forall>lg. ss_work ss' = Some (Live lg) \<longrightarrow>
      lg = expected cfg (ss_request ss) (ss_past ss @ [(n, a)]) \<or>
      rolls_back fmt cfg (ss_request ss) (ss_past ss @ [(n, a)])"
    using turn_log [OF legal work t(1) ok t(2)] by (simp add: t)
  ultimately show ?thesis unfolding works_def t(4,5) by (metis append_is_Nil_conv not_Cons_self2)
qed

lemma perform_pool_reply:
  assumes "schema_ok (wd_db w)"
  shows "perform m (QFindPickup i) None w = (Inr v, w') \<Longrightarrow>
      \<exists>p. v = RPickup p \<and> st_pickups (facts (wd_db w')) i = Some p"
    and "perform m (QSchedule i date now) None w = (Inr v, w') \<Longrightarrow>
      \<exists>r. v = RPickupOpt r \<and> change_pickup i (\<lambda>p. CanSchedule p = None) (scheduled_for date now)
        (facts (wd_db w)) = Inr (r, facts (wd_db w'))"
    and "perform m (QCancel i now) None w = (Inr v, w') \<Longrightarrow>
      \<exists>r. v = RPickupOpt r \<and> change_pickup i (\<lambda>p. pk_Status p \<in> {PickupPending, PickupScheduled})
        (canceled now) (facts (wd_db w)) = Inr (r, facts (wd_db w'))"
    and "perform m (QInsertPayment y) None w = (Inr v, w') \<Longrightarrow>
      v = RUnit \<and> add_payment y (facts (wd_db w)) = Inr ((), facts (wd_db w'))"
    and "perform m (QConfirm i url now) None w = (Inr v, w') \<Longrightarrow>
      \<exists>r. v = RPaymentOpt r \<and> confirm_payment i url now (facts (wd_db w)) = Inr (r, facts (wd_db w'))"
proof -
  assume "perform m (QFindPickup i) None w = (Inr v, w')"
  then obtain r where r: "call (sql_find_pickup i) map_error (one_row pickupRow_toDomain ErrPickupNotFound)
      None w = (Inr r, w')" "v = RPickup r" by (auto simp: wrap_Inr all_calls)
  from reply_pool [OF find_pickup.repository_call_axioms r(1) assms] r(2)
  show "\<exists>p. v = RPickup p \<and> st_pickups (facts (wd_db w')) i = Some p"
    by (auto simp: find_in_def simp del: facts_sel split: option.splits)
next
  assume "perform m (QSchedule i date now) None w = (Inr v, w')"
  then obtain r where r: "call (sql_update_pickup i schedule_guard (schedule_set date now)) map_error
      (opt_row pickupRow_toDomain) None w = (Inr r, w')" "v = RPickupOpt r" by (auto simp: wrap_Inr all_calls)
  from reply_pool [OF schedule.update.repository_call_axioms r(1) assms] r(2)
  show "\<exists>r. v = RPickupOpt r \<and> change_pickup i (\<lambda>p. CanSchedule p = None) (scheduled_for date now)
        (facts (wd_db w)) = Inr (r, facts (wd_db w'))" by simp
next
  assume "perform m (QCancel i now) None w = (Inr v, w')"
  then obtain r where r: "call (sql_update_pickup i cancel_guard (cancel_set now)) map_error
      (opt_row pickupRow_toDomain) None w = (Inr r, w')" "v = RPickupOpt r" by (auto simp: wrap_Inr all_calls)
  from reply_pool [OF cancel.update.repository_call_axioms r(1) assms] r(2)
  show "\<exists>r. v = RPickupOpt r \<and> change_pickup i (\<lambda>p. pk_Status p \<in> {PickupPending, PickupScheduled})
        (canceled now) (facts (wd_db w)) = Inr (r, facts (wd_db w'))" by simp
next
  assume "perform m (QInsertPayment y) None w = (Inr v, w')"
  then obtain r where r: "call (sql_insert_payment (pm_Amount y) (payment_row y))
      (on_code unique_violation ErrPaymentAlreadyExists) Inr None w = (Inr r, w')" "v = RUnit"
    by (auto simp: wrap_Inr all_calls unit_reply_def)
  from reply_pool [OF insert_payment.repository_call_axioms r(1) assms] r(2)
  show "v = RUnit \<and> add_payment y (facts (wd_db w)) = Inr ((), facts (wd_db w'))" by simp
next
  assume "perform m (QConfirm i url now) None w = (Inr v, w')"
  then obtain r where r: "call (sql_confirm_payment i url now) map_error (opt_row paymentRow_toDomain)
      None w = (Inr r, w')" "v = RPaymentOpt r" by (auto simp: wrap_Inr all_calls)
  from reply_pool [OF confirm.repository_call_axioms r(1) assms] r(2)
  show "\<exists>r. v = RPaymentOpt r \<and> confirm_payment i url now (facts (wd_db w)) = Inr (r, facts (wd_db w'))"
    by simp
qed

lemma put_reply:
  "perform m (QPut key content sz ct) c w = (Inr v, w') \<Longrightarrow> v = RText (object_url m key)"
  by (cases w rule: next_outcome_cases)
    (auto simp: wrap_Inr MinIO_Put_def PutObject_def object_url_def Let_def split: outcome.splits)

lemma confirm_puts:
  assumes "upcoming fmt cfg (ReqConfirmPayment i ci j) [x1] n = Some (c, q)"
  shows "q = QPut (proof_key fmt i j (ci_ContentType ci)) (ci_Reader ci) (ci_Size ci) (ci_ContentType ci)"
  using assms
  by (auto simp: replay_defs ask_def Let_def payment_Confirm_def proof_key_def split: legal_splits)

lemma turn_told:
  assumes turn: "turn fmt cfg n x s ss = Some (s', ss')" and ok: "schema_ok (sh_db s)"
    and adv: "kept cfg s s'" and told: "told fmt cfg (facts (sh_db s)) (ss_request ss) (ss_past ss)"
  shows "told fmt cfg (facts (sh_db s')) (ss_request ss') (ss_past ss')"
  using turn
proof (cases rule: turnE)
  case t: (1 c q a w)
  have db: "sh_db s' = wd_db w" by (simp add: t)
  have old: "told fmt cfg (facts (wd_db w)) (ss_request ss) (ss_past ss)"
    using told_stable [OF _ told] adv by (simp add: kept_def db)
  show ?thesis
  proof (cases "ss_request ss")
    case (ReqCreatePayment cy j)
    show ?thesis
    proof (cases "ss_past ss")
      case Nil
      with ReqCreatePayment t(1) have "c = None" "q = QFindPickup (cy_WasteID cy)"
        by (simp_all add: talk_CreatePayment)
      with t(2) perform_pool_reply(1) [of "at_site s _ x"] ok Nil ReqCreatePayment show ?thesis
        by (cases a) (fastforce simp: told_def t(4,5) db)+
    next
      case (Cons y ys)
      with old ReqCreatePayment show ?thesis by (simp add: told_def t(4,5) db)
    qed
  next
    case (ReqConfirmPayment i ci j)
    show ?thesis
    proof (cases "ss_past ss" rule: remdups_adj.cases)
      case 1
      with ReqConfirmPayment show ?thesis by (simp add: told_def t(4,5) split: sum.split prod.split)
    next
      case (2 y)
      with ReqConfirmPayment t(1) confirm_puts
      have "q = QPut (proof_key fmt i j (ci_ContentType ci)) (ci_Reader ci) (ci_Size ci) (ci_ContentType ci)" by simp
      then have "b = RText (object_url (bucket_of cfg) (proof_key fmt i j (ci_ContentType ci)))" if "a = Inr b" for b
        using put_reply t(2) that by metis
      with 2 ReqConfirmPayment show ?thesis
        by (cases a) (auto simp: told_def t(4,5) split: prod.splits)
    next
      case (3 y z ys)
      with old ReqConfirmPayment show ?thesis by (simp add: told_def t(4,5) db split: prod.splits)
    qed
  qed (simp_all add: told_def t(4))
qed

text \<open>The turn that makes a request succeed is the one that makes the promise true.\<close>

definition closing :: "request \<Rightarrow> (instant \<times> response) list \<Rightarrow> response \<Rightarrow> bool" where
  "closing rq past a \<longleftrightarrow>
    (case rq of
       ReqCreatePickup cp i \<Rightarrow> a = Inr RUnit \<and>
         (\<exists>n1 n2 n3. past = [(n1, Inr RUnit), (n2, Inr (RBool False)), (n3, Inr RUnit)])
     | ReqSchedulePickup i sp \<Rightarrow> past = [] \<and> (\<exists>p. a = Inr (RPickupOpt (Some p)))
     | ReqCompletePickup i j \<Rightarrow> a = Inr RUnit \<and>
         (\<exists>n1 n2 n3 p. past = [(n1, Inr RUnit), (n2, Inr (RPickupOpt (Some p))), (n3, Inr RUnit)])
     | ReqCancelPickup i \<Rightarrow> past = [] \<and> (\<exists>p. a = Inr (RPickupOpt (Some p)))
     | ReqCreatePayment cy j \<Rightarrow> a = Inr RUnit \<and>
         (\<exists>n1 p. past = [(n1, Inr (RPickup p))] \<and> pk_HouseholdID p = cy_HouseholdID cy)
     | ReqConfirmPayment i ci j \<Rightarrow> (\<exists>z. a = Inr (RPaymentOpt (Some z))) \<and>
         (\<exists>n1 n2 y url. past = [(n1, Inr (RPayment y)), (n2, Inr (RText url))] \<and> pm_Status y = PaymentPending)
     | _ \<Rightarrow> True)"

lemma last_reply:
  assumes "success rq (past @ [(n, a)])" and "writes rq" and "\<not> success rq past"
  shows "closing rq past a"
  using assms
  by (cases rq) (auto simp: closing_def success_def writes_def append_eq_Cons_conv Cons_eq_append_conv)

lemma commit_promised:
  assumes "works fmt cfg ss" and "schema_ok (sh_db s)"
    and "upcoming fmt cfg (ss_request ss) (ss_past ss) n = Some (None, QCommit)"
    and "perform m QCommit c (at_site s (working m (sh_db s) (ss_work ss)) x) = (Inr v, w)"
  shows "promised fmt cfg (ss_request ss) (facts (wd_db w))"
  using perform_commit [OF assms(4)] commit_effect [OF assms(1,2,3)] by fastforce

lemma confirm_paid:
  assumes "confirm_payment i url now s = Inr (Some z, t)"
  shows "st_payments t i = Some z \<and> pm_Status z = PaymentPaid \<and> pm_ProofFileURL z = Some url"
  using assms by (auto simp: confirm_payment_def Let_def split: if_splits option.splits)

lemma closing_promised:
  assumes q: "upcoming fmt cfg (ss_request ss) (ss_past ss) n = Some (c, q)"
    and run: "perform (bucket_of cfg) q c (at_site s (working (bucket_of cfg) (sh_db s) (ss_work ss)) x) = (a, w)"
    and close: "closing (ss_request ss) (ss_past ss) a" and ok: "schema_ok (sh_db s)" and sound: "sound fmt cfg s ss"
  shows "promised fmt cfg (ss_request ss) (facts (wd_db w))"
proof -
  have works: "works fmt cfg ss" using sound by (simp add: sound_def)
  let ?w = "at_site s (working (bucket_of cfg) (sh_db s) (ss_work ss)) x"
  have "schema_ok (wd_db ?w)" using ok by simp
  note replies = perform_pool_reply [OF this]
  show ?thesis
  proof (cases "ss_request ss")
    case (ReqCreatePickup cp i)
    with close q have "c = None" "q = QCommit" by (auto simp: closing_def talk_CreatePickup)
    moreover have "a = Inr RUnit" using close ReqCreatePickup by (simp add: closing_def)
    ultimately show ?thesis using commit_promised [OF works ok] q run by blast
  next
    case (ReqCompletePickup i j)
    with close q have "c = None" "q = QCommit" by (auto simp: closing_def talk_CompletePickup)
    moreover have "a = Inr RUnit" using close ReqCompletePickup by (simp add: closing_def)
    ultimately show ?thesis using commit_promised [OF works ok] q run by blast
  next
    case (ReqSchedulePickup i sp)
    with close q run obtain p where "perform (bucket_of cfg) (QSchedule i (sp_PickupDate sp) n) None ?w =
        (Inr (RPickupOpt (Some p)), w)" by (auto simp: closing_def talk_SchedulePickup simp del: perform.simps)
    from replies(2) [OF this] ReqSchedulePickup show ?thesis
      by (auto simp: promised_def change_pickup_Inr scheduled_for_def type_defs simp del: facts_sel)
  next
    case (ReqCancelPickup i)
    with close q run obtain p where "perform (bucket_of cfg) (QCancel i n) None ?w =
        (Inr (RPickupOpt (Some p)), w)" by (auto simp: closing_def talk_CancelPickup simp del: perform.simps)
    from replies(3) [OF this] ReqCancelPickup show ?thesis
      by (auto simp: promised_def change_pickup_Inr simp del: facts_sel)
  next
    case (ReqCreatePayment cy j)
    with close q run obtain p where "perform (bucket_of cfg) (QInsertPayment
        (payment_for (app_pricing cfg) cy j n p)) None ?w = (Inr RUnit, w)"
      by (auto simp: closing_def talk_CreatePayment_found simp del: perform.simps)
    from replies(4) [OF this] ReqCreatePayment show ?thesis
      by (auto simp: promised_def add_payment_Inr payment_for_def simp del: facts_sel)
  next
    case (ReqConfirmPayment i ci j)
    with close obtain z n1 n2 y url where a: "a = Inr (RPaymentOpt (Some z))"
      and past: "ss_past ss = [(n1, Inr (RPayment y)), (n2, Inr (RText url))]" "pm_Status y = PaymentPending"
      by (auto simp: closing_def)
    with q run ReqConfirmPayment have "perform (bucket_of cfg) (QConfirm i url n) None ?w =
        (Inr (RPaymentOpt (Some z)), w)" by (auto simp: talk_ConfirmPayment_pending simp del: perform.simps)
    from replies(5) [OF this] have paid: "confirm_payment i url n (facts (sh_db s)) = Inr (Some z, facts (wd_db w))"
      by simp
    have "url = object_url (bucket_of cfg) (proof_key fmt i j (ci_ContentType ci))"
      using sound past ReqConfirmPayment by (simp add: sound_def told_def)
    with confirm_paid [OF paid] ReqConfirmPayment show ?thesis
      by (simp add: promised_def del: facts_sel)
  qed (simp_all add: promised_def)
qed

lemma turn_promised:
  assumes turn: "turn fmt cfg n x s ss = Some (s', ss')" and ok: "schema_ok (sh_db s)" and sound: "sound fmt cfg s ss"
    and out: "outcome_of fmt cfg (ss_request ss') (ss_past ss') = Inr ()"
  shows "promised fmt cfg (ss_request ss') (facts (sh_db s'))"
  using turn
proof (cases rule: turnE)
  case t: (1 c q a w)
  show ?thesis
  proof (cases "writes (ss_request ss)")
    case False
    then show ?thesis by (auto simp: t promised_def writes_def split: request.splits)
  next
    case True
    have "\<not> success (ss_request ss) (ss_past ss)" using success_finished [OF _ True] t(1) by fastforce
    with success_shape [OF out] have "closing (ss_request ss) (ss_past ss) a"
      unfolding t(4,5) by (rule last_reply [OF _ True])
    with closing_promised [OF t(1,2) _ ok sound] show ?thesis by (simp add: t)
  qed
qed

section \<open>All interleavings\<close>

interpretation sessions: rely_guarantee
    "\<lambda>s ss s' ss'. \<exists>n x. turn fmt cfg n x s ss = Some (s', ss')" "fine cfg" "kept cfg" "sound fmt cfg"
  for fmt cfg
proof
  fix s ss s' ss'
  assume "\<exists>n x. turn fmt cfg n x s ss = Some (s', ss')" and fine: "fine cfg s" and sound: "sound fmt cfg s ss"
  then obtain n x where turn: "turn fmt cfg n x s ss = Some (s', ss')" by blast
  have ok: "schema_ok (sh_db s)" using fine by (simp add: fine_def)
  from turn_advances [OF turn fine sound] have keeps: "schema_ok (sh_db s')" "kept cfg s s'" by auto
  moreover have "fine cfg s'"
    using keeps fine good_loose by (auto simp: fine_def kept_def advances_def)
  moreover have "sound fmt cfg s' ss'"
    using turn_works [OF turn ok] turn_told [OF turn ok keeps(2)] turn_promised [OF turn ok sound] sound
    by (simp add: sound_def)
  ultimately show "kept cfg s s' \<and> fine cfg s' \<and> sound fmt cfg s' ss'" by blast
next
  fix s s' ss
  assume "kept cfg s s'" and "sound fmt cfg s ss"
  then show "sound fmt cfg s' ss"
    using told_stable promised_stable by (auto simp: sound_def kept_def)
qed

end
