(* ===== verification/Overlap.thy ===== *)
theory Overlap
  imports Concurrency
begin

text \<open>
  The properties of overlapping requests: what every state reachable by an interleaving satisfies,
  what single events keep, and what the level READ COMMITTED does not give.
\<close>

section \<open>Reachable states\<close>

lemma sound_frame [simp]:
  "sound fmt cfg (s\<lparr>sh_sessions := sss\<rparr>) = sound fmt cfg s"
  "sound fmt cfg (s\<lparr>sh_now := n\<rparr>) = sound fmt cfg s"
  "fine cfg (s\<lparr>sh_sessions := sss\<rparr>) = fine cfg s" "fine cfg (s\<lparr>sh_now := n\<rparr>) = fine cfg s"
  by (simp_all add: fun_eq_iff sound_def fine_def)

lemma kept_frame [simp]:
  "kept cfg s (s'\<lparr>sh_sessions := sss\<rparr>) = kept cfg s s'" "kept cfg s (s'\<lparr>sh_now := n\<rparr>) = kept cfg s s'"
  "kept cfg s s"
  by (simp_all add: kept_def)

lemma turn_frame: "turn fmt cfg n x s ss = Some (s', ss') \<Longrightarrow> sh_sessions s' = sh_sessions s \<and> sh_now s' = sh_now s"
  by (auto elim!: turnE)

lemma sound_arrival:
  "sound fmt cfg s \<lparr>ss_request = rq, ss_past = [], ss_work = None, ss_since = n\<rparr>"
proof -
  have "told fmt cfg (facts (sh_db s)) rq []" by (simp add: told_def split: request.split)
  moreover have "promised fmt cfg rq (facts (sh_db s))" if "outcome_of fmt cfg rq [] = Inr ()"
    using success_shape [OF that]
    by (cases rq) (auto simp: success_def promised_def)
  ultimately show ?thesis by (simp add: sound_def works_def)
qed

lemma happen_sound:
  assumes "happen fmt cfg ev s = Some t" and "sessions.all_hold cfg fmt s (sh_sessions s)"
  shows "sessions.all_hold cfg fmt t (sh_sessions t) \<and> kept cfg s t"
proof (cases ev)
  case (Arrive rq)
  with assms sound_arrival show ?thesis
    by (auto simp: sessions.all_hold_append sessions.all_hold_def)
next
  case (Turn k n x)
  with assms(1) obtain s' ss where k: "k < length (sh_sessions s)"
    and turn: "turn fmt cfg n x s (sh_sessions s ! k) = Some (s', ss)"
    and t: "t = s'\<lparr>sh_sessions := (sh_sessions s')[k := ss]\<rparr>"
    by (auto simp: Let_def split: if_splits option.splits)
  from turn have "\<exists>n x. turn fmt cfg n x s (sh_sessions s ! k) = Some (s', ss)" by blast
  from sessions.turn_of_one [OF assms(2) k this] turn_frame [OF turn] show ?thesis
    by (simp add: t sessions.all_hold_def)
qed (use assms in \<open>auto simp: sessions.all_hold_def split: if_splits\<close>)

lemma fine_start: "fine cfg (at_start now)"
proof -
  have "timeless (facts empty_db) = empty_store 0"
    by (simp add: timeless_def facts_def empty_store_def empty_db_def household_map_def pickup_map_def
        payment_map_def fun_eq_iff)
  then show ?thesis by (simp add: fine_def at_start_def good_empty)
qed

lemma interleaved_sound: "interleaved fmt cfg s \<Longrightarrow> sessions.all_hold cfg fmt s (sh_sessions s)"
proof (induction rule: interleaved.induct)
  case (at_start now)
  have "sh_sessions (at_start now) = []" by (simp add: at_start_def)
  with fine_start show ?case by (simp add: sessions.all_hold_def)
next
  case (event s ev t)
  then show ?case using happen_sound by blast
qed

lemma interleaved_fine: "interleaved fmt cfg s \<Longrightarrow> fine cfg s"
  using interleaved_sound by (simp add: sessions.all_hold_def)

lemma interleaved_kept: "interleaved fmt cfg s \<Longrightarrow> happen fmt cfg ev s = Some t \<Longrightarrow> kept cfg s t"
  using happen_sound interleaved_sound by blast

lemma interleaved_pickup:
  assumes "interleaved fmt cfg s" and "pickup_map (sh_db s) i = Some p"
  shows "pk_ID p = i \<and> good_pickup (timeless (facts (sh_db s))) (untimed_pickup p)"
proof -
  have "st_pickups (timeless (facts (sh_db s))) i = Some (untimed_pickup p)" using assms(2) by simp
  with interleaved_fine [OF assms(1)] show ?thesis
    unfolding fine_def by (metis good_storeD(1) untimed_sel(4))
qed

lemma interleaved_payment:
  assumes "interleaved fmt cfg s" and "payment_map (sh_db s) j = Some y"
  shows "pm_ID y = j \<and> good_payment (app_pricing cfg) (timeless (facts (sh_db s))) (untimed_payment y)"
proof -
  have "st_payments (timeless (facts (sh_db s))) j = Some (untimed_payment y)" using assms(2) by simp
  with interleaved_fine [OF assms(1)] show ?thesis
    unfolding fine_def by (metis good_storeD(2) untimed_sel(10))
qed

lemma interleaved_promised:
  assumes "interleaved fmt cfg s" and "ss \<in> set (sh_sessions s)"
    and "outcome_of fmt cfg (ss_request ss) (ss_past ss) = Inr ()"
  shows "promised fmt cfg (ss_request ss) (facts (sh_db s))"
  using interleaved_sound [OF assms(1)] assms(2,3)
  by (auto simp: sessions.all_hold_def list_all_iff sound_def)

section \<open>Bounds\<close>

lemma turn_bounded:
  assumes "turn fmt cfg n x s ss = Some (s', ss')"
  shows "length (ss_past ss') = Suc (length (ss_past ss)) \<and> length (ss_past ss') \<le> 4"
  using assms by (rule turnE) (use upcoming_legal in \<open>fastforce simp: legal_def\<close>)

lemma happen_bounded:
  assumes "happen fmt cfg ev s = Some t" and "\<forall>ss \<in> set (sh_sessions s). length (ss_past ss) \<le> 4"
  shows "\<forall>ss \<in> set (sh_sessions t). length (ss_past ss) \<le> 4"
proof (cases ev)
  case (Turn k n x)
  with assms(1) obtain s' ss where turn: "turn fmt cfg n x s (sh_sessions s ! k) = Some (s', ss)"
    and t: "sh_sessions t = (sh_sessions s')[k := ss]"
    by (auto simp: Let_def split: if_splits option.splits)
  from turn_bounded [OF turn] have "length (ss_past ss) \<le> 4" by simp
  with assms(2) t turn_frame [OF turn] show ?thesis
    using set_update_subset_insert [of "sh_sessions s'" k ss] by auto
qed (use assms in \<open>auto split: if_splits\<close>)

lemma interleaved_bounded:
  "interleaved fmt cfg s \<Longrightarrow> \<forall>ss \<in> set (sh_sessions s). length (ss_past ss) \<le> 4"
proof (induction rule: interleaved.induct)
  case (at_start now)
  then show ?case by (simp add: at_start_def)
next
  case (event s ev t)
  then show ?case using happen_bounded by blast
qed

section \<open>When Rule 1 is checked\<close>

definition clear :: "uuid \<Rightarrow> db \<Rightarrow> bool" where
  "clear h d \<longleftrightarrow>
    (\<forall>y \<in> ran (payment_map d). pm_HouseholdID y = h \<longrightarrow> pm_Status y \<noteq> PaymentPending)"

text \<open>
  At some moment of the run so far the request had its transaction open and the household had no
  pending payment.
\<close>

definition was_clear :: "(uuid \<Rightarrow> string) \<Rightarrow> Config \<Rightarrow> event list \<Rightarrow> shared \<Rightarrow>
    CreatePickupCommand \<Rightarrow> uuid \<Rightarrow> bool" where
  "was_clear fmt cfg evs s0 cp i \<longleftrightarrow>
    (\<exists>evs1 evs2 u ss n. evs = evs1 @ evs2 \<and> happens fmt cfg evs1 s0 = Some u \<and>
       ss \<in> set (sh_sessions u) \<and> ss_request ss = ReqCreatePickup cp i \<and> ss_past ss = [(n, Inr RUnit)] \<and>
       clear (cp_HouseholdID cp) (sh_db u))"

definition checked :: "(uuid \<Rightarrow> string) \<Rightarrow> Config \<Rightarrow> event list \<Rightarrow> shared \<Rightarrow> session \<Rightarrow> bool" where
  "checked fmt cfg evs s0 ss \<longleftrightarrow>
    (\<forall>cp i x1 n2 xs. ss_request ss = ReqCreatePickup cp i \<longrightarrow>
       ss_past ss = x1 # (n2, Inr (RBool False)) # xs \<longrightarrow> was_clear fmt cfg evs s0 cp i)"

lemma was_clear_later: "was_clear fmt cfg evs s0 cp i \<Longrightarrow> was_clear fmt cfg (evs @ [ev]) s0 cp i"
  unfolding was_clear_def by (metis append_assoc)

lemma checked_later: "checked fmt cfg evs s0 ss \<Longrightarrow> checked fmt cfg (evs @ [ev]) s0 ss"
  by (auto simp: checked_def was_clear_later)

lemma check_is_current:
  assumes q: "upcoming fmt cfg (ss_request ss) (ss_past ss) n = Some (c, QHasPending h)"
    and run: "perform m (QHasPending h) c (at_site s (working m (sh_db s) (ss_work ss)) x) = (Inr (RBool False), w)"
    and works: "works fmt cfg ss" and ok: "schema_ok (sh_db s)"
  shows "clear h (sh_db s) \<and> (\<exists>n. ss_past ss = [(n, Inr RUnit)])"
proof -
  from upcoming_legal [OF q] obtain cp i n1 where c: "c = Some OpenTx"
    and sh: "ss_request ss = ReqCreatePickup cp i" "ss_past ss = [(n1, Inr RUnit)]"
    by (auto simp: legal_def)
  from run [unfolded c] have "call (sql_has_pending h) map_error Inr (Some OpenTx)
      (at_site s (working m (sh_db s) (ss_work ss)) x) = (Inr False, w)"
    by (auto simp: wrap_Inr all_calls)
  from call_tx [OF this] obtain d0 where v: "working m (sh_db s) (ss_work ss) = Some (Active d0)"
    and pending: "(\<exists>y \<in> set (tb_payments d0). yw_household_id y = h \<and> yw_status y = PaymentPending) = False"
    by (auto simp: sql_has_pending_def)
  from working_Active [OF v] obtain lg where lg: "ss_work ss = Some (Live lg)" "rerun m lg (sh_db s) = Some d0"
    by blast
  with works q have "lg = expected cfg (ss_request ss) (ss_past ss)"
    by (auto simp: works_def rolls_back_def)
  with lg(2) sh have "d0 = sh_db s" by (simp add: expected_def)
  with pending ok show ?thesis by (auto simp: clear_def ran_payment_map sh)
qed

lemma second_call:
  assumes "upcoming fmt cfg (ReqCreatePickup cp i) [y] n = Some (c, q)"
  shows "q = QHasPending (cp_HouseholdID cp)"
  using assms
  by (cases y; cases "snd y") (auto simp: replay_defs ask_def pickup_Create_def Let_def split: option.splits)

lemma turn_checked:
  assumes run: "happens fmt cfg evs s0 = Some s" and ss: "ss \<in> set (sh_sessions s)"
    and turn: "turn fmt cfg n x s ss = Some (s', ss')"
    and works: "works fmt cfg ss" and ok: "schema_ok (sh_db s)" and old: "checked fmt cfg evs s0 ss"
  shows "checked fmt cfg evs s0 ss'"
  using turn
proof (cases rule: turnE)
  case t: (1 c q a w)
  have "was_clear fmt cfg evs s0 cp i"
    if rq: "ss_request ss = ReqCreatePickup cp i"
      and past: "ss_past ss @ [(n, a)] = x1 # (n2, Inr (RBool False)) # xs" for cp i x1 n2 xs
  proof (cases xs rule: rev_cases)
    case Nil
    with past have a: "a = Inr (RBool False)" and one: "ss_past ss = [x1]"
      by (auto simp: append_eq_Cons_conv)
    with t(1) rq have "q = QHasPending (cp_HouseholdID cp)" using second_call by metis
    with check_is_current [OF t(1) [unfolded this] _ works ok] t(2) a
    have "clear (cp_HouseholdID cp) (sh_db s)" "\<exists>n. ss_past ss = [(n, Inr RUnit)]" by auto
    with run ss rq show ?thesis unfolding was_clear_def by (metis append_Nil2)
  next
    case (snoc ys z)
    with past have "ss_past ss = x1 # (n2, Inr (RBool False)) # ys" by simp
    with old rq show ?thesis by (auto simp: checked_def)
  qed
  then show ?thesis by (auto simp: checked_def t(4,5))
qed

lemma happens_checked:
  "happens fmt cfg evs (at_start now) = Some s \<Longrightarrow> \<forall>ss \<in> set (sh_sessions s). checked fmt cfg evs (at_start now) ss"
proof (induction evs arbitrary: s rule: rev_induct)
  case Nil
  then show ?case by (auto simp: at_start_def)
next
  case (snoc ev evs)
  then obtain u where run: "happens fmt cfg evs (at_start now) = Some u" and ev: "happen fmt cfg ev u = Some s"
    by (auto simp: happens_append split: option.splits)
  from snoc(1) [OF run] have all: "\<forall>ss \<in> set (sh_sessions u). checked fmt cfg (evs @ [ev]) (at_start now) ss"
    using checked_later by blast
  have sound: "sessions.all_hold cfg fmt u (sh_sessions u)"
    using interleaved_sound [OF interleaved_happens [OF run interleaved.at_start]] .
  show ?case
  proof (cases ev)
    case (Turn k n x)
    with ev obtain s' ss where k: "k < length (sh_sessions u)"
      and turn: "turn fmt cfg n x u (sh_sessions u ! k) = Some (s', ss)"
      and s: "sh_sessions s = (sh_sessions s')[k := ss]"
      by (auto simp: Let_def split: if_splits option.splits)
    from sound k have "works fmt cfg (sh_sessions u ! k)" "schema_ok (sh_db u)"
      by (auto simp: sessions.all_hold_def list_all_iff sound_def fine_def)
    with turn_checked [OF run _ turn] snoc(1) [OF run] k checked_later
    have "checked fmt cfg (evs @ [ev]) (at_start now) ss" by auto
    with all s turn_frame [OF turn] show ?thesis
      using set_update_subset_insert [of "sh_sessions s'" k ss] by auto
  qed (use ev all in \<open>auto simp: checked_def split: if_splits\<close>)
qed

text \<open>Only the transaction of a \<open>CreatePickup\<close> adds a pickup.\<close>

definition pickup_ids :: "db \<Rightarrow> uuid set" where
  "pickup_ids d = pw_id ` set (tb_pickups d)"

lemma pickup_ids_None: "pickup_map d i = None \<longleftrightarrow> i \<notin> pickup_ids d"
  by (simp add: pickup_ids_def maps_None)

lemma ids_update_where:
  assumes "\<And>r. pw_id (f r) = pw_id r"
  shows "pickup_ids (d\<lparr>tb_pickups := update_where P f (tb_pickups d)\<rparr>) = pickup_ids d"
proof -
  have "map pw_id (update_where P f rs) = map pw_id rs" for rs
    by (induction rs) (simp_all add: assms)
  from arg_cong [OF this, of set] show ?thesis by (simp add: pickup_ids_def)
qed

lemma pickup_ids_frame [simp]:
  "pickup_ids (tb_households_update f d) = pickup_ids d" "pickup_ids (tb_payments_update g d) = pickup_ids d"
  by (simp_all add: pickup_ids_def)

lemma changes_pickups:
  assumes "changes q d d'" and "\<And>p. q \<noteq> QInsertPickup p"
  shows "pickup_ids d' = pickup_ids d"
proof -
  have ids:
    "pickup_ids (d\<lparr>tb_pickups := update_where P (schedule_set date now) (tb_pickups d)\<rparr>) = pickup_ids d"
    "pickup_ids (d\<lparr>tb_pickups := update_where P (complete_set now) (tb_pickups d)\<rparr>) = pickup_ids d"
    "pickup_ids (d\<lparr>tb_pickups := update_where P (cancel_set now) (tb_pickups d)\<rparr>) = pickup_ids d"
    for P date now
    by (rule ids_update_where, simp add: schedule_set_def complete_set_def cancel_set_def)+
  from assms show ?thesis
  proof (cases q)
    case (QInsertHousehold h)
    with assms(1) show ?thesis by (clarsimp simp: changes_def sql_insert_household_def split: if_splits)
  next
    case (QDeleteHousehold i)
    with assms(1) show ?thesis by (clarsimp simp: changes_def sql_delete_household_def split: if_splits)
  next
    case (QInsertPayment y)
    with assms(1) show ?thesis by (clarsimp simp: changes_def sql_insert_payment_def split: if_splits)
  next
    case (QConfirm i url now)
    with assms(1) show ?thesis by (clarsimp simp: changes_def sql_confirm_payment_def split: if_splits)
  next
    case (QInsertPickup p)
    with assms(2) [of p] show ?thesis by blast
  next
    case (QSchedule i date now)
    with assms(1) ids(1) show ?thesis by (clarsimp simp: changes_def sql_update_pickup_def)
  next
    case (QComplete i now)
    with assms(1) ids(2) show ?thesis by (clarsimp simp: changes_def sql_update_pickup_def)
  next
    case (QCancel i now)
    with assms(1) ids(3) show ?thesis by (clarsimp simp: changes_def sql_update_pickup_def)
  next
    case (QCancelStale cutoff now)
    with assms(1) ids(3) show ?thesis by (clarsimp simp: changes_def sql_cancel_stale_def)
  qed (use assms in \<open>simp_all add: changes_def\<close>)
qed

lemma commit_adds:
  assumes work: "works fmt cfg ss" and ok: "schema_ok d"
    and q: "upcoming fmt cfg (ss_request ss) (ss_past ss) n = Some (c, QCommit)"
    and view: "working m d (ss_work ss) = Some (Active d')"
    and new: "pickup_map d i = None" "pickup_map d' i = Some p"
  shows "\<exists>cp n1 n2 n3. ss_request ss = ReqCreatePickup cp i \<and> pk_HouseholdID p = cp_HouseholdID cp \<and>
    ss_past ss = [(n1, Inr RUnit), (n2, Inr (RBool False)), (n3, Inr RUnit)]"
proof -
  from working_Active [OF view] obtain lg where lg: "ss_work ss = Some (Live lg)" and run: "rerun m lg d = Some d'"
    by blast
  with work q have e: "lg = expected cfg (ss_request ss) (ss_past ss)"
    by (auto simp: works_def rolls_back_def)
  from upcoming_legal [OF q] consider
      (insert) cp j n1 n2 n3 where "ss_request ss = ReqCreatePickup cp j"
        "ss_past ss = [(n1, Inr RUnit), (n2, Inr (RBool False)), (n3, Inr RUnit)]"
    | (complete) k j n1 n2 n3 r where "ss_request ss = ReqCompletePickup k j"
        "ss_past ss = [(n1, Inr RUnit), (n2, Inr (RPickupOpt (Some r))), (n3, Inr RUnit)]"
    by (auto simp: legal_def)
  then show ?thesis
  proof cases
    case insert
    with run e have "rerun m [(QInsertPickup (new_pickup cp j n1), Inr RUnit)] d = Some d'"
      by (simp add: expected_def)
    from rerun_insert [OF this ok]
    have "facts d' = (facts d)\<lparr>st_pickups := (pickup_map d)(j \<mapsto> new_pickup cp j n1)\<rparr>"
      by (simp add: add_pickup_Inr new_pickup_def)
    from arg_cong [OF this, of "\<lambda>s. st_pickups s i"] new insert show ?thesis
      by (auto simp: new_pickup_def split: if_splits)
  next
    case complete
    with run e have "rerun m [(QComplete k n1, Inr (RPickupOpt (Some r))),
        (QInsertPayment (due (app_pricing cfg) j n1 r), Inr RUnit)] d = Some d'"
      by (simp add: expected_def)
    from rerun_complete [OF this ok] obtain s1 where
        c: "change_pickup k (\<lambda>p. pk_Status p = PickupScheduled) (completed_at n1) (facts d) = Inr (Some r, s1)"
      and y: "add_payment (due (app_pricing cfg) j n1 r) s1 = Inr ((), facts d')" by blast
    have "st_pickups (facts d') i = st_pickups s1 i" using y by (auto simp: add_payment_Inr)
    moreover have "st_pickups s1 i = None" if "st_pickups (facts d) i = None"
      using c that by (auto simp: change_pickup_Inr)
    ultimately have False using new by simp
    then show ?thesis ..
  qed
qed

lemma turn_adds:
  assumes turn: "turn fmt cfg n x s ss = Some (s', ss')" and work: "works fmt cfg ss" and ok: "schema_ok (sh_db s)"
    and new: "pickup_map (sh_db s) i = None" "pickup_map (sh_db s') i = Some p"
  shows "\<exists>cp n1 n2 n3. ss_request ss = ReqCreatePickup cp i \<and> pk_HouseholdID p = cp_HouseholdID cp \<and>
    ss_past ss = [(n1, Inr RUnit), (n2, Inr (RBool False)), (n3, Inr RUnit)]"
  using turn
proof (cases rule: turnE)
  case t: (1 c q a w)
  note legal = upcoming_legal [OF t(1)]
  have new': "pickup_map (wd_db w) i = Some p" using new t(3) by simp
  have "q = QCommit"
  proof (rule ccontr)
    assume not: "q \<noteq> QCommit"
    have "pickup_ids (wd_db w) = pickup_ids (sh_db s)"
    proof (cases "on_tables q")
      case True
      show ?thesis
      proof (cases c)
        case None
        with legal have "\<And>p. q \<noteq> QInsertPickup p" by (auto simp: legal_def)
        with perform_pool [OF t(2) [unfolded None] True] changes_pickups show ?thesis by auto
      next
        case (Some tx)
        from perform_tx [OF t(2) [unfolded Some] True] show ?thesis by simp
      qed
    next
      case False
      with not consider "q = QBegin" | "q = QRollback" by (auto simp: on_tables_def)
      then show ?thesis
      proof cases
        case 1
        from perform_begin [OF t(2) [unfolded 1]] show ?thesis by simp
      next
        case 2
        from perform_rollback [OF t(2) [unfolded 2]] show ?thesis by simp
      qed
    qed
    with new(1) new' pickup_ids_None show False by (metis option.distinct(1))
  qed
  with t(1,2) have q: "upcoming fmt cfg (ss_request ss) (ss_past ss) n = Some (c, QCommit)"
    and run: "perform (bucket_of cfg) QCommit c
      (at_site s (working (bucket_of cfg) (sh_db s) (ss_work ss)) x) = (a, w)" by simp_all
  have "wd_db w \<noteq> sh_db s" using new(1) new' by auto
  with perform_commit [OF run]
  have "working (bucket_of cfg) (sh_db s) (ss_work ss) = Some (Active (wd_db w))" by auto
  from commit_adds [OF work ok q this new(1) new'] show ?thesis .
qed

text \<open>What holds along a run of events.\<close>

lemma happens_promised:
  assumes "interleaved fmt cfg s" and "happens fmt cfg evs s = Some t" and "promised fmt cfg rq (facts (sh_db s))"
  shows "promised fmt cfg rq (facts (sh_db t))"
  using assms
proof (induction evs arbitrary: s)
  case (Cons ev evs)
  then obtain u where u: "happen fmt cfg ev s = Some u" "happens fmt cfg evs u = Some t"
    by (auto split: option.splits)
  have "promised fmt cfg rq (facts (sh_db u))"
    using promised_stable interleaved_kept [OF Cons(2) u(1)] Cons(4) by (auto simp: kept_def)
  then show ?case using Cons(1) interleaved.event [OF Cons(2) u(1)] u(2) by blast
qed simp

lemma happen_pickup:
  assumes "interleaved fmt cfg s" and "happen fmt cfg ev s = Some t" and "pickup_map (sh_db s) i = Some p"
  shows "\<exists>q. pickup_map (sh_db t) i = Some q \<and> pickup_move (untimed_pickup p) (untimed_pickup q)"
  using advances_pickup [of _ "facts (sh_db s)" "facts (sh_db t)"] interleaved_kept [OF assms(1,2)] assms(3)
  by (auto simp: kept_def)

lemma happen_payment:
  assumes "interleaved fmt cfg s" and "happen fmt cfg ev s = Some t" and "payment_map (sh_db s) j = Some y"
  shows "\<exists>z. payment_map (sh_db t) j = Some z \<and> payment_move (untimed_payment y) (untimed_payment z)"
  using advances_payment [of _ "facts (sh_db s)" "facts (sh_db t)"] interleaved_kept [OF assms(1,2)] assms(3)
  by (auto simp: kept_def)

lemma one_payment:
  assumes "interleaved fmt cfg s" and "payment_map (sh_db s) j = Some y" and "payment_map (sh_db s) k = Some z"
    and "pm_WasteID y = pm_WasteID z"
  shows "j = k"
proof -
  have good: "good_store (app_pricing cfg) (timeless (facts (sh_db s)))"
    using interleaved_fine [OF assms(1)] by (simp add: fine_def)
  show ?thesis by (rule good_storeD(3) [OF good, of j "untimed_payment y" k "untimed_payment z"]) (simp_all add: assms)
qed

lemma paid_for:
  assumes "interleaved fmt cfg s" and "pickup_map (sh_db s) i = Some p" and "pk_Status p = PickupCompleted"
  shows "\<exists>j y. payment_map (sh_db s) j = Some y \<and> pm_WasteID y = i \<and>
    pm_HouseholdID y = pk_HouseholdID p \<and> pm_Amount y = cents (AmountFor (app_pricing cfg) (pk_Type p))"
proof -
  from interleaved_pickup [OF assms(1,2)] assms(3) obtain y where y: "y \<in> ran (payment_map (sh_db s))" "pm_WasteID y = i"
    by (auto simp: good_pickup_def)
  then obtain j where j: "payment_map (sh_db s) j = Some y" by (auto simp: ran_def)
  from interleaved_payment [OF assms(1) j] assms(2) y(2)
  have "pm_HouseholdID y = pk_HouseholdID p" "pm_Amount y = cents (AmountFor (app_pricing cfg) (pk_Type p))"
    by (auto simp: good_payment_def)
  with j y(2) show ?thesis by blast
qed

lemma adds_checked:
  assumes run: "happens fmt cfg evs (at_start now) = Some s" and ev: "happen fmt cfg ev s = Some t"
    and new: "pickup_map (sh_db s) i = None" "pickup_map (sh_db t) i = Some p"
  shows "\<exists>cp. pk_HouseholdID p = cp_HouseholdID cp \<and> was_clear fmt cfg evs (at_start now) cp i"
proof (cases ev)
  case (Turn k n x)
  have sound: "sessions.all_hold cfg fmt s (sh_sessions s)"
    using interleaved_sound [OF interleaved_happens [OF run interleaved.at_start]] .
  from Turn ev obtain s' ss where k: "k < length (sh_sessions s)"
    and turn: "turn fmt cfg n x s (sh_sessions s ! k) = Some (s', ss)" and t: "sh_db t = sh_db s'"
    by (auto simp: Let_def split: if_splits option.splits)
  from sound k have "works fmt cfg (sh_sessions s ! k)" "schema_ok (sh_db s)"
    by (auto simp: sessions.all_hold_def list_all_iff sound_def fine_def)
  from turn_adds [OF turn this new(1)] new(2) t obtain cp n1 n2 n3 where
      "ss_request (sh_sessions s ! k) = ReqCreatePickup cp i" "pk_HouseholdID p = cp_HouseholdID cp"
      "ss_past (sh_sessions s ! k) = [(n1, Inr RUnit), (n2, Inr (RBool False)), (n3, Inr RUnit)]" by auto
  moreover have "checked fmt cfg evs (at_start now) (sh_sessions s ! k)" using happens_checked [OF run] k by simp
  ultimately show ?thesis unfolding checked_def by blast
qed (use ev new in \<open>auto split: if_splits\<close>)

section \<open>Requests that exclude each other\<close>

text \<open>
  The same pickup completed twice, completed and canceled, or completed with one payment and
  charged by hand with another; a pickup charged twice by hand; a payment confirmed with two proofs.
\<close>

fun conflicting :: "(uuid \<Rightarrow> string) \<Rightarrow> request \<Rightarrow> request \<Rightarrow> bool" where
  "conflicting fmt (ReqCompletePickup i j) (ReqCompletePickup i' j') \<longleftrightarrow> i = i' \<and> j \<noteq> j'"
| "conflicting fmt (ReqCompletePickup i j) (ReqCancelPickup i') \<longleftrightarrow> i = i'"
| "conflicting fmt (ReqCancelPickup i) (ReqCompletePickup i' j) \<longleftrightarrow> i = i'"
| "conflicting fmt (ReqCompletePickup i j) (ReqCreatePayment cy j') \<longleftrightarrow> i = cy_WasteID cy \<and> j \<noteq> j'"
| "conflicting fmt (ReqCreatePayment cy j) (ReqCompletePickup i j') \<longleftrightarrow> i = cy_WasteID cy \<and> j \<noteq> j'"
| "conflicting fmt (ReqCreatePayment cy j) (ReqCreatePayment cy' j') \<longleftrightarrow>
     cy_WasteID cy = cy_WasteID cy' \<and> j \<noteq> j'"
| "conflicting fmt (ReqConfirmPayment i ci j) (ReqConfirmPayment i' ci' j') \<longleftrightarrow>
     i = i' \<and> proof_key fmt i j (ci_ContentType ci) \<noteq> proof_key fmt i j' (ci_ContentType ci')"
| "conflicting fmt rq rq' \<longleftrightarrow> False"

lemma promises_agree:
  assumes "interleaved fmt cfg s" and "promised fmt cfg rq (facts (sh_db s))" and "promised fmt cfg rq' (facts (sh_db s))"
  shows "\<not> conflicting fmt rq rq'"
proof
  assume "conflicting fmt rq rq'"
  then show False
    by (cases "(fmt, rq, rq')" rule: conflicting.cases)
      (use assms(2,3) one_payment [OF assms(1)] in
        \<open>auto simp: promised_def object_url_def type_defs\<close>)
qed

end
