(* ===== verification/Serial.thy ===== *)
theory Serial
  imports Overlap
begin

text \<open>
  A request that no other one overlaps: its turns, one after the other, do to the tables and the
  object store what the use case does, under every script of outcomes.
\<close>

section \<open>What a call depends on\<close>

definition view :: "world \<Rightarrow> db \<times> tx_state option \<times> blob list \<times> outcome" where
  "view w = (wd_db w, wd_tx w, wd_blobs w, fst (next_outcome w))"

definition left_behind :: "world \<Rightarrow> db \<times> tx_state option \<times> blob list" where
  "left_behind w = (wd_db w, wd_tx w, wd_blobs w)"

lemma next_outcome_sel [simp]:
  "wd_db (snd (next_outcome w)) = wd_db w" "wd_tx (snd (next_outcome w)) = wd_tx w"
  "wd_blobs (snd (next_outcome w)) = wd_blobs w" "wd_now (snd (next_outcome w)) = wd_now w"
  by (simp_all add: next_outcome_def split: list.split)

lemma same_outcome:
  assumes "view v = view w"
  obtains x v' w' where "next_outcome v = (x, v')" "next_outcome w = (x, w')"
    "wd_db v = wd_db w" "wd_tx v = wd_tx w" "wd_blobs v = wd_blobs w"
    "wd_db v' = wd_db w" "wd_tx v' = wd_tx w" "wd_blobs v' = wd_blobs w"
    "wd_db w' = wd_db w" "wd_tx w' = wd_tx w" "wd_blobs w' = wd_blobs w"
  using assms next_outcome_sel [of v] next_outcome_sel [of w]
  by (cases "next_outcome v"; cases "next_outcome w") (auto simp: view_def)

lemmas wire_defs = left_behind_def call_def Executor_def txFromContext_def on_pool_def on_tx_def
  pool_Begin_def tx_Commit_def tx_Rollback_def commit_response_def wrap_def MinIO_Put_def PutObject_def Let_def

lemmas wire_splits = outcome.splits sum.splits option.splits tx_state.splits prod.splits if_splits

lemma call_view:
  assumes "view v = view w"
  shows "fst (call st onerr onok c v) = fst (call st onerr onok c w) \<and>
    left_behind (snd (call st onerr onok c v)) = left_behind (snd (call st onerr onok c w))"
  using assms by (rule same_outcome) (auto simp: wire_defs split: wire_splits)

lemma wrap_view:
  "fst (wrap R x) = map_sum id R (fst x)" "snd (wrap R x) = snd x"
  by (auto simp: wrap_def split: prod.split sum.split)

lemma perform_view:
  assumes "view v = view w"
  shows "fst (perform m q c v) = fst (perform m q c w) \<and>
    left_behind (snd (perform m q c v)) = left_behind (snd (perform m q c w))"
proof -
  have "fst (MinIO_Put m c key r sz ct v) = fst (MinIO_Put m c key r sz ct w) \<and>
      left_behind (snd (MinIO_Put m c key r sz ct v)) = left_behind (snd (MinIO_Put m c key r sz ct w))" for key r sz ct
    using assms by (rule same_outcome) (auto simp: wire_defs split: outcome.splits)
  moreover have "fst (pool_Begin v) = fst (pool_Begin w) \<and> left_behind (snd (pool_Begin v)) = left_behind (snd (pool_Begin w))"
    using assms by (rule same_outcome) (auto simp: wire_defs split: outcome.splits)
  moreover have "fst (commit_response (tx_Commit v)) = fst (commit_response (tx_Commit w)) \<and>
      left_behind (snd (commit_response (tx_Commit v))) = left_behind (snd (commit_response (tx_Commit w)))"
    using assms by (rule same_outcome) (auto simp: wire_defs split: wire_splits)
  moreover have "left_behind (tx_Rollback v) = left_behind (tx_Rollback w)"
    using assms by (rule same_outcome) (auto simp: wire_defs)
  ultimately show ?thesis
    by (cases q) (simp_all add: wrap_view all_calls call_view [OF assms])
qed

text \<open>A call leaves the clock alone and uses up outcomes of the script only.\<close>

lemma next_outcome_net: "set (wd_net (snd (next_outcome w))) \<subseteq> set (wd_net w)"
  by (auto simp: next_outcome_def split: list.splits)

lemma call_script:
  "wd_now (snd (call st onerr onok c w)) = wd_now w \<and>
   set (wd_net (snd (call st onerr onok c w))) \<subseteq> set (wd_net w)"
  using next_outcome_net [of w] next_outcome_sel [of w]
  by (cases "next_outcome w") (auto simp: wire_defs split: wire_splits)

lemma perform_script:
  "wd_now (snd (perform m q c w)) = wd_now w \<and> set (wd_net (snd (perform m q c w))) \<subseteq> set (wd_net w)"
proof -
  have "wd_now (snd (MinIO_Put m c key r sz ct w)) = wd_now w \<and>
      set (wd_net (snd (MinIO_Put m c key r sz ct w))) \<subseteq> set (wd_net w)" for key r sz ct
    using next_outcome_net [of w] next_outcome_sel [of w]
    by (cases "next_outcome w") (auto simp: wire_defs split: outcome.splits)
  moreover have "wd_now (snd (pool_Begin w)) = wd_now w \<and> set (wd_net (snd (pool_Begin w))) \<subseteq> set (wd_net w)"
    using next_outcome_net [of w] next_outcome_sel [of w]
    by (cases "next_outcome w") (auto simp: wire_defs split: outcome.splits)
  moreover have "wd_now (snd (commit_response (tx_Commit w))) = wd_now w \<and>
      set (wd_net (snd (commit_response (tx_Commit w)))) \<subseteq> set (wd_net w)"
    using next_outcome_net [of w] next_outcome_sel [of w]
    by (cases "next_outcome w") (auto simp: wire_defs split: wire_splits)
  moreover have "wd_now (tx_Rollback w) = wd_now w \<and> set (wd_net (tx_Rollback w)) \<subseteq> set (wd_net w)"
    using next_outcome_net [of w] next_outcome_sel [of w] by (simp add: wire_defs)
  ultimately show ?thesis
    by (cases q) (simp_all add: wrap_view all_calls call_script)
qed

section \<open>The open transaction is what its statements make\<close>

lemma rerun_append:
  "rerun m (lg @ lg') d = (case rerun m lg d of None \<Rightarrow> None | Some d' \<Rightarrow> rerun m lg' d')"
  by (induction lg arbitrary: d) (auto split: prod.split option.split tx_state.split)

lemma wrap_amid:
  assumes "wrap R (call st onerr onok (Some t) w) = (a, w')"
    and "wd_tx w = Some (Active d)" and "wd_tx w' = Some (Active d')"
  shows "wrap R (call st onerr onok (Some OpenTx) (amid d)) = (a, (amid d)\<lparr>wd_tx := Some (Active d')\<rparr>)"
proof -
  from assms(1) obtain r where r: "call st onerr onok (Some t) w = (r, w')" and a: "a = map_sum id R r"
    by (auto simp: wrap_split)
  from call_tx [OF r] assms(2,3) obtain b where "st d = Inr (b, d')" "r = onok b" by auto
  with a show ?thesis by (simp add: wire_defs amid_def next_outcome_def split: sum.split)
qed

lemma perform_amid:
  assumes "perform m q (Some t) w = (a, w')" and "wd_tx w = Some (Active d)" and "wd_tx w' = Some (Active d')"
    and "d \<noteq> d'" and "on_tables q"
  shows "perform m q (Some OpenTx) (amid d) = (a, (amid d)\<lparr>wd_tx := Some (Active d')\<rparr>)"
proof (cases "\<exists>key r sz ct. q = QPut key r sz ct")
  case True
  with assms show ?thesis by (auto simp: wrap_split dest!: MinIO_Put_tables)
next
  case False
  note amid = wrap_amid [OF _ assms(2,3)]
  from assms(1,5) False show ?thesis
    by (cases q) (simp_all add: on_tables_def all_calls amid)
qed

lemma tx_cases:
  obtains (none) "t = None" | (aborted) "t = Some Aborted" | (active) d where "t = Some (Active d)"
  by (cases t) (auto intro: tx_state.exhaust)

lemma working_follows:
  assumes run: "perform m q c (at_site s (working m (sh_db s) wk) x) = (a, w)"
    and c: "c = Some OpenTx \<and> on_tables q \<or> c = None \<and> (wk = None \<or> q = QCommit \<or> q = QRollback)"
  shows "working m (wd_db w) (work_after wk (working m (sh_db s) wk) q a (wd_tx w)) = wd_tx w"
proof (cases "c = None")
  case True
  show ?thesis
  proof (cases "on_tables q")
    case True
    with c \<open>c = None\<close> have "wk = None" by (auto simp: on_tables_def)
    with perform_pool [OF run [unfolded \<open>c = None\<close>] True] show ?thesis by simp
  next
    case False
    with c \<open>c = None\<close> consider "q = QBegin" "wk = None" | "q = QCommit" | "q = QRollback"
      by (auto simp: on_tables_def)
    then show ?thesis
    proof cases
      case 1
      with perform_begin [OF run [unfolded 1]] show ?thesis by (auto simp: work_after_def working_def)
    next
      case 2
      from perform_commit [OF run [unfolded 2]] show ?thesis by simp
    next
      case 3
      from perform_rollback [OF run [unfolded 3]] show ?thesis by simp
    qed
  qed
next
  case False
  with c have c: "c = Some OpenTx" and q: "on_tables q" by auto
  from perform_tx [OF run [unfolded c] q] have db: "wd_db w = sh_db s"
    and tx: "wd_tx w = working m (sh_db s) wk \<or> wd_tx w = Some Aborted \<or>
      (\<exists>d d'. working m (sh_db s) wk = Some (Active d) \<and> wd_tx w = Some (Active d'))" by auto
  show ?thesis
  proof (cases "\<exists>d d'. working m (sh_db s) wk = Some (Active d) \<and> wd_tx w = Some (Active d') \<and> d \<noteq> d'")
    case True
    then obtain d d' where d: "working m (sh_db s) wk = Some (Active d)" "wd_tx w = Some (Active d')" "d \<noteq> d'"
      by blast
    from working_Active [OF d(1)] obtain lg where lg: "wk = Some (Live lg)" "rerun m lg (sh_db s) = Some d"
      by blast
    from perform_amid [OF run [unfolded c] _ d(2,3) q] d(1)
    have "perform m q (Some OpenTx) (amid d) = (a, (amid d)\<lparr>wd_tx := Some (Active d')\<rparr>)" by simp
    with lg d db show ?thesis by (simp add: work_after_def working_def rerun_append)
  next
    case False
    with tx have "wd_tx w = working m (sh_db s) wk \<or> wd_tx w = Some Aborted" by auto
    then show ?thesis
    proof
      assume same: "wd_tx w = working m (sh_db s) wk"
      show ?thesis
      proof (cases "working m (sh_db s) wk" rule: tx_cases)
        case (active d)
        with working_Active obtain lg where "wk = Some (Live lg)" by blast
        with same active db show ?thesis by (simp add: work_after_def)
      qed (simp_all add: same)
    qed simp
  qed
qed

section \<open>In step\<close>

lemma open_logs_append [simp]: "open_logs (xs @ ys) = open_logs xs @ open_logs ys"
  by (simp add: open_logs_def)

lemma open_logs_simps [simp]:
  "open_logs [] = []" "ss_work ss = None \<Longrightarrow> open_logs (ss # sss) = open_logs sss"
  "ss_work ss = Some Dead \<Longrightarrow> open_logs (ss # sss) = open_logs sss"
  "ss_work ss = Some (Live lg) \<Longrightarrow> open_logs (ss # sss) = lg # open_logs sss"
  by (simp_all add: open_logs_def)

text \<open>Session \<open>k\<close> is where the use case is in the world \<open>w\<close>, and no other has an open transaction.\<close>

definition abreast :: "Config \<Rightarrow> nat \<Rightarrow> shared \<Rightarrow> world \<Rightarrow> bool" where
  "abreast cfg k s w \<longleftrightarrow>
     k < length (sh_sessions s) \<and> sh_db s = wd_db w \<and> sh_blobs s = wd_blobs w \<and> sh_now s = wd_now w \<and>
     ss_since (sh_sessions s ! k) \<le> sh_now s \<and> net_ok w \<and>
     working (bucket_of cfg) (sh_db s) (ss_work (sh_sessions s ! k)) = wd_tx w \<and>
     open_logs (take k (sh_sessions s)) = [] \<and> open_logs (drop (Suc k) (sh_sessions s)) = []"

lemma net_ok_head: "net_ok w \<Longrightarrow> outcome_ok (fst (next_outcome w))"
  by (auto simp: net_ok_def next_outcome_def outcome_ok_def split: list.split)

lemma upcoming_context:
  assumes "upcoming fmt cfg (ss_request ss) (ss_past ss) n = Some (c, q)" and "works fmt cfg ss"
  shows "c = Some OpenTx \<and> on_tables q \<or> c = None \<and> (ss_work ss = None \<or> q = QCommit \<or> q = QRollback)"
  using upcoming_legal [OF assms(1)] assms(2)
  by (cases q) (auto simp: legal_def works_def on_tables_def transactional_def)

lemma undisturbed_alone:
  assumes "open_logs (sh_sessions s) = [] \<or> (\<exists>lg. open_logs (sh_sessions s) = [lg] \<and> rerun m lg (sh_db s) \<noteq> None)"
  shows "undisturbed m s"
  using assms by (auto simp: undisturbed_def Let_def)

lemma turn_in_step:
  assumes step: "abreast cfg k s w" and ss: "sh_sessions s ! k = ss" and works: "works fmt cfg ss"
    and up: "upcoming fmt cfg (ss_request ss) (ss_past ss) (wd_now w) = Some (c, q)"
    and run: "perform (bucket_of cfg) q c w = (a, w')"
  shows "\<exists>t. happen fmt cfg (Turn k (wd_now w) (fst (next_outcome w))) s = Some t \<and> abreast cfg k t w' \<and>
    length (sh_sessions t) = length (sh_sessions s) \<and>
    ss_request (sh_sessions t ! k) = ss_request ss \<and> ss_past (sh_sessions t ! k) = ss_past ss @ [(wd_now w, a)]"
proof -
  let ?m = "bucket_of cfg" and ?x = "fst (next_outcome w)"
  let ?before = "working ?m (sh_db s) (ss_work ss)"
  define v where "v = at_site s ?before ?x"
  have before: "?before = wd_tx w" using step unfolding abreast_def ss by blast
  have "view v = view w"
    using step before by (simp add: view_def v_def at_site_def abreast_def next_outcome_def)
  from perform_view [OF this, of ?m q c] run obtain v' where v': "perform ?m q c v = (a, v')"
    and same: "wd_db v' = wd_db w'" "wd_tx v' = wd_tx w'" "wd_blobs v' = wd_blobs w'"
    by (cases "perform ?m q c v") (auto simp: left_behind_def)
  define ss' where "ss' = ss\<lparr>ss_past := ss_past ss @ [(wd_now w, a)],
    ss_work := work_after (ss_work ss) ?before q a (wd_tx w'), ss_since := sh_now s\<rparr>"
  define t where "t = s\<lparr>sh_db := wd_db w', sh_blobs := wd_blobs w', sh_sessions := (sh_sessions s)[k := ss']\<rparr>"
  have k: "k < length (sh_sessions s)" and now: "sh_now s = wd_now w" and since: "ss_since ss \<le> wd_now w"
    using step ss by (auto simp: abreast_def)
  have turn: "turn fmt cfg (wd_now w) ?x s ss = Some (s\<lparr>sh_db := wd_db w', sh_blobs := wd_blobs w'\<rparr>, ss')"
    using since now net_ok_head [of w] step up v' same
    by (simp add: turn_def Let_def abreast_def v_def ss'_def)
  have view: "working ?m (wd_db w') (ss_work ss') = wd_tx w'"
    using working_follows [OF v' [unfolded v_def] upcoming_context [OF up works]] same by (simp add: ss'_def)
  have logs: "open_logs (sh_sessions t) = open_logs [ss']"
    using step k by (simp add: t_def upd_conv_take_nth_drop abreast_def)
      (cases "ss_work ss'"; cases "the (ss_work ss')"; simp)
  have "undisturbed ?m t"
  proof (rule undisturbed_alone, cases "ss_work ss'")
    case (Some wk)
    then show "open_logs (sh_sessions t) = [] \<or>
        (\<exists>lg. open_logs (sh_sessions t) = [lg] \<and> rerun ?m lg (sh_db t) \<noteq> None)"
    proof (cases wk)
      case (Live lg)
      with Some have "\<exists>d. wd_tx w' = Some (Active d)"
        by (auto simp: ss'_def work_after_def split: option.splits tx_state.splits)
      with view Some Live have "rerun ?m lg (sh_db t) \<noteq> None"
        by (auto simp: working_def t_def split: option.splits)
      with logs Some Live show ?thesis by simp
    qed (simp add: logs)
  qed (simp add: logs)
  with turn k ss have "happen fmt cfg (Turn k (wd_now w) ?x) s = Some t" by (simp add: t_def)
  moreover have "abreast cfg k t w'"
    using step k view perform_script [of ?m q c w] run
    by (auto simp: abreast_def t_def net_ok_def ss'_def)
  ultimately show ?thesis using k by (simp add: t_def ss'_def)
qed

lemma abreast_works:
  assumes "interleaved fmt cfg s" and "abreast cfg k s w"
  shows "works fmt cfg (sh_sessions s ! k)"
  using interleaved_sound [OF assms(1)] assms(2)
  by (auto simp: sessions.all_hold_def list_all_iff sound_def abreast_def)

lemma alone_follows:
  assumes "interleaved fmt cfg s" and "abreast cfg k s w" and "ss_request (sh_sessions s ! k) = rq"
    and "alone n fmt cfg rq (ss_past (sh_sessions s ! k)) w = (r, w')"
  shows "\<exists>evs t. happens fmt cfg evs s = Some t \<and> abreast cfg k t w' \<and>
    length (sh_sessions t) = length (sh_sessions s) \<and> ss_request (sh_sessions t ! k) = rq \<and>
    outcome_of fmt cfg rq (ss_past (sh_sessions t ! k)) = r"
  using assms
proof (induction n arbitrary: s w)
  case 0
  then show ?case by (intro exI [of _ "[]"] exI [of _ s]) simp
next
  case (Suc n)
  let ?ss = "sh_sessions s ! k"
  show ?case
  proof (cases "upcoming fmt cfg rq (ss_past ?ss) (wd_now w)")
    case None
    with Suc.prems show ?thesis by (intro exI [of _ "[]"] exI [of _ s]) simp
  next
    case (Some cq)
    then obtain c q where up: "upcoming fmt cfg rq (ss_past ?ss) (wd_now w) = Some (c, q)" by (cases cq) simp
    obtain a w1 where run: "perform (bucket_of cfg) q c w = (a, w1)" by (cases "perform (bucket_of cfg) q c w") simp
    from turn_in_step [OF Suc.prems(2) refl abreast_works [OF Suc.prems(1,2)] _ run] up Suc.prems(3)
    obtain t where t: "happen fmt cfg (Turn k (wd_now w) (fst (next_outcome w))) s = Some t" "abreast cfg k t w1"
        "length (sh_sessions t) = length (sh_sessions s)" "ss_request (sh_sessions t ! k) = rq"
        "ss_past (sh_sessions t ! k) = ss_past ?ss @ [(wd_now w, a)]"
      by metis
    have "alone n fmt cfg rq (ss_past (sh_sessions t ! k)) w1 = (r, w')"
      using Suc.prems(4) up run t(5) by (simp add: bucket_of_def)
    from Suc.IH [OF interleaved.event [OF Suc.prems(1) t(1)] t(2,4) this] obtain evs u where
        "happens fmt cfg evs t = Some u" "abreast cfg k u w'" "length (sh_sessions u) = length (sh_sessions t)"
        "ss_request (sh_sessions u ! k) = rq" "outcome_of fmt cfg rq (ss_past (sh_sessions u ! k)) = r" by blast
    with t(1,3) show ?thesis
      by (intro exI [of _ "Turn k (wd_now w) (fst (next_outcome w)) # evs"] exI [of _ u]) simp
  qed
qed

lemma served_in_turn:
  assumes "interleaved fmt cfg s" and quiet: "open_logs (sh_sessions s) = []" and "list_all outcome_ok xs"
    and run: "answer fmt cfg rq \<lparr>wd_db = sh_db s, wd_tx = None, wd_net = xs, wd_now = sh_now s,
      wd_blobs = sh_blobs s\<rparr> = (r, w)"
  shows "\<exists>evs t. happens fmt cfg (Arrive rq # evs) s = Some t \<and> sh_db t = wd_db w \<and> sh_blobs t = wd_blobs w \<and>
    length (sh_sessions t) = Suc (length (sh_sessions s)) \<and>
    ss_request (last (sh_sessions t)) = rq \<and> outcome_of fmt cfg rq (ss_past (last (sh_sessions t))) = r"
proof -
  let ?k = "length (sh_sessions s)"
  define s1 where "s1 = s\<lparr>sh_sessions := sh_sessions s @
    [\<lparr>ss_request = rq, ss_past = [], ss_work = None, ss_since = sh_now s\<rparr>]\<rparr>"
  have arrive: "happen fmt cfg (Arrive rq) s = Some s1" by (simp add: s1_def)
  let ?w = "\<lparr>wd_db = sh_db s, wd_tx = None, wd_net = xs, wd_now = sh_now s, wd_blobs = sh_blobs s\<rparr>"
  have "abreast cfg ?k s1 ?w"
    using quiet assms(3) by (simp add: abreast_def s1_def net_ok_def list_all_iff)
  moreover have "alone 5 fmt cfg rq (ss_past (sh_sessions s1 ! ?k)) ?w = (r, w)"
    using run by (simp add: s1_def alone_answer)
  ultimately obtain evs t where t: "happens fmt cfg evs s1 = Some t" "abreast cfg ?k t w"
      "length (sh_sessions t) = length (sh_sessions s1)" "ss_request (sh_sessions t ! ?k) = rq"
      "outcome_of fmt cfg rq (ss_past (sh_sessions t ! ?k)) = r"
    using alone_follows [OF interleaved.event [OF assms(1) arrive], of ?k ?w rq 5 r w] by (auto simp: s1_def)
  have "last (sh_sessions t) = sh_sessions t ! ?k"
    using t(3) by (subst last_conv_nth) (auto simp: s1_def)
  with t arrive show ?thesis
    by (intro exI [of _ evs] exI [of _ t]) (simp add: abreast_def s1_def)
qed

end
