(* ===== verification/Progress.thy ===== *)
theory Progress
  imports Serial
begin

text \<open>
  Nobody waits for ever: in every state of every interleaving some unfinished request can
  make its next call on a healthy connection, so all requests can be brought to their end. Which
  transactions exclude each other is read off from what their statements claim: the id of a new
  pickup or payment, the scheduled row that is completed, the pickup that is charged.
\<close>

section \<open>Statements of a log\<close>

lemma rerun_call:
  assumes "\<And>w. perform m q (Some OpenTx) w = wrap R (call st onerr onok (Some OpenTx) w)"
  shows "rerun m [(q, Inr v)] d = Some d' \<longleftrightarrow> (\<exists>a r. st d = Inr (a, d') \<and> onok a = Inr r \<and> v = R r)"
  by (auto simp: assms wire_defs amid_def next_outcome_def split: sum.splits)

lemma rerun_insert_pickup:
  "rerun m [(QInsertPickup p, Inr RUnit)] d = Some d' \<longleftrightarrow> sql_insert_pickup (pickup_row p) d = Inr ((), d')"
  by (subst rerun_call) (auto simp: all_calls unit_reply_def)

lemma rerun_insert_payment:
  "rerun m [(QInsertPayment y, Inr RUnit)] d = Some d' \<longleftrightarrow>
     sql_insert_payment (pm_Amount y) (payment_row y) d = Inr ((), d')"
  by (subst rerun_call) (auto simp: all_calls unit_reply_def)

lemma rerun_update:
  "rerun m [(QComplete i n, Inr (RPickupOpt (Some p)))] d = Some d' \<longleftrightarrow>
     opt_row pickupRow_toDomain (map (complete_set n) (filter (\<lambda>r. pw_id r = i \<and> complete_guard r) (tb_pickups d))) =
       Inr (Some p) \<and>
     d' = d\<lparr>tb_pickups := update_where (\<lambda>r. pw_id r = i \<and> complete_guard r) (complete_set n) (tb_pickups d)\<rparr>"
  by (subst rerun_call) (auto simp: all_calls sql_update_pickup_def)

section \<open>Claims of a statement\<close>

datatype resource = NewPickup uuid | OpenPickup uuid | NewPayment uuid | Charge uuid

fun foot :: "query \<times> response \<Rightarrow> resource set" where
  "foot (QInsertPickup p, a) = {NewPickup (pk_ID p)}"
| "foot (QComplete i n, a) = {OpenPickup i}"
| "foot (QInsertPayment y, a) = {NewPayment (pm_ID y), Charge (pm_WasteID y)}"
| "foot (q, a) = {}"

definition feet :: "(query \<times> response) list \<Rightarrow> resource set" where
  "feet lg = (\<Union>e \<in> set lg. foot e)"

inductive entry :: "query \<times> response \<Rightarrow> bool" where
  inserted: "pk_Status p = PickupPending \<Longrightarrow> entry (QInsertPickup p, Inr RUnit)"
| completed: "entry (QComplete i n, Inr (RPickupOpt (Some p)))"
| charged: "entry (QInsertPayment y, Inr RUnit)"

definition runs :: "MinIO \<Rightarrow> query \<times> response \<Rightarrow> db \<Rightarrow> bool" where
  "runs m e d \<longleftrightarrow> rerun m [e] d \<noteq> None"

lemma runs_iff:
  "runs m (QInsertPickup p, Inr RUnit) d \<longleftrightarrow>
     pg_text (pk_Type p) \<and> pg_text (pk_Status p) \<and> check_pickup_type (pk_Type p) \<and> check_pickup_status (pk_Status p) \<and>
     pk_ID p \<notin> pickup_ids d \<and> pk_HouseholdID p \<in> hw_id ` set (tb_households d)"
  "runs m (QComplete i n, Inr (RPickupOpt (Some q))) d \<longleftrightarrow>
     opt_row pickupRow_toDomain (map (complete_set n) (filter (\<lambda>r. pw_id r = i \<and> complete_guard r) (tb_pickups d))) =
       Inr (Some q)"
  "runs m (QInsertPayment y, Inr RUnit) d \<longleftrightarrow>
     pg_text (pm_Status y) \<and> text_arg_ok (pm_ProofFileURL y) \<and> fits_numeric_14_2 (pm_Amount y) \<and>
     check_payment_status (pm_Status y) \<and> pm_ID y \<notin> yw_id ` set (tb_payments d) \<and>
     pm_WasteID y \<notin> yw_waste_id ` set (tb_payments d) \<and>
     pm_HouseholdID y \<in> hw_id ` set (tb_households d) \<and> pm_WasteID y \<in> pickup_ids d"
  unfolding runs_def not_None_eq rerun_insert_pickup rerun_insert_payment rerun_update
  by (simp_all add: sql_insert_pickup_def sql_insert_payment_def pickup_row_def payment_row_def pickup_ids_def) blast+

lemma scheduled_after:
  "filter (\<lambda>r. pw_id r = j \<and> complete_guard r) (update_where (\<lambda>r. pw_id r = i \<and> complete_guard r) (complete_set n) rs) =
     (if i = j then [] else filter (\<lambda>r. pw_id r = j \<and> complete_guard r) rs)"
  by (induction rs) (auto simp: complete_set_def complete_guard_def type_defs)

text \<open>After one statement of a log another one still runs exactly when they claim different things.\<close>

lemma runs_after:
  assumes "entry e" and "entry f" and "rerun m [e] d = Some d'" and "runs m f d"
  shows "runs m f d' \<longleftrightarrow> foot e \<inter> foot f = {}"
  using assms(1)
proof cases
  case (inserted p)
  have d': "d' = d\<lparr>tb_pickups := tb_pickups d @ [pickup_row p]\<rparr>"
    using assms(3) unfolding inserted rerun_insert_pickup
    by (auto simp: sql_insert_pickup_def split: if_splits)
  have "\<not> complete_guard (pickup_row p)" "pw_id (pickup_row p) = pk_ID p"
    using inserted(2) by (simp_all add: complete_guard_def pickup_row_def type_defs)
  with assms(2,4) show ?thesis
    unfolding d' inserted by cases (auto simp: runs_iff pickup_ids_def)
next
  case (completed i n p)
  have d': "d' = d\<lparr>tb_pickups := update_where (\<lambda>r. pw_id r = i \<and> complete_guard r) (complete_set n) (tb_pickups d)\<rparr>"
    using assms(3) unfolding completed rerun_update by simp
  have "pickup_ids d' = pickup_ids d" unfolding d' by (rule ids_update_where) (simp add: complete_set_def)
  with assms(2,4) show ?thesis
    unfolding completed by cases (auto simp: runs_iff d' scheduled_after opt_row_def)
next
  case (charged y)
  have d': "d' = d\<lparr>tb_payments := tb_payments d @ [payment_row y\<lparr>yw_amount := hundredths (pm_Amount y)\<rparr>]\<rparr>"
    using assms(3) unfolding charged rerun_insert_payment
    by (auto simp: sql_insert_payment_def split: if_splits)
  with assms(2,4) show ?thesis
    unfolding charged by cases (auto simp: runs_iff payment_row_def)
qed

section \<open>Logs\<close>

inductive shaped :: "(query \<times> response) list \<Rightarrow> bool" where
  none: "shaped []"
| one: "entry e \<Longrightarrow> shaped [e]"
| both: "shaped [(QComplete i n, Inr (RPickupOpt (Some p))), (QInsertPayment y, Inr RUnit)]"

lemma rerun_two: "rerun m [e, f] d = (case rerun m [e] d of None \<Rightarrow> None | Some d' \<Rightarrow> rerun m [f] d')"
  using rerun_append [of m "[e]" "[f]" d] by simp

lemma shaped_entries: "shaped lg \<Longrightarrow> list_all entry lg"
  by (induction rule: shaped.induct) (auto intro: entry.intros)

lemma complete_keeps:
  assumes "rerun m [(QComplete i n, Inr (RPickupOpt (Some p)))] d = Some d'"
  shows "runs m (QInsertPayment y, Inr RUnit) d' \<longleftrightarrow> runs m (QInsertPayment y, Inr RUnit) d"
proof -
  have d': "d' = d\<lparr>tb_pickups := update_where (\<lambda>r. pw_id r = i \<and> complete_guard r) (complete_set n) (tb_pickups d)\<rparr>"
    using assms unfolding rerun_update by simp
  have "pickup_ids d' = pickup_ids d" unfolding d' by (rule ids_update_where) (simp add: complete_set_def)
  then show ?thesis by (simp add: runs_iff d')
qed

lemma charge_keeps:
  assumes "rerun m [(QInsertPayment y, Inr RUnit)] d = Some d'"
  shows "runs m (QComplete i n, Inr (RPickupOpt (Some p))) d' \<longleftrightarrow> runs m (QComplete i n, Inr (RPickupOpt (Some p))) d"
  using assms unfolding rerun_insert_payment runs_iff
  by (auto simp: sql_insert_payment_def split: if_splits)

lemma rerun_shaped:
  assumes "shaped lg"
  shows "rerun m lg d \<noteq> None \<longleftrightarrow> list_all (\<lambda>e. runs m e d) lg"
  using assms
proof cases
  case (both i n p y)
  show ?thesis
  proof (cases "rerun m [(QComplete i n, Inr (RPickupOpt (Some p)))] d")
    case None
    then show ?thesis unfolding both rerun_two by (simp add: runs_def)
  next
    case (Some d')
    with complete_keeps [OF Some, of y] show ?thesis unfolding both rerun_two by (simp add: runs_def)
  qed
qed (simp_all add: runs_def)

lemma shaped_after:
  assumes "shaped lg" and f: "entry f" "runs m f d" and run: "rerun m lg d = Some d'"
  shows "runs m f d' \<longleftrightarrow> feet lg \<inter> foot f = {}"
  using assms(1)
proof cases
  case none
  with run f show ?thesis by (simp add: feet_def)
next
  case (one e)
  with runs_after [OF one(2) f(1) _ f(2)] run show ?thesis by (simp add: feet_def)
next
  case (both i n p y)
  let ?c = "(QComplete i n, Inr (RPickupOpt (Some p)))" and ?y = "(QInsertPayment y, Inr RUnit)"
  from run obtain d0 where c: "rerun m [?c] d = Some d0" and y: "rerun m [?y] d0 = Some d'"
    unfolding both rerun_two by (auto split: option.splits)
  note after = runs_after [OF entry.completed f(1) c f(2)]
  show ?thesis
  proof (cases "foot ?c \<inter> foot f = {}")
    case True
    with after have "runs m f d0" by simp
    from runs_after [OF entry.charged f(1) y this] True show ?thesis by (auto simp: both feet_def)
  next
    case False
    with after have not: "\<not> runs m f d0" by simp
    from f(1) False have "\<exists>j k q. f = (QComplete j k, Inr (RPickupOpt (Some q)))" by cases auto
    with not charge_keeps [OF y] have "\<not> runs m f d'" by auto
    with False show ?thesis by (auto simp: both feet_def)
  qed
qed

lemma shaped_pair:
  assumes "shaped lg" and "shaped lg'" and "rerun m lg d \<noteq> None" and "rerun m lg' d \<noteq> None"
  shows "rerun m (lg @ lg') d \<noteq> None \<longleftrightarrow> feet lg \<inter> feet lg' = {}"
proof -
  from assms(3) obtain d' where d': "rerun m lg d = Some d'" by blast
  have "runs m f d' \<longleftrightarrow> feet lg \<inter> foot f = {}" if "f \<in> set lg'" for f
  proof (rule shaped_after [OF assms(1) _ _ d'])
    show "entry f" using shaped_entries [OF assms(2)] that by (simp add: list_all_iff)
    show "runs m f d" using assms(4) that unfolding rerun_shaped [OF assms(2)] by (simp add: list_all_iff)
  qed
  moreover have "feet lg \<inter> feet lg' = {} \<longleftrightarrow> (\<forall>f \<in> set lg'. feet lg \<inter> foot f = {})"
    unfolding feet_def [of lg'] by blast
  ultimately have "list_all (\<lambda>e. runs m e d') lg' \<longleftrightarrow> feet lg \<inter> feet lg' = {}"
    by (simp add: list_all_iff)
  with rerun_shaped [OF assms(2), of m d'] d' show ?thesis by (simp add: rerun_append)
qed

text \<open>A log that has run makes way for those it does not exclude.\<close>

lemma shaped_gone:
  assumes "shaped lg" and "shaped lg'" and "rerun m lg d \<noteq> None" and "rerun m lg' d \<noteq> None"
    and "rerun m (lg @ lg') d \<noteq> None" and first: "rerun m lg0 d = Some d'"
    and "rerun m (lg0 @ lg) d \<noteq> None" and "rerun m (lg0 @ lg') d \<noteq> None"
  shows "rerun m (lg @ lg') d' \<noteq> None"
proof -
  have "rerun m lg d' \<noteq> None" "rerun m lg' d' \<noteq> None" using assms(7,8) first by (simp_all add: rerun_append)
  with shaped_pair [OF assms(1,2), of m d'] shaped_pair [OF assms(1,2), of m d] assms(3-5) show ?thesis by simp
qed

section \<open>Open transactions go on\<close>

lemma after_begin:
  assumes "transactional rq"
  shows "upcoming fmt cfg rq [(n, Inr RUnit)] n' \<noteq> None"
  using assms by (cases rq) (simp_all add: transactional_def talk_CreatePickup talk_CompletePickup)

lemma after_statement:
  assumes "upcoming fmt cfg rq past n = Some (Some OpenTx, q)"
  shows "upcoming fmt cfg rq (past @ [(n1, a)]) n' \<noteq> None"
proof -
  note defs = replay_defs pickup_Create_def pickup_Complete_def Let_def ask_def
  from upcoming_legal [OF assms] consider
      (check) cp i m1 where "rq = ReqCreatePickup cp i" "past = [(m1, Inr RUnit)]"
    | (insert) cp i m1 m2 where "rq = ReqCreatePickup cp i" "past = [(m1, Inr RUnit), (m2, Inr (RBool False))]"
    | (update) i j m1 where "rq = ReqCompletePickup i j" "past = [(m1, Inr RUnit)]"
    | (charge) i j m1 m2 p where "rq = ReqCompletePickup i j"
        "past = [(m1, Inr RUnit), (m2, Inr (RPickupOpt (Some p)))]"
    | (find) i j m1 m2 where "rq = ReqCompletePickup i j" "past = [(m1, Inr RUnit), (m2, Inr (RPickupOpt None))]"
    by (cases q) (auto simp: legal_def)
  then show ?thesis
  proof cases
    case check
    then show ?thesis by (cases a) (auto simp: defs split: option.split)
  next
    case insert
    then show ?thesis by (cases a) (auto simp: defs split: option.split)
  next
    case update
    then show ?thesis by (cases a) (auto simp: defs split: option.split)
  next
    case charge
    then show ?thesis by (cases a) (auto simp: defs split: option.split)
  next
    case find
    then show ?thesis by (cases a) (auto simp: defs split: option.split)
  qed
qed

section \<open>Logs that fit together\<close>

fun fits :: "MinIO \<Rightarrow> (query \<times> response) list list \<Rightarrow> db \<Rightarrow> bool" where
  "fits m [] d \<longleftrightarrow> True"
| "fits m (lg # ls) d \<longleftrightarrow> rerun m lg d \<noteq> None \<and>
     (\<forall>l \<in> set ls. rerun m (lg @ l) d \<noteq> None \<and> rerun m (l @ lg) d \<noteq> None) \<and> fits m ls d"

lemma fits_append:
  "fits m (xs @ ys) d \<longleftrightarrow> fits m xs d \<and> fits m ys d \<and>
     (\<forall>x \<in> set xs. \<forall>y \<in> set ys. rerun m (x @ y) d \<noteq> None \<and> rerun m (y @ x) d \<noteq> None)"
  by (induction xs) auto

lemma fits_each: "fits m ls d \<Longrightarrow> lg \<in> set ls \<Longrightarrow> rerun m lg d \<noteq> None"
  by (induction ls) auto

lemma all_pairs_Cons:
  "(\<forall>i < length (x # xs). \<forall>j < length (x # xs). P i j) \<longleftrightarrow>
     P 0 0 \<and> (\<forall>j < length xs. P 0 (Suc j) \<and> P (Suc j) 0) \<and>
     (\<forall>i < length xs. \<forall>j < length xs. P (Suc i) (Suc j))"
  by (auto simp: less_Suc_eq_0_disj)

lemma fits_pairs:
  "fits m ls d \<longleftrightarrow> (\<forall>i < length ls. \<forall>j < length ls.
     rerun m (if i = j then ls ! i else ls ! i @ ls ! j) d \<noteq> None)"
proof (induction ls)
  case (Cons lg ls)
  show ?case unfolding all_pairs_Cons fits.simps Cons all_set_conv_all_nth
    by (auto simp del: not_None_eq)
qed simp

lemma undisturbed_fits: "undisturbed m s \<longleftrightarrow> fits m (open_logs (sh_sessions s)) (sh_db s)"
  unfolding undisturbed_def Let_def list_all_iff fits_pairs set_upt Ball_def atLeastLessThan_iff
  by (auto simp del: not_None_eq split del: if_split)

lemma fits_gone:
  assumes "fits m ls d" and "list_all shaped ls" and "rerun m lg d = Some d'"
    and "\<forall>l \<in> set ls. rerun m (lg @ l) d \<noteq> None"
  shows "fits m ls d'"
  using assms(1,2,4)
proof (induction ls)
  case (Cons x xs)
  have "rerun m (x @ y) d' \<noteq> None \<and> rerun m (y @ x) d' \<noteq> None" if "y \<in> set xs" for y
  proof -
    have "shaped x" "shaped y" "rerun m x d \<noteq> None" "rerun m y d \<noteq> None"
      using Cons.prems that fits_each [of m xs d y] by (auto simp: list_all_iff)
    with shaped_gone [OF _ _ _ _ _ assms(3), of x y] shaped_gone [OF _ _ _ _ _ assms(3), of y x] Cons.prems that
    show ?thesis by auto
  qed
  moreover have "rerun m x d' \<noteq> None" using Cons.prems(3) assms(3) by (simp add: rerun_append)
  ultimately show ?case using Cons by simp
qed simp

lemma fits_blank: "\<forall>l \<in> set ls. l = [] \<Longrightarrow> fits m ls d"
  by (induction ls) auto

section \<open>What a reachable state offers\<close>

definition alert :: "(uuid \<Rightarrow> string) \<Rightarrow> Config \<Rightarrow> shared \<Rightarrow> session \<Rightarrow> bool" where
  "alert fmt cfg s ss \<longleftrightarrow> ss_since ss \<le> sh_now s \<and>
     (ss_work ss \<noteq> None \<longrightarrow> (\<forall>n. upcoming fmt cfg (ss_request ss) (ss_past ss) n \<noteq> None))"

lemma turn_alert:
  assumes turn: "turn fmt cfg n x s ss = Some (s', ss')" and works: "works fmt cfg ss"
  shows "alert fmt cfg s' ss'"
  using turn
proof (cases rule: turnE)
  case t: (1 c q a w)
  have since: "ss_since ss' = sh_now s" "sh_now s' = sh_now s"
    using turn by (auto simp: turn_def Let_def split: if_splits option.splits prod.splits)
  have "upcoming fmt cfg (ss_request ss) (ss_past ss @ [(n, a)]) n' \<noteq> None" if open_tx: "ss_work ss' \<noteq> None" for n'
  proof (cases "c = None")
    case False
    with upcoming_context [OF t(1) works] have "c = Some OpenTx" by auto
    with after_statement t(1) show ?thesis by blast
  next
    case True
    have "wd_tx w \<noteq> None" using open_tx t(6) by (cases "wd_tx w") simp_all
    note run = t(2) [unfolded True]
    have "wd_tx w = None" if "q = QCommit" using perform_commit [OF run [unfolded that]] by blast
    moreover have "wd_tx w = None" if "q = QRollback" using perform_rollback [OF run [unfolded that]] by blast
    moreover have before: "ss_work ss = None" using calculation upcoming_context [OF t(1) works] True \<open>wd_tx w \<noteq> None\<close> by blast
    have "\<not> on_tables q" using perform_pool [OF run] \<open>wd_tx w \<noteq> None\<close> before by auto
    then have q: "q = QBegin"
      using calculation \<open>wd_tx w \<noteq> None\<close> by (auto simp: on_tables_def)
    have "a = Inr RUnit"
      using t(2) \<open>wd_tx w \<noteq> None\<close> unfolding q before
      by (cases "at_site s None x" rule: next_outcome_cases)
        (auto simp: pool_Begin_def wrap_def at_site_def next_outcome_def split: outcome.splits)
    moreover have "transactional (ss_request ss)" "ss_past ss = []"
      using upcoming_legal [OF t(1)] by (simp_all add: legal_def q)
    ultimately show ?thesis using after_begin by simp
  qed
  then show ?thesis by (auto simp: alert_def since t(4,5))
qed

lemma reachable_works: "interleaved fmt cfg s \<Longrightarrow> ss \<in> set (sh_sessions s) \<Longrightarrow> works fmt cfg ss"
  using interleaved_sound by (auto simp: sessions.all_hold_def list_all_iff sound_def)

lemma interleaved_alert:
  "interleaved fmt cfg s \<Longrightarrow> undisturbed (bucket_of cfg) s \<and> (\<forall>ss \<in> set (sh_sessions s). alert fmt cfg s ss)"
proof (induction rule: interleaved.induct)
  case (at_start now)
  then show ?case by (simp add: at_start_def undisturbed_fits)
next
  case (event s ev t)
  show ?case
  proof (cases ev)
    case (Turn k n x)
    with event(2) obtain s' ss where k: "k < length (sh_sessions s)"
      and turn: "turn fmt cfg n x s (sh_sessions s ! k) = Some (s', ss)"
      and t: "t = s'\<lparr>sh_sessions := (sh_sessions s')[k := ss]\<rparr>" and u: "undisturbed (bucket_of cfg) t"
      by (auto simp: Let_def split: if_splits option.splits)
    from turn_frame [OF turn] have s': "sh_sessions s' = sh_sessions s" "sh_now s' = sh_now s" by auto
    have "alert fmt cfg s' ss" using turn_alert [OF turn] reachable_works [OF event(1)] k by simp
    moreover have "alert fmt cfg s' r" if "r \<in> set (sh_sessions s)" for r
      using event(3) that s' by (simp add: alert_def)
    ultimately show ?thesis
      using u set_update_subset_insert [of "sh_sessions s" k ss] s' by (auto simp: t alert_def)
  next
    case (Tick n)
    with event(2) have t: "t = s\<lparr>sh_now := n\<rparr>" "sh_now s \<le> n" by (auto split: if_splits)
    with event(3) order_trans [of _ "sh_now s" n] show ?thesis by (auto simp: alert_def undisturbed_fits)
  qed (use event in \<open>auto simp: alert_def undisturbed_fits\<close>)
qed

lemma expected_shaped: "shaped (expected cfg rq past)"
proof -
  have "shaped [(QInsertPickup (new_pickup cp i n), Inr RUnit)]" for cp i n
    by (intro shaped.one entry.inserted) (simp add: new_pickup_def)
  then show ?thesis
    by (auto simp: expected_def split: request.split list.split prod.split sum.split reply.split option.split
        intro: shaped.intros entry.intros)
qed

lemma logs_of: "lg \<in> set (open_logs sss) \<longleftrightarrow> (\<exists>ss \<in> set sss. ss_work ss = Some (Live lg))"
  by (induction sss) (auto simp: open_logs_def split: option.split work.split)

lemma open_logs_at:
  assumes "k < length sss"
  shows "open_logs sss = open_logs (take k sss) @ open_logs [sss ! k] @ open_logs (drop (Suc k) sss)"
    and "open_logs (sss[k := ss]) = open_logs (take k sss) @ open_logs [ss] @ open_logs (drop (Suc k) sss)"
proof -
  have split: "open_logs (xs @ ss # ys) = open_logs xs @ open_logs [ss] @ open_logs ys" for xs ys ss
    by (simp add: open_logs_def)
  show "open_logs sss = open_logs (take k sss) @ open_logs [sss ! k] @ open_logs (drop (Suc k) sss)"
    by (subst id_take_nth_drop [OF assms], rule split)
  show "open_logs (sss[k := ss]) = open_logs (take k sss) @ open_logs [ss] @ open_logs (drop (Suc k) sss)"
    by (subst upd_conv_take_nth_drop [OF assms], rule split)
qed

text \<open>A call with an answer takes place unless the logs afterwards do not fit together.\<close>

lemma happen_runs:
  assumes reach: "interleaved fmt cfg s" and k: "k < length (sh_sessions s)" and ss: "sh_sessions s ! k = ss"
    and up: "upcoming fmt cfg (ss_request ss) (ss_past ss) (sh_now s) = Some (c, q)"
    and run: "perform (bucket_of cfg) q c (at_site s (working (bucket_of cfg) (sh_db s) (ss_work ss)) Reply) = (a, w)"
    and after: "work_after (ss_work ss) (working (bucket_of cfg) (sh_db s) (ss_work ss)) q a (wd_tx w) = wk"
    and fits: "fits (bucket_of cfg) (open_logs (take k (sh_sessions s)) @
      (case wk of Some (Live lg) \<Rightarrow> [lg] | _ \<Rightarrow> []) @ open_logs (drop (Suc k) (sh_sessions s))) (wd_db w)"
  shows "\<exists>t. happen fmt cfg (Turn k (sh_now s) Reply) s = Some t"
proof -
  have since: "ss_since ss \<le> sh_now s" using interleaved_alert [OF reach] k ss by (auto simp: alert_def)
  define ss' where "ss' = ss\<lparr>ss_past := ss_past ss @ [(sh_now s, a)], ss_work := wk, ss_since := sh_now s\<rparr>"
  have turn: "turn fmt cfg (sh_now s) Reply s ss = Some (s\<lparr>sh_db := wd_db w, sh_blobs := wd_blobs w\<rparr>, ss')"
    using since up run after by (simp add: turn_def Let_def outcome_ok_def ss'_def)
  have "open_logs [ss'] = (case wk of Some (Live lg) \<Rightarrow> [lg] | _ \<Rightarrow> [])"
    by (simp add: open_logs_def ss'_def)
  with fits have "undisturbed (bucket_of cfg)
      (s\<lparr>sh_db := wd_db w, sh_blobs := wd_blobs w, sh_sessions := (sh_sessions s)[k := ss']\<rparr>)"
    unfolding undisturbed_fits using open_logs_at(2) [OF k, of ss'] by simp
  with turn k ss show ?thesis by simp
qed

section \<open>Who can go on\<close>

lemma reach_fits:
  assumes "interleaved fmt cfg s" and "k < length (sh_sessions s)"
  shows "fits (bucket_of cfg) (open_logs (take k (sh_sessions s)) @ open_logs [sh_sessions s ! k] @
    open_logs (drop (Suc k) (sh_sessions s))) (sh_db s)"
  using interleaved_alert [OF assms(1)] open_logs_at(1) [OF assms(2)] by (simp add: undisturbed_fits)

lemma rollback_runs:
  assumes reach: "interleaved fmt cfg s" and k: "k < length (sh_sessions s)" and ss: "sh_sessions s ! k = ss"
    and up: "upcoming fmt cfg (ss_request ss) (ss_past ss) (sh_now s) = Some (c, QRollback)"
  shows "\<exists>t. happen fmt cfg (Turn k (sh_now s) Reply) s = Some t"
proof -
  obtain a w where run: "perform (bucket_of cfg) QRollback c
      (at_site s (working (bucket_of cfg) (sh_db s) (ss_work ss)) Reply) = (a, w)" by fastforce
  have w: "wd_db w = sh_db s" "wd_tx w = None" using perform_rollback [OF run] by simp_all
  show ?thesis
    by (rule happen_runs [OF reach k ss up run, of None])
      (use reach_fits [OF reach k] w in \<open>simp_all add: fits_append\<close>)
qed

lemma commit_runs:
  assumes reach: "interleaved fmt cfg s" and k: "k < length (sh_sessions s)" and ss: "sh_sessions s ! k = ss"
    and up: "upcoming fmt cfg (ss_request ss) (ss_past ss) (sh_now s) = Some (c, QCommit)"
    and live: "ss_work ss = Some (Live lg)" and shaped: "list_all shaped (open_logs (sh_sessions s))"
  shows "\<exists>t. happen fmt cfg (Turn k (sh_now s) Reply) s = Some t"
proof -
  let ?m = "bucket_of cfg" and ?others = "open_logs (take k (sh_sessions s)) @ open_logs (drop (Suc k) (sh_sessions s))"
  have fits: "fits ?m (open_logs (take k (sh_sessions s)) @ [lg] @ open_logs (drop (Suc k) (sh_sessions s))) (sh_db s)"
    using reach_fits [OF reach k] ss live by simp
  then obtain d where d: "rerun ?m lg (sh_db s) = Some d" by (auto simp: fits_append)
  have "fits ?m ?others d"
  proof (rule fits_gone [OF _ _ d])
    show "list_all shaped ?others" using shaped open_logs_at(1) [OF k] by simp
  qed (use fits in \<open>auto simp: fits_append\<close>)
  moreover obtain a w where run: "perform ?m QCommit c (at_site s (working ?m (sh_db s) (ss_work ss)) Reply) = (a, w)"
    by fastforce
  moreover have "wd_db w = d" "wd_tx w = None"
    using run d by (auto simp: live working_def at_site_def tx_Commit_def commit_response_def next_outcome_def)
  ultimately show ?thesis using happen_runs [OF reach k ss up run, of None] by simp
qed

lemma insert_payment_Active:
  assumes "perform m (QInsertPayment y) (Some t) w = (a, w')" and "wd_tx w' = Some (Active d)"
  shows "a = Inr RUnit"
proof -
  from assms(1) obtain r where r: "call (sql_insert_payment (pm_Amount y) (payment_row y))
      (on_code unique_violation ErrPaymentAlreadyExists) Inr (Some t) w = (r, w')" and a: "a = map_sum id unit_reply r"
    by (auto simp: all_calls wrap_split)
  from call_tx [OF r] assms(2) a show ?thesis by (auto simp: unit_reply_def)
qed

lemma charge_runs:
  assumes reach: "interleaved fmt cfg s" and k: "k < length (sh_sessions s)" and ss: "sh_sessions s ! k = ss"
    and up: "upcoming fmt cfg (ss_request ss) (ss_past ss) (sh_now s) = Some (Some OpenTx, QInsertPayment y)"
    and live: "ss_work ss = Some (Live [(QComplete i n, Inr (RPickupOpt (Some p)))])"
    and others: "\<And>lg. lg \<in> set (open_logs (sh_sessions s)) \<Longrightarrow>
      lg = [] \<or> (\<exists>j k r. lg = [(QComplete j k, Inr (RPickupOpt (Some r)))])"
  shows "\<exists>t. happen fmt cfg (Turn k (sh_now s) Reply) s = Some t"
proof -
  let ?m = "bucket_of cfg" and ?L = "open_logs (take k (sh_sessions s))" and ?R = "open_logs (drop (Suc k) (sh_sessions s))"
  let ?c = "(QComplete i n, Inr (RPickupOpt (Some p)))" and ?y = "(QInsertPayment y, Inr RUnit)"
  have fits: "fits ?m (?L @ [[?c]] @ ?R) (sh_db s)" using reach_fits [OF reach k] ss live by simp
  then obtain d0 where d0: "rerun ?m [?c] (sh_db s) = Some d0" by (auto simp: fits_append)
  then have view: "working ?m (sh_db s) (ss_work ss) = Some (Active d0)" by (simp add: live working_def)
  obtain a w where run: "perform ?m (QInsertPayment y) (Some OpenTx)
      (at_site s (working ?m (sh_db s) (ss_work ss)) Reply) = (a, w)" by fastforce
  from perform_tx [OF run] view have w: "wd_db w = sh_db s" "wd_tx w = Some Aborted \<or> (\<exists>d. wd_tx w = Some (Active d))"
    by (auto simp: on_tables_def)
  show ?thesis
  proof (cases "wd_tx w = Some Aborted")
    case True
    with happen_runs [OF reach k ss up run, of "Some Dead"] fits w(1) show ?thesis by (simp add: fits_append)
  next
    case False
    with w(2) obtain d1 where d1: "wd_tx w = Some (Active d1)" by blast
    show ?thesis
    proof (cases "d0 = d1")
      case True
      with happen_runs [OF reach k ss up run, of "ss_work ss"] fits w(1) d1 view live show ?thesis
        by (simp add: work_after_def)
    next
      case False
      have a: "a = Inr RUnit" by (rule insert_payment_Active [OF run d1])
      from perform_amid [OF run _ d1 False] view
      have "rerun ?m [?y] d0 = Some d1" by (simp add: a on_tables_def)
      with d0 have both: "rerun ?m [?c, ?y] (sh_db s) \<noteq> None" by (simp only: rerun_two) simp
      have "rerun ?m ([?c, ?y] @ lg) (sh_db s) \<noteq> None \<and> rerun ?m (lg @ [?c, ?y]) (sh_db s) \<noteq> None"
        if lg: "lg \<in> set ?L \<union> set ?R" for lg
      proof -
        have kind: "lg = [] \<or> (\<exists>j k r. lg = [(QComplete j k, Inr (RPickupOpt (Some r)))])"
          using others lg open_logs_at(1) [OF k] by auto
        then have shaped: "shaped lg" by (auto intro: shaped.intros entry.intros)
        have single: "rerun ?m lg (sh_db s) \<noteq> None" "rerun ?m ([?c] @ lg) (sh_db s) \<noteq> None"
          using fits lg fits_each by (auto simp: fits_append)
        with shaped_pair [OF shaped.one [OF entry.completed] shaped, of ?m i n p "sh_db s"] d0
        have "feet [?c] \<inter> feet lg = {}" by simp
        moreover have "foot ?y \<inter> feet lg = {}" using kind by (auto simp: feet_def)
        ultimately have "feet [?c, ?y] \<inter> feet lg = {}" by (auto simp: feet_def)
        with shaped_pair [OF shaped.both shaped both single(1)] shaped_pair [OF shaped shaped.both single(1) both]
        show ?thesis by blast
      qed
      with fits both w(1) happen_runs [OF reach k ss up run, of "Some (Live [?c, ?y])"] d1 False view live
      show ?thesis by (simp add: fits_append work_after_def a del: rerun.simps)
    qed
  qed
qed

lemma quiet_runs:
  assumes reach: "interleaved fmt cfg s" and k: "k < length (sh_sessions s)" and ss: "sh_sessions s ! k = ss"
    and up: "upcoming fmt cfg (ss_request ss) (ss_past ss) (sh_now s) = Some (c, q)"
    and quiet: "\<And>lg. lg \<in> set (open_logs (sh_sessions s)) \<Longrightarrow> lg = []"
  shows "\<exists>t. happen fmt cfg (Turn k (sh_now s) Reply) s = Some t"
proof -
  let ?m = "bucket_of cfg" and ?before = "working (bucket_of cfg) (sh_db s) (ss_work ss)"
  let ?L = "open_logs (take k (sh_sessions s))" and ?R = "open_logs (drop (Suc k) (sh_sessions s))"
  obtain a w where run: "perform ?m q c (at_site s ?before Reply) = (a, w)" by fastforce
  have others: "\<And>l. l \<in> set ?L \<Longrightarrow> l = []" "\<And>l. l \<in> set ?R \<Longrightarrow> l = []"
    using quiet open_logs_at(1) [OF k] by auto
  then have blank: "fits ?m ?L (wd_db w)" "fits ?m ?R (wd_db w)" by (auto intro: fits_blank)
  have works: "works fmt cfg ss" using reachable_works [OF reach] k ss by auto
  define wk where "wk = work_after (ss_work ss) ?before q a (wd_tx w)"
  have view: "working ?m (wd_db w) wk = wd_tx w"
    unfolding wk_def by (rule working_follows [OF run upcoming_context [OF up works]])
  have own: "rerun ?m lg (wd_db w) \<noteq> None" if "wk = Some (Live lg)" for lg
  proof -
    have "\<exists>d. wd_tx w = Some (Active d)"
      using that by (auto simp: wk_def work_after_def split: option.splits tx_state.splits)
    with view that show ?thesis by (auto simp: working_def split: option.splits)
  qed
  have "fits ?m (?L @ (case wk of Some (Live lg) \<Rightarrow> [lg] | _ \<Rightarrow> []) @ ?R) (wd_db w)"
    using blank own by (auto simp: fits_append dest!: others split: option.split work.split)
  with happen_runs [OF reach k ss up run wk_def [symmetric]] show ?thesis .
qed

lemma open_log_kinds:
  assumes "upcoming fmt cfg rq past n = Some (c, q)" and "q \<noteq> QRollback" and "expected cfg rq past \<noteq> []"
  shows "q = QCommit \<or> (\<exists>y i k p. q = QInsertPayment y \<and> c = Some OpenTx \<and>
    expected cfg rq past = [(QComplete i k, Inr (RPickupOpt (Some p)))])"
  using upcoming_legal [OF assms(1)] assms(2,3)
  by (cases q) (auto simp: legal_def expected_def transactional_def
      split: request.splits list.splits prod.splits sum.splits reply.splits option.splits)

text \<open>No deadlock: while some request is unfinished, one of them can make its next call.\<close>

lemma some_turn:
  assumes reach: "interleaved fmt cfg s" and "ss0 \<in> set (sh_sessions s)"
    and unfinished: "upcoming fmt cfg (ss_request ss0) (ss_past ss0) (sh_now s) \<noteq> None"
  shows "\<exists>k t. happen fmt cfg (Turn k (sh_now s) Reply) s = Some t"
proof (cases "\<exists>ss \<in> set (sh_sessions s). \<exists>c. upcoming fmt cfg (ss_request ss) (ss_past ss) (sh_now s) = Some (c, QRollback)")
  case True
  then show ?thesis using rollback_runs [OF reach] by (metis in_set_conv_nth)
next
  case no_rollback: False
  have log: "\<exists>c q. upcoming fmt cfg (ss_request ss) (ss_past ss) (sh_now s) = Some (c, q) \<and> q \<noteq> QRollback \<and>
      lg = expected cfg (ss_request ss) (ss_past ss)"
    if "ss \<in> set (sh_sessions s)" "ss_work ss = Some (Live lg)" for ss lg
  proof -
    have "alert fmt cfg s ss" using interleaved_alert [OF reach] that(1) by blast
    then have "upcoming fmt cfg (ss_request ss) (ss_past ss) (sh_now s) \<noteq> None" using that(2) by (simp add: alert_def)
    then obtain c q where q: "upcoming fmt cfg (ss_request ss) (ss_past ss) (sh_now s) = Some (c, q)" by auto
    with no_rollback that(1) have "q \<noteq> QRollback" by auto
    moreover have "lg = expected cfg (ss_request ss) (ss_past ss)"
      using reachable_works [OF reach that(1)] that(2) q \<open>q \<noteq> QRollback\<close> unfolding works_def rolls_back_def by blast
    ultimately show ?thesis using q by blast
  qed
  then have shaped: "list_all shaped (open_logs (sh_sessions s))"
    using expected_shaped by (fastforce simp: list_all_iff logs_of)
  show ?thesis
  proof (cases "\<exists>ss \<in> set (sh_sessions s). \<exists>c lg. ss_work ss = Some (Live lg) \<and>
      upcoming fmt cfg (ss_request ss) (ss_past ss) (sh_now s) = Some (c, QCommit)")
    case True
    then show ?thesis using commit_runs [OF reach _ _ _ _ shaped] by (metis in_set_conv_nth)
  next
    case no_commit: False
    have kinds: "lg = [] \<or> (\<exists>i k p. lg = [(QComplete i k, Inr (RPickupOpt (Some p)))] \<and>
        (\<exists>y. upcoming fmt cfg (ss_request ss) (ss_past ss) (sh_now s) = Some (Some OpenTx, QInsertPayment y)))"
      if "ss \<in> set (sh_sessions s)" "ss_work ss = Some (Live lg)" for ss lg
      using log [OF that] open_log_kinds no_commit that by metis
    show ?thesis
    proof (cases "\<exists>ss \<in> set (sh_sessions s). \<exists>lg. ss_work ss = Some (Live lg) \<and> lg \<noteq> []")
      case True
      then obtain k lg where k: "k < length (sh_sessions s)" "ss_work (sh_sessions s ! k) = Some (Live lg)" "lg \<noteq> []"
        by (metis in_set_conv_nth)
      from kinds [OF nth_mem [OF k(1)] k(2)] k(3) obtain i n p y where
          "lg = [(QComplete i n, Inr (RPickupOpt (Some p)))]"
          "upcoming fmt cfg (ss_request (sh_sessions s ! k)) (ss_past (sh_sessions s ! k)) (sh_now s) =
             Some (Some OpenTx, QInsertPayment y)" by blast
      with charge_runs [OF reach k(1) refl] k(2) kinds show ?thesis by (metis logs_of)
    next
      case False
      then have "\<And>lg. lg \<in> set (open_logs (sh_sessions s)) \<Longrightarrow> lg = []" by (auto simp: logs_of)
      moreover obtain k c q where "k < length (sh_sessions s)"
          "upcoming fmt cfg (ss_request (sh_sessions s ! k)) (ss_past (sh_sessions s ! k)) (sh_now s) = Some (c, q)"
        using assms(2) unfinished by (metis in_set_conv_nth not_None_eq prod.exhaust)
      ultimately show ?thesis using quiet_runs [OF reach _ refl] by blast
    qed
  qed
qed

section \<open>To the end\<close>

text \<open>The calls that the sessions can still make, at most.\<close>

definition left_over :: "shared \<Rightarrow> nat" where
  "left_over s = sum_list (map (\<lambda>ss. 4 - length (ss_past ss)) (sh_sessions s))"

lemma turn_request: "turn fmt cfg n x s ss = Some (s', ss') \<Longrightarrow> ss_request ss' = ss_request ss"
  by (auto elim!: turnE)

lemma happen_turn:
  assumes "happen fmt cfg (Turn k n x) s = Some t"
  shows "sh_now t = sh_now s \<and> map ss_request (sh_sessions t) = map ss_request (sh_sessions s) \<and>
    left_over t < left_over s"
proof -
  let ?calls = "\<lambda>ss. 4 - length (ss_past ss)"
  from assms obtain s' ss where k: "k < length (sh_sessions s)"
    and turn: "turn fmt cfg n x s (sh_sessions s ! k) = Some (s', ss)"
    and t: "t = s'\<lparr>sh_sessions := (sh_sessions s')[k := ss]\<rparr>"
    by (auto simp: Let_def split: if_splits option.splits)
  note frame = turn_frame [OF turn]
  have "map ss_request ((sh_sessions s)[k := ss]) = map ss_request (sh_sessions s)"
    using k turn_request [OF turn] by (simp add: map_update) (metis list_update_id nth_map)
  moreover have "?calls ss < ?calls (sh_sessions s ! k)" using turn_bounded [OF turn] by linarith
  moreover have "?calls (sh_sessions s ! k) \<le> left_over s"
    unfolding left_over_def using k by (intro elem_le_sum_list [of k "map ?calls (sh_sessions s)", simplified])
  ultimately show ?thesis
    using frame k by (simp add: t left_over_def map_update sum_list_update)
qed

lemma all_finish:
  assumes "interleaved fmt cfg s"
  shows "\<exists>evs t. happens fmt cfg evs s = Some t \<and> list_all (\<lambda>ev. \<exists>k. ev = Turn k (sh_now s) Reply) evs \<and>
    sh_now t = sh_now s \<and> map ss_request (sh_sessions t) = map ss_request (sh_sessions s) \<and>
    (\<forall>ss \<in> set (sh_sessions t). ss_work ss = None \<and>
       upcoming fmt cfg (ss_request ss) (ss_past ss) (sh_now t) = None)"
  using assms
proof (induction s rule: measure_induct_rule [of left_over])
  case (less s)
  show ?case
  proof (cases "\<exists>ss \<in> set (sh_sessions s). upcoming fmt cfg (ss_request ss) (ss_past ss) (sh_now s) \<noteq> None")
    case True
    then obtain k t where t: "happen fmt cfg (Turn k (sh_now s) Reply) s = Some t"
      using some_turn [OF less.prems] by blast
    note frame = happen_turn [OF t]
    from less.IH [OF _ interleaved.event [OF less.prems t]] frame obtain evs u where
      u: "happens fmt cfg evs t = Some u" "list_all (\<lambda>ev. \<exists>k. ev = Turn k (sh_now t) Reply) evs" "sh_now u = sh_now t"
        "map ss_request (sh_sessions u) = map ss_request (sh_sessions t)"
        "\<forall>ss \<in> set (sh_sessions u). ss_work ss = None \<and>
           upcoming fmt cfg (ss_request ss) (ss_past ss) (sh_now u) = None" by blast
    have "happens fmt cfg (Turn k (sh_now s) Reply # evs) s = Some u" using t u(1) by (simp del: happen.simps)
    with u frame show ?thesis
      by (intro exI [of _ "Turn k (sh_now s) Reply # evs"] exI [of _ u]) simp
  next
    case False
    with interleaved_alert [OF less.prems]
    have "\<forall>ss \<in> set (sh_sessions s). ss_work ss = None \<and>
        upcoming fmt cfg (ss_request ss) (ss_past ss) (sh_now s) = None" unfolding alert_def by blast
    then show ?thesis by (intro exI [of _ "[]"] exI [of _ s]) simp
  qed
qed

end
