(* ===== verification/Scenario.thy ===== *)
theory Scenario
  imports Interleaving
begin

text \<open>
  A concrete run with overlapping requests, in three parts: a household with one
  scheduled pickup; a \<open>Create\<close> that has checked Rule 1 while \<open>Complete\<close> runs as a whole; the rest
  of the \<open>Create\<close>, and the confirmation of the payment. The statements about all runs
  are tried on it.
\<close>

abbreviation demo_fmt :: "uuid \<Rightarrow> string" where
  "demo_fmt \<equiv> \<lambda>_. ''id''"

definition paper_pickup :: CreatePickupCommand where
  "paper_pickup = \<lparr>cp_HouseholdID = 1, cp_Type = PickupPaper, cp_SafetyCheck = False\<rparr>"

definition demo_proof :: ConfirmPaymentInput where
  "demo_proof =
    \<lparr>ci_Reader = ''%PDF-'', ci_Size = 5, ci_ContentType = ''application/pdf''\<rparr>"

definition prepare_events :: "event list" where
  "prepare_events =
    [Arrive (ReqCreateHousehold \<lparr>ch_OwnerName = ''Ana'', ch_Address = ''Street 1''\<rparr> 1), Turn 0 0 Reply,
     Arrive (ReqCreatePickup paper_pickup 10), Turn 1 0 Reply, Turn 1 0 Reply, Turn 1 0 Reply, Turn 1 0 Reply,
     Arrive (ReqSchedulePickup 10 \<lparr>sp_PickupDate = 500\<rparr>), Turn 2 0 Reply, Restart]"

definition overlap_events :: "event list" where
  "overlap_events =
    [Arrive (ReqCreatePickup paper_pickup 11), Turn 0 0 Reply, Turn 0 0 Reply,
     Arrive (ReqCompletePickup 10 20), Turn 1 0 Reply, Turn 1 0 Reply, Turn 1 0 Reply, Turn 1 0 Reply]"

definition create_events :: "event list" where
  "create_events = [Turn 0 0 Reply, Turn 0 0 Reply]"

definition confirm_events :: "event list" where
  "confirm_events = [Arrive (ReqConfirmPayment 20 demo_proof 30), Turn 2 0 Reply, Turn 2 0 Reply, Turn 2 0 Reply]"

definition scene_household :: householdRow where
  "scene_household = \<lparr>hw_id = 1, hw_owner_name = ''Ana'', hw_address = ''Street 1'', hw_created_at = 0, hw_updated_at = 0\<rparr>"

definition scene_pickup :: "uuid \<Rightarrow> string \<Rightarrow> instant option \<Rightarrow> pickupRow" where
  "scene_pickup i s date =
    \<lparr>pw_id = i, pw_household_id = 1, pw_type = PickupPaper, pw_status = s, pw_pickup_date = date,
     pw_safety_check = False, pw_created_at = 0, pw_updated_at = 0\<rparr>"

definition scene_payment :: paymentRow where
  "scene_payment =
    \<lparr>yw_id = 20, yw_household_id = 1, yw_waste_id = 10, yw_amount = 5000000,
     yw_payment_date = None, yw_status = PaymentPending, yw_proof_file_url = None,
     yw_created_at = 0, yw_updated_at = 0\<rparr>"

definition prepared :: shared where
  "prepared =
    \<lparr>sh_db = \<lparr>tb_households = [scene_household], tb_pickups = [scene_pickup 10 PickupScheduled (Some 500)],
       tb_payments = [], tb_ties = (\<lambda>_. 0)\<rparr>, sh_blobs = [], sh_now = 0, sh_sessions = []\<rparr>"

definition complete_session :: session where
  "complete_session =
    \<lparr>ss_request = ReqCompletePickup 10 20,
     ss_past = [(0, Inr RUnit),
       (0, Inr (RPickupOpt (Some (pickupRow_toDomain (scene_pickup 10 PickupCompleted (Some 500)))))),
       (0, Inr RUnit), (0, Inr RUnit)], ss_work = None, ss_since = 0\<rparr>"

definition overlapped :: shared where
  "overlapped =
    \<lparr>sh_db = \<lparr>tb_households = [scene_household], tb_pickups = [scene_pickup 10 PickupCompleted (Some 500)],
       tb_payments = [scene_payment], tb_ties = (\<lambda>_. 0)\<rparr>, sh_blobs = [], sh_now = 0,
     sh_sessions =
       [\<lparr>ss_request = ReqCreatePickup paper_pickup 11, ss_past = [(0, Inr RUnit), (0, Inr (RBool False))],
         ss_work = Some (Live []), ss_since = 0\<rparr>, complete_session]\<rparr>"

definition created :: shared where
  "created =
    \<lparr>sh_db = \<lparr>tb_households = [scene_household],
       tb_pickups = [scene_pickup 10 PickupCompleted (Some 500), scene_pickup 11 PickupPending None],
       tb_payments = [scene_payment], tb_ties = (\<lambda>_. 0)\<rparr>, sh_blobs = [], sh_now = 0,
     sh_sessions =
       [\<lparr>ss_request = ReqCreatePickup paper_pickup 11,
         ss_past = [(0, Inr RUnit), (0, Inr (RBool False)), (0, Inr RUnit), (0, Inr RUnit)],
         ss_work = None, ss_since = 0\<rparr>, complete_session]\<rparr>"

definition paid_payment :: paymentRow where
  "paid_payment = scene_payment\<lparr>yw_payment_date := Some 0, yw_status := PaymentPaid,
     yw_proof_file_url := Some ''http://localhost:9000/proofs/payments/id/id.pdf''\<rparr>"

definition confirmed :: shared where
  "confirmed = created
    \<lparr>sh_db := (sh_db created)\<lparr>tb_payments := [paid_payment]\<rparr>,
     sh_blobs := [\<lparr>bl_key = ''payments/id/id.pdf'', bl_content = ''%PDF-'', bl_type = ''application/pdf''\<rparr>],
     sh_sessions := sh_sessions created @
       [\<lparr>ss_request = ReqConfirmPayment 20 demo_proof 30,
         ss_past = [(0, Inr (RPayment (paymentRow_toDomain scene_payment))),
           (0, Inr (RText ''http://localhost:9000/proofs/payments/id/id.pdf'')),
           (0, Inr (RPaymentOpt (Some (paymentRow_toDomain paid_payment))))],
         ss_work = None, ss_since = 0\<rparr>]\<rparr>"

lemmas turn_defs = turn_def Let_def bucket_of_def working_def work_after_def at_site_def wrap_def unit_reply_def
  commit_response_def amid_def undisturbed_def open_logs_def

lemmas scene_defs = turn_defs run_defs new_pickup_def new_household_for_def due_def errors_As_def empty_db_def
  at_start_def talk_CreateHousehold talk_CreatePickup talk_SchedulePickup talk_CompletePickup
  paper_pickup_def scene_household_def scene_pickup_def scene_payment_def complete_session_def

lemma scene_prepared: "happens demo_fmt demo_config prepare_events (at_start 0) = Some prepared"
  by (simp add: scene_defs prepare_events_def prepared_def)

lemma scene_overlapped: "happens demo_fmt demo_config overlap_events prepared = Some overlapped"
  by (simp add: scene_defs overlap_events_def prepared_def overlapped_def)

lemma scene_created: "happens demo_fmt demo_config create_events overlapped = Some created"
  by (simp add: scene_defs create_events_def overlapped_def created_def)

lemma scene_confirmed: "happens demo_fmt demo_config confirm_events created = Some confirmed"
  by (simp add: scene_defs confirm_events_def created_def confirmed_def paid_payment_def demo_proof_def
      talk_ConfirmPayment talk_ConfirmPayment_pending proof_key_def object_url_def)

text \<open>The states of the run are states of interleavings.\<close>

lemma scene_interleaved:
  "interleaved demo_fmt demo_config prepared" "interleaved demo_fmt demo_config overlapped"
  "interleaved demo_fmt demo_config created" "interleaved demo_fmt demo_config confirmed"
proof -
  show p: "interleaved demo_fmt demo_config prepared"
    by (rule interleaved_happens [OF scene_prepared interleaved.at_start])
  show o: "interleaved demo_fmt demo_config overlapped" by (rule interleaved_happens [OF scene_overlapped p])
  show c: "interleaved demo_fmt demo_config created" by (rule interleaved_happens [OF scene_created o])
  show "interleaved demo_fmt demo_config confirmed" by (rule interleaved_happens [OF scene_confirmed c])
qed

lemmas state_defs = overlapped_def created_def confirmed_def complete_session_def
  scene_pickup_def scene_payment_def paid_payment_def paper_pickup_def

end
