(* ===== verification/Dated.thy ===== *)
theory Dated
  imports Overlap
begin

text \<open>
  The steps of overlapping requests with their times: every change of the tables is a step of the machine
  of the specification (\<open>Machine\<close>) at one reading of the clock, which the session of the change took
  before. Only the check of Rule 1 is not part of that step.
\<close>

section \<open>Steps at a reading of the clock\<close>

inductive dated_step :: "Pricing \<Rightarrow> duration \<Rightarrow> instant \<Rightarrow> db \<Rightarrow> db \<Rightarrow> bool" for pricing ttl n d d' where
  specified: "store_step pricing ttl (store_of n d) (store_of n d') \<Longrightarrow> dated_step pricing ttl n d d'"
| unguarded_create: "add_pickup (new_pickup cp i n) (store_of n d) = Inr ((), store_of n d') \<Longrightarrow>
    dated_step pricing ttl n d d'"

lemma store_of_eq:
  "store_of n d = s \<longleftrightarrow> st_now s = n \<and> st_households s = household_map d \<and>
     st_pickups s = pickup_map d \<and> st_payments s = payment_map d"
  by (cases s) (auto simp: store_of_def)

lemma facts_eq: "facts d' = facts d \<longleftrightarrow> store_of n d' = store_of n d"
  by (simp add: facts_def store_of_def)

definition dated :: "Config \<Rightarrow> instant \<Rightarrow> db \<Rightarrow> db \<Rightarrow> bool" where
  "dated cfg n d d' \<longleftrightarrow> facts d' = facts d \<or>
     dated_step (app_pricing cfg) (kc_OrganicTTL (cf_Worker cfg)) n d d'"

lemma datedI:
  "store_step (app_pricing cfg) (kc_OrganicTTL (cf_Worker cfg)) (store_of n d) (store_of n d') \<Longrightarrow> dated cfg n d d'"
  by (simp add: dated_def specified)

lemma statement_dated:
  assumes "repository_call store_of st onerr onok spec" and "schema_ok d" and "st d = Inr (a, d')"
    and "\<And>b. spec (store_of n d) = Inr (b, store_of n d') \<Longrightarrow> dated cfg n d d'"
  shows "dated cfg n d d'"
  using repository_call.pool_effect [OF assms(1-3), of n] assms(4) by (auto simp: dated_def facts_eq [of d' d n])

section \<open>The readings in the calls\<close>

text \<open>A call outside of a transaction carries the reading that its session takes for it.\<close>

definition stamped :: "Config \<Rightarrow> instant \<Rightarrow> query \<Rightarrow> bool" where
  "stamped cfg n q \<longleftrightarrow>
    (case q of
       QInsertHousehold h \<Rightarrow> \<exists>cmd i. h = new_household_for cmd i n
     | QSchedule i date now \<Rightarrow> now = n
     | QCancel i now \<Rightarrow> now = n
     | QCancelStale cutoff now \<Rightarrow> now = n \<and> cutoff = n - kc_OrganicTTL (cf_Worker cfg)
     | QConfirm i url now \<Rightarrow> now = n
     | _ \<Rightarrow> True)"

lemma upcoming_stamped:
  assumes "upcoming fmt cfg rq past n = Some (c, q)"
  shows "stamped cfg n q"
proof (cases "transactional rq")
  case True
  with upcoming_legal [OF assms] show ?thesis
    by (cases q) (auto simp: legal_def stamped_def)
next
  case False
  note defs = stamped_def replay_defs ask_def Let_def new_household_for_def
  show ?thesis
  proof (cases rq)
    case (ReqCreateHousehold cmd i)
    with assms show ?thesis by (auto simp: defs household_Create_def split: legal_splits)
  next
    case (ReqGetHousehold i)
    with assms show ?thesis by (auto simp: defs household_Get_def split: legal_splits)
  next
    case (ReqListHouseholds p)
    with assms show ?thesis by (auto simp: defs household_List_def split: legal_splits)
  next
    case (ReqDeleteHousehold i)
    with assms show ?thesis by (auto simp: defs household_Delete_def split: legal_splits)
  next
    case (ReqListPickups pf p)
    with assms show ?thesis by (auto simp: defs pickup_List_def split: legal_splits)
  next
    case (ReqSchedulePickup i sp)
    with assms show ?thesis by (auto simp: defs pickup_Schedule_def split: legal_splits)
  next
    case (ReqCancelPickup i)
    with assms show ?thesis by (auto simp: defs pickup_Cancel_def split: legal_splits)
  next
    case ReqSweep
    with assms show ?thesis by (auto simp: defs pickup_CancelStaleOrganic_def split: legal_splits)
  next
    case (ReqCreatePayment cy i)
    with assms show ?thesis by (auto simp: defs payment_Create_def split: legal_splits)
  next
    case (ReqListPayments yf p)
    with assms show ?thesis by (auto simp: defs payment_List_def split: legal_splits)
  next
    case (ReqConfirmPayment i ci j)
    with assms show ?thesis by (auto simp: defs payment_Confirm_def split: legal_splits)
  next
    case ReqWasteSummary
    with assms show ?thesis by (auto simp: defs report_WasteSummary_def split: legal_splits)
  next
    case ReqPaymentSummary
    with assms show ?thesis by (auto simp: defs report_PaymentSummary_def split: legal_splits)
  next
    case (ReqHistory i)
    with assms show ?thesis by (auto simp: defs report_HouseholdHistory_def split: legal_splits)
  qed (use False in \<open>simp_all add: transactional_def\<close>)
qed

section \<open>What one call does\<close>

lemma changes_dated:
  assumes ok: "schema_ok d" and q: "changes q d d'" and st: "stamped cfg n q"
    and "\<And>p. q \<noteq> QInsertPickup p" "\<And>i now. q \<noteq> QComplete i now" "\<And>y. q \<noteq> QInsertPayment y"
  shows "dated cfg n d d'"
proof (cases q)
  case (QInsertHousehold h)
  with q st obtain a cmd i where run: "sql_insert_household (household_row h) d = Inr (a, d')"
    and h: "h = new_household_for cmd i n" by (auto simp: changes_def stamped_def)
  show ?thesis
  proof (rule statement_dated [OF insert_household.repository_call_axioms ok run])
    fix b assume "add_household h (store_of n d) = Inr (b, store_of n d')"
    then have "spec_CreateHousehold cmd i (store_of n d) = Inr (h, store_of n d')"
      by (auto simp: add_household_def spec_CreateHousehold_Inr h new_household_for_def split: if_splits)
    then show "dated cfg n d d'" by (rule datedI [OF household_created])
  qed
next
  case (QDeleteHousehold i)
  with q obtain a where run: "sql_delete_household i d = Inr (a, d')" by (auto simp: changes_def)
  show ?thesis
    by (rule statement_dated [OF delete_household.repository_call_axioms ok run])
      (rule datedI [OF household_deleted])
next
  case (QSchedule i date now)
  with q st obtain a where run: "sql_update_pickup i schedule_guard (schedule_set date n) d = Inr (a, d')"
    by (auto simp: changes_def stamped_def)
  show ?thesis
  proof (rule statement_dated [OF schedule.update.repository_call_axioms ok run])
    fix r assume "change_pickup i (\<lambda>p. CanSchedule p = None) (scheduled_for date n) (store_of n d) =
      Inr (r, store_of n d')"
    then show "dated cfg n d d'"
      by (cases r) (auto simp: change_pickup_Inr spec_SchedulePickup_Inr scheduled_for_def dated_def
          facts_eq [of d' d n] intro!: specified pickup_scheduled)
  qed
next
  case (QCancel i now)
  with q st obtain a where run: "sql_update_pickup i cancel_guard (cancel_set n) d = Inr (a, d')"
    by (auto simp: changes_def stamped_def)
  show ?thesis
  proof (rule statement_dated [OF cancel.update.repository_call_axioms ok run])
    fix r assume "change_pickup i (\<lambda>p. pk_Status p \<in> {PickupPending, PickupScheduled}) (canceled n) (store_of n d) =
      Inr (r, store_of n d')"
    then show "dated cfg n d d'"
      by (cases r) (auto simp: change_pickup_Inr spec_CancelPickup_Inr dated_def
          facts_eq [of d' d n] intro!: specified pickup_canceled)
  qed
next
  case (QCancelStale cutoff now)
  with q st obtain a where
    run: "sql_cancel_stale (n - kc_OrganicTTL (cf_Worker cfg)) n d = Inr (a, d')"
    by (auto simp: changes_def stamped_def)
  show ?thesis
    by (rule statement_dated [OF cancel_stale.repository_call_axioms ok run])
      (rule datedI [OF stale_swept], simp add: spec_CancelStaleOrganic_def)
next
  case (QConfirm i url now)
  with q st obtain a where run: "sql_confirm_payment i url n d = Inr (a, d')"
    by (auto simp: changes_def stamped_def)
  show ?thesis
  proof (rule statement_dated [OF confirm.repository_call_axioms ok run])
    fix r assume c: "confirm_payment i url n (store_of n d) = Inr (r, store_of n d')"
    show "dated cfg n d d'"
    proof (cases r)
      case (Some z)
      with c have "spec_ConfirmPayment i url (store_of n d) = Inr (z, store_of n d')"
        by (auto simp: confirm_payment_def spec_ConfirmPayment_Inr Let_def split: if_splits option.splits)
      then show ?thesis by (rule datedI [OF payment_confirmed])
    qed (use c in \<open>auto simp: confirm_payment_def Let_def dated_def facts_eq [of d' d n] split: if_splits option.splits\<close>)
  qed
qed (use assms in \<open>simp_all add: changes_def dated_def\<close>)

lemma payment_dated:
  assumes told: "told fmt cfg (facts d) (ReqCreatePayment cy j) ((n1, Inr (RPickup p)) # xs)"
    and h: "pk_HouseholdID p = cy_HouseholdID cy" and ok: "schema_ok d"
    and run: "sql_insert_payment (pm_Amount y) (payment_row y) d = Inr (u, d')"
    and y: "y = payment_for (app_pricing cfg) cy j n p"
  shows "dated cfg n d d'"
proof (rule statement_dated [OF insert_payment.repository_call_axioms ok run])
  from told obtain q where q: "pickup_map d (cy_WasteID cy) = Some q" "pk_HouseholdID q = pk_HouseholdID p"
      "pk_Type q = pk_Type p"
    by (auto simp: told_def)
  fix b assume "add_payment y (store_of n d) = Inr (b, store_of n d')"
  moreover have "y = due (app_pricing cfg) j n q"
    using q h pickup_map_ID [OF q(1)] by (simp add: y payment_for_def due_def)
  ultimately have "spec_CreatePayment (app_pricing cfg) cy j (store_of n d) = Inr (y, store_of n d')"
    using q h pickup_map_ID [OF q(1)] by (auto simp: spec_CreatePayment_Inr charge_Inr add_payment_Inr due_def)
  then show "dated cfg n d d'" by (rule datedI [OF payment_created])
qed

text \<open>The transaction of \<open>Create\<close> or of \<open>Complete\<close> carries the reading before it began.\<close>

lemma commit_dated:
  assumes work: "works fmt cfg ss" and ok: "schema_ok d"
    and q: "upcoming fmt cfg (ss_request ss) (ss_past ss) n = Some (c, QCommit)"
    and view: "working m d (ss_work ss) = Some (Active d')"
  shows "\<exists>n1 \<in> fst ` set (ss_past ss). dated cfg n1 d d'"
proof -
  from working_Active [OF view] obtain lg where lg: "ss_work ss = Some (Live lg)" and run: "rerun m lg d = Some d'"
    by blast
  with work q have e: "lg = expected cfg (ss_request ss) (ss_past ss)"
    by (auto simp: works_def rolls_back_def)
  from upcoming_legal [OF q] consider
      (insert) cp i n1 n2 n3 where "ss_request ss = ReqCreatePickup cp i"
        "ss_past ss = [(n1, Inr RUnit), (n2, Inr (RBool False)), (n3, Inr RUnit)]"
    | (complete) i j n1 n2 n3 p where "ss_request ss = ReqCompletePickup i j"
        "ss_past ss = [(n1, Inr RUnit), (n2, Inr (RPickupOpt (Some p))), (n3, Inr RUnit)]"
    by (auto simp: legal_def)
  then show ?thesis
  proof cases
    case insert
    with run e have "rerun m [(QInsertPickup (new_pickup cp i n1), Inr RUnit)] d = Some d'"
      by (simp add: expected_def)
    from rerun_insert [OF this ok] have "add_pickup (new_pickup cp i n1) (store_of n1 d) = Inr ((), store_of n1 d')"
      by (auto simp: add_pickup_Inr facts_def store_of_def)
    then have "dated cfg n1 d d'" by (simp add: dated_def unguarded_create)
    with insert(2) show ?thesis by force
  next
    case complete
    with run e have "rerun m [(QComplete i n1, Inr (RPickupOpt (Some p))),
        (QInsertPayment (due (app_pricing cfg) j n1 p), Inr RUnit)] d = Some d'"
      by (simp add: expected_def)
    from rerun_complete [OF this ok] obtain s1 where
      c: "change_pickup i (\<lambda>p. pk_Status p = PickupScheduled) (completed_at n1) (facts d) = Inr (Some p, s1)"
      and y: "add_payment (due (app_pricing cfg) j n1 p) s1 = Inr ((), facts d')" by blast
    then have "spec_CompletePickup (app_pricing cfg) i j (store_of n1 d) = Inr (p, store_of n1 d')"
      by (auto simp: spec_CompletePickup_Inr charge_Inr change_pickup_Inr add_payment_Inr completed_at_def
          due_def facts_def store_of_def simp del: dom_maps dest: pickup_map_ID)
    then have "dated cfg n1 d d'" by (rule datedI [OF pickup_completed])
    with complete(2) show ?thesis by force
  qed
qed

text \<open>One turn: at its own reading, or at one its session took earlier.\<close>

lemma turn_dated:
  assumes turn: "turn fmt cfg n x s ss = Some (s', ss')" and "fine cfg s" and "sound fmt cfg s ss"
  shows "\<exists>m \<in> insert n (fst ` set (ss_past ss)). dated cfg m (sh_db s) (sh_db s')"
  using turn
proof (cases rule: turnE)
  case t: (1 c q a w)
  have ok: "schema_ok (sh_db s)" using assms(2) by (simp add: fine_def)
  note legal = upcoming_legal [OF t(1)] and stamp = upcoming_stamped [OF t(1)]
  have same: "wd_db w = sh_db s \<Longrightarrow> dated cfg n (sh_db s) (wd_db w)" by (simp add: dated_def)
  have "\<exists>m \<in> insert n (fst ` set (ss_past ss)). dated cfg m (sh_db s) (wd_db w)"
  proof (cases "on_tables q")
    case True
    show ?thesis
    proof (cases c)
      case None
      with perform_pool [OF _ True] t(2)
      have eff: "wd_db w = sh_db s \<or> changes q (sh_db s) (wd_db w)" by fastforce
      have "dated cfg n (sh_db s) (wd_db w)"
      proof (cases "\<exists>y. q = QInsertPayment y")
        case True
        then obtain y where q: "q = QInsertPayment y" by blast
        from legal None obtain cy j n1 p where "ss_request ss = ReqCreatePayment cy j"
            "ss_past ss = [(n1, Inr (RPickup p))]" "pk_HouseholdID p = cy_HouseholdID cy"
            "y = payment_for (app_pricing cfg) cy j n p"
          by (auto simp: legal_def q)
        with eff assms(3) payment_dated [OF _ _ ok] same show ?thesis
          by (auto simp: q changes_def sound_def)
      next
        case False
        have "\<And>p. q \<noteq> QInsertPickup p" "\<And>i now. q \<noteq> QComplete i now"
          using legal None by (auto simp: legal_def)
        with eff changes_dated [OF ok _ stamp] False same show ?thesis by blast
      qed
      then show ?thesis by blast
    next
      case (Some t)
      with perform_tx [OF _ True] t(2) have "wd_db w = sh_db s" by fastforce
      with same show ?thesis by blast
    qed
  next
    case False
    then consider "q = QBegin" | "q = QCommit" | "q = QRollback" by (auto simp: on_tables_def)
    then show ?thesis
    proof cases
      case 1
      from perform_begin [OF t(2) [unfolded 1]] have "wd_db w = sh_db s" by simp
      with same show ?thesis by blast
    next
      case 3
      from perform_rollback [OF t(2) [unfolded 3]] have "wd_db w = sh_db s" by simp
      with same show ?thesis by blast
    next
      case 2
      from perform_commit [OF t(2) [unfolded 2]] have "wd_db w = sh_db s \<or>
          working (bucket_of cfg) (sh_db s) (ss_work ss) = Some (Active (wd_db w))" by auto
      with commit_dated [OF _ ok t(1) [unfolded 2]] assms(3) same show ?thesis by (auto simp: sound_def)
    qed
  qed
  with t(3) show ?thesis by simp
qed

section \<open>Every event\<close>

text \<open>No session has a reading from the future.\<close>

definition timely :: "shared \<Rightarrow> bool" where
  "timely s \<longleftrightarrow> (\<forall>ss \<in> set (sh_sessions s). \<forall>n \<in> fst ` set (ss_past ss). n \<le> sh_now s)"

lemma interleaved_timely: "interleaved fmt cfg s \<Longrightarrow> timely s"
proof (induction rule: interleaved.induct)
  case (at_start now)
  then show ?case by (simp add: timely_def at_start_def)
next
  case (event s ev t)
  show ?case
  proof (cases ev)
    case (Turn k n x)
    with event(2) obtain s' ss where k: "k < length (sh_sessions s)"
      and turn: "turn fmt cfg n x s (sh_sessions s ! k) = Some (s', ss)"
      and t: "t = s'\<lparr>sh_sessions := (sh_sessions s')[k := ss]\<rparr>"
      by (auto simp: Let_def split: if_splits option.splits)
    from turn obtain a where past: "ss_past ss = ss_past (sh_sessions s ! k) @ [(n, a)]" and n: "n \<le> sh_now s"
      by (auto simp: turn_def Let_def split: if_splits option.splits prod.splits)
    have "r \<in> set (sh_sessions s) \<or> r = ss" if "r \<in> set (sh_sessions t)" for r
      using that set_update_subset_insert [of "sh_sessions s" k ss] by (auto simp: t turn_frame [OF turn])
    with event(3) nth_mem [OF k] past n show ?thesis
      by (fastforce simp: timely_def t turn_frame [OF turn])
  qed (use event(2,3) in \<open>fastforce simp: timely_def split: if_splits\<close>)+
qed

lemma happen_dated:
  assumes s: "interleaved fmt cfg s" and ev: "happen fmt cfg ev s = Some t"
  shows "\<exists>n \<le> sh_now s. dated cfg n (sh_db s) (sh_db t)"
proof (cases ev)
  case (Turn k n x)
  with ev obtain s' ss where k: "k < length (sh_sessions s)"
    and turn: "turn fmt cfg n x s (sh_sessions s ! k) = Some (s', ss)"
    and t: "t = s'\<lparr>sh_sessions := (sh_sessions s')[k := ss]\<rparr>"
    by (auto simp: Let_def split: if_splits option.splits)
  from interleaved_sound [OF s] nth_mem [OF k] have "sound fmt cfg s (sh_sessions s ! k)" "fine cfg s"
    by (auto simp: sessions.all_hold_def list_all_iff)
  from turn_dated [OF turn this(2,1)] obtain m where "m \<in> insert n (fst ` set (ss_past (sh_sessions s ! k)))"
      "dated cfg m (sh_db s) (sh_db s')" by blast
  moreover have "n \<le> sh_now s" using turn by (auto simp: turn_def split: if_splits)
  ultimately show ?thesis using interleaved_timely [OF s] nth_mem [OF k] by (auto simp: timely_def t)
qed (use ev in \<open>auto simp: dated_def split: if_splits\<close>)

end
