(* ===== verification/Races.thy ===== *)
theory Races
  imports Progress Scenario Dated
begin

text \<open>
  The properties of overlapping requests, tried on the run of \<open>Scenario\<close>, and what the
  level READ COMMITTED does not give: Rule 1 is checked on tables that may have changed when the
  pickup is inserted.
\<close>

section \<open>The run\<close>

lemmas look = state_defs pickup_map_def payment_map_def household_map_def lookup_by_def

lemma created_rows [simp]:
  "pickup_map (sh_db created) 10 = Some (pickupRow_toDomain (scene_pickup 10 PickupCompleted (Some 500)))"
  "pickup_map (sh_db created) 11 = Some (pickupRow_toDomain (scene_pickup 11 PickupPending None))"
  "payment_map (sh_db created) 20 = Some (paymentRow_toDomain scene_payment)"
  by (simp_all add: look)

lemma confirmed_rows [simp]:
  "payment_map (sh_db confirmed) 20 = Some (paymentRow_toDomain paid_payment)"
  by (simp_all add: look)

lemma domain_sel [simp]:
  "pk_Status (pickupRow_toDomain r) = pw_status r" "pk_Type (pickupRow_toDomain r) = pw_type r"
  "pk_PickupDate (pickupRow_toDomain r) = pw_pickup_date r"
  "pk_HouseholdID (pickupRow_toDomain r) = pw_household_id r"
  "pm_Status (paymentRow_toDomain y) = yw_status y" "pm_ProofFileURL (paymentRow_toDomain y) = yw_proof_file_url y"
  "pm_WasteID (paymentRow_toDomain y) = yw_waste_id y"
  by (simp_all add: pickupRow_toDomain_def paymentRow_toDomain_def)

text \<open>The transaction of \<open>Create\<close> before and after its commit.\<close>

definition inserted :: shared where
  "inserted = overlapped
    \<lparr>sh_sessions := (sh_sessions overlapped)[0 :=
       \<lparr>ss_request = ReqCreatePickup paper_pickup 11,
        ss_past = [(0, Inr RUnit), (0, Inr (RBool False)), (0, Inr RUnit)],
        ss_work = Some (Live [(QInsertPickup (new_pickup paper_pickup 11 0), Inr RUnit)]), ss_since = 0\<rparr>]\<rparr>"

lemma scene_inserted:
  "happen demo_fmt demo_config (Turn 0 0 Reply) overlapped = Some inserted"
  "happen demo_fmt demo_config (Turn 0 0 Reply) inserted = Some created"
  by (simp_all add: scene_defs inserted_def overlapped_def created_def)

lemma inserted_interleaved: "interleaved demo_fmt demo_config inserted"
  by (rule interleaved.event [OF scene_interleaved(2) scene_inserted(1)])

section \<open>Every interleaving\<close>

text \<open>
  Claim C1. However the calls of overlapping requests interleave, with failures of the network
  and restarts anywhere, every event leaves the tables as they are or is one step of the
  specification, at a reading of the clock that is not later than the event: what is written, times
  included, is what one use case writes that is served alone at that time. The one exception
  is that a new pickup, otherwise as specified, may appear while a payment of its household is
  pending (\<open>rule1_race\<close>).
\<close>

theorem interleaving_refines:
  assumes "interleaved fmt cfg s" and "happen fmt cfg ev s = Some t"
  shows "schema_ok (sh_db t) \<and>
    (facts (sh_db t) = facts (sh_db s) \<or>
     (\<exists>n \<le> sh_now s.
        store_step (app_pricing cfg) (kc_OrganicTTL (cf_Worker cfg)) (store_of n (sh_db s)) (store_of n (sh_db t)) \<or>
        (\<exists>cp i. add_pickup (new_pickup cp i n) (store_of n (sh_db s)) = Inr ((), store_of n (sh_db t)))))"
  using happen_dated [OF assms] interleaved_fine [OF interleaved.event [OF assms]]
  by (auto simp: dated_def fine_def elim: dated_step.cases)

theorem interleaving_refines_witness:
  "\<exists>n \<le> 0. store_step (app_pricing demo_config) (kc_OrganicTTL (cf_Worker demo_config))
      (store_of n (sh_db inserted)) (store_of n (sh_db created)) \<or>
    (\<exists>cp i. add_pickup (new_pickup cp i n) (store_of n (sh_db inserted)) = Inr ((), store_of n (sh_db created)))"
proof -
  have "pickup_map (sh_db inserted) 11 = None" by (simp add: inserted_def look)
  then have "st_pickups (facts (sh_db created)) 11 \<noteq> st_pickups (facts (sh_db inserted)) 11" by simp
  then have "facts (sh_db created) \<noteq> facts (sh_db inserted)" by metis
  moreover have "sh_now inserted = 0" by (simp add: inserted_def state_defs)
  ultimately show ?thesis using interleaving_refines [OF inserted_interleaved scene_inserted(2)] by auto
qed

text \<open>
  Claim C25. In every state of every interleaving a completed pickup has exactly one payment; it
  belongs to the household of the pickup and is over the price of its type, in cents.
\<close>

theorem overlap_charged_once:
  assumes "interleaved fmt cfg s" and "pickup_map (sh_db s) i = Some p" and "pk_Status p = PickupCompleted"
  shows "\<exists>j y. payment_map (sh_db s) j = Some y \<and> pm_WasteID y = i \<and>
      pm_HouseholdID y = pk_HouseholdID p \<and>
      pm_Amount y = cents (if pk_Type p = PickupElectronic then rc_Electronic (cf_Pricing cfg)
                           else rc_Standard (cf_Pricing cfg)) \<and>
      (\<forall>k z. payment_map (sh_db s) k = Some z \<and> pm_WasteID z = i \<longrightarrow> k = j)"
proof -
  from paid_for [OF assms] obtain j y where y: "payment_map (sh_db s) j = Some y" "pm_WasteID y = i"
      "pm_HouseholdID y = pk_HouseholdID p" "pm_Amount y = cents (AmountFor (app_pricing cfg) (pk_Type p))" by blast
  have "k = j" if "payment_map (sh_db s) k = Some z" "pm_WasteID z = i" for k z
    using one_payment [OF assms(1) that(1) y(1)] that(2) y(2) by simp
  moreover have "pm_Amount y = cents (if pk_Type p = PickupElectronic then rc_Electronic (cf_Pricing cfg)
      else rc_Standard (cf_Pricing cfg))"
    using y(4) by (simp add: AmountFor_def app_pricing_def)
  ultimately show ?thesis using y(1-3) by blast
qed

theorem overlap_charged_once_witness:
  "\<exists>j y. payment_map (sh_db created) j = Some y \<and> pm_WasteID y = 10"
proof -
  have "pk_Status (pickupRow_toDomain (scene_pickup 10 PickupCompleted (Some 500))) = PickupCompleted"
    by (simp add: scene_pickup_def)
  from overlap_charged_once [OF scene_interleaved(3) created_rows(1) this] show ?thesis by blast
qed

text \<open>
  Claim C26. In every state of every interleaving a scheduled or completed pickup has a date, and
  it has passed the safety check if it is electronic; a pending one has no date. The household of a
  pickup exists, whatever deletions overlap with its creation.
\<close>

theorem overlap_scheduled_safe:
  assumes "interleaved fmt cfg s" and "pickup_map (sh_db s) i = Some p"
  shows "(pk_Status p \<in> {PickupScheduled, PickupCompleted} \<longrightarrow>
      pk_PickupDate p \<noteq> None \<and> (pk_Type p \<noteq> PickupElectronic \<or> pk_SafetyCheck p)) \<and>
    (pk_Status p = PickupPending \<longrightarrow> pk_PickupDate p = None) \<and>
    pk_Status p \<in> {PickupPending, PickupScheduled, PickupCompleted, PickupCanceled} \<and>
    household_map (sh_db s) (pk_HouseholdID p) \<noteq> None"
proof -
  note good = interleaved_pickup [OF assms, THEN conjunct2, unfolded good_pickup_def]
  then have "pk_HouseholdID p \<in> dom (household_map (sh_db s))" by (simp del: dom_maps)
  then have "household_map (sh_db s) (pk_HouseholdID p) \<noteq> None" by blast
  with good show ?thesis by auto
qed

theorem overlap_scheduled_safe_witness:
  "pk_PickupDate (the (pickup_map (sh_db created) 10)) \<noteq> None \<and>
   pk_PickupDate (the (pickup_map (sh_db created) 11)) = None"
  using overlap_scheduled_safe [OF scene_interleaved(3) created_rows(1)]
    overlap_scheduled_safe [OF scene_interleaved(3) created_rows(2)]
  by (simp add: scene_pickup_def)

text \<open>
  Claim C27. In every state of every interleaving a payment is pending, without proof and payment
  date, or paid, with both; the status \<open>failed\<close> is never used. Its pickup exists, belongs to the same
  household and has the price that the payment is over.
\<close>

theorem overlap_paid_iff_proof:
  assumes "interleaved fmt cfg s" and "payment_map (sh_db s) j = Some y"
  shows "pm_Status y \<in> {PaymentPending, PaymentPaid} \<and>
    (pm_Status y = PaymentPaid \<longleftrightarrow> pm_ProofFileURL y \<noteq> None) \<and>
    (pm_Status y = PaymentPaid \<longleftrightarrow> pm_PaymentDate y \<noteq> None) \<and>
    (\<exists>p. pickup_map (sh_db s) (pm_WasteID y) = Some p \<and> pk_HouseholdID p = pm_HouseholdID y \<and>
       pm_Amount y = cents (AmountFor (app_pricing cfg) (pk_Type p)))"
  using interleaved_payment [OF assms] by (auto simp: good_payment_def)

theorem overlap_paid_iff_proof_witness:
  "pm_Status (the (payment_map (sh_db confirmed) 20)) = PaymentPaid \<and>
   pm_ProofFileURL (the (payment_map (sh_db created) 20)) = None"
  using overlap_paid_iff_proof [OF scene_interleaved(4) confirmed_rows(1)]
    overlap_paid_iff_proof [OF scene_interleaved(3) created_rows(3)]
  by (simp add: scene_payment_def paid_payment_def)

text \<open>
  Claim C28. Whatever happens next in an interleaving, a pickup stays, keeps its household, its type
  and its safety check, and its status moves along the life cycle only. A transaction that has
  lost a race is refused and never overwrites a completed or canceled pickup.
\<close>

theorem overlap_pickup_lifecycle:
  assumes "interleaved fmt cfg s" and "happen fmt cfg ev s = Some t" and "pickup_map (sh_db s) i = Some p"
  shows "\<exists>q. pickup_map (sh_db t) i = Some q \<and> pk_HouseholdID q = pk_HouseholdID p \<and>
    pk_Type q = pk_Type p \<and> pk_SafetyCheck q = pk_SafetyCheck p \<and>
    (pk_Status q = pk_Status p \<and> pk_PickupDate q = pk_PickupDate p \<or>
     (pk_Status p, pk_Status q) \<in>
       {(PickupPending, PickupScheduled), (PickupPending, PickupCanceled),
        (PickupScheduled, PickupCompleted), (PickupScheduled, PickupCanceled)})"
  using happen_pickup [OF assms] untimed_pickup_move unfolding status_moves_def by blast

theorem overlap_pickup_lifecycle_witness:
  "\<exists>q. pickup_map (sh_db created) 10 = Some q \<and> pk_Type q = PickupPaper"
proof -
  have "pickup_map (sh_db inserted) 10 = Some (pickupRow_toDomain (scene_pickup 10 PickupCompleted (Some 500)))"
    by (simp add: inserted_def look)
  from overlap_pickup_lifecycle [OF inserted_interleaved scene_inserted(2) this] show ?thesis
    by (auto simp: scene_pickup_def)
qed

text \<open>
  Claim C29. Whatever happens next in an interleaving, a payment stays, keeps its household, its
  pickup and its amount, and changes at most from pending to paid; a paid payment keeps its proof.
\<close>

theorem overlap_payment_lifecycle:
  assumes "interleaved fmt cfg s" and "happen fmt cfg ev s = Some t" and "payment_map (sh_db s) j = Some y"
  shows "\<exists>z. payment_map (sh_db t) j = Some z \<and> pm_HouseholdID z = pm_HouseholdID y \<and>
    pm_WasteID z = pm_WasteID y \<and> pm_Amount z = pm_Amount y \<and>
    (pm_Status z = pm_Status y \<and> pm_ProofFileURL z = pm_ProofFileURL y \<or>
     pm_Status y = PaymentPending \<and> pm_Status z = PaymentPaid)"
  using happen_payment [OF assms] untimed_payment_move by blast

theorem overlap_payment_lifecycle_witness:
  "\<exists>z. payment_map (sh_db created) 20 = Some z \<and> pm_WasteID z = 10"
proof -
  have "payment_map (sh_db inserted) 20 = Some (paymentRow_toDomain scene_payment)"
    by (simp add: inserted_def look)
  from overlap_payment_lifecycle [OF inserted_interleaved scene_inserted(2) this] show ?thesis
    by (auto simp: scene_payment_def)
qed

section \<open>Answers\<close>

lemma bucket_url:
  "object_url (bucket_of cfg) (proof_key fmt i j ct) = proof_url fmt cfg i j ct"
  by (simp add: proof_url_def object_url_def bucket_of_def)

text \<open>
  Claim C3. A success that a client has been told is never taken back, whatever the other requests,
  failures and restarts do: the created pickup exists, the scheduled one is no longer pending, the
  completed one is completed with its payment, the canceled one is canceled, and the payment is
  there, respectively paid with the proof of this client.
\<close>

theorem success_is_durable:
  assumes "interleaved fmt cfg s" and "ss \<in> set (sh_sessions s)"
    and "outcome_of fmt cfg (ss_request ss) (ss_past ss) = Inr ()"
    and "happens fmt cfg evs s = Some t"
  shows "case ss_request ss of
       ReqCreatePickup cp i \<Rightarrow>
         (\<exists>p. pickup_map (sh_db t) i = Some p \<and> pk_HouseholdID p = cp_HouseholdID cp \<and> pk_Type p = cp_Type cp)
     | ReqSchedulePickup i sp \<Rightarrow> (\<exists>p. pickup_map (sh_db t) i = Some p \<and> pk_Status p \<noteq> PickupPending)
     | ReqCompletePickup i j \<Rightarrow>
         (\<exists>p y. pickup_map (sh_db t) i = Some p \<and> pk_Status p = PickupCompleted \<and>
            payment_map (sh_db t) j = Some y \<and> pm_WasteID y = i)
     | ReqCancelPickup i \<Rightarrow> (\<exists>p. pickup_map (sh_db t) i = Some p \<and> pk_Status p = PickupCanceled)
     | ReqCreatePayment cy j \<Rightarrow>
         (\<exists>y. payment_map (sh_db t) j = Some y \<and> pm_WasteID y = cy_WasteID cy \<and>
            pm_HouseholdID y = cy_HouseholdID cy)
     | ReqConfirmPayment i ci j \<Rightarrow>
         (\<exists>y. payment_map (sh_db t) i = Some y \<and> pm_Status y = PaymentPaid \<and>
            pm_ProofFileURL y = Some (proof_url fmt cfg i j (ci_ContentType ci)))
     | _ \<Rightarrow> True"
  using happens_promised [OF assms(1,4) interleaved_promised [OF assms(1-3)]]
  by (simp add: promised_def bucket_url split: request.splits)

theorem success_is_durable_witness:
  "\<exists>p y. pickup_map (sh_db confirmed) 10 = Some p \<and> pk_Status p = PickupCompleted \<and>
     payment_map (sh_db confirmed) 20 = Some y \<and> pm_WasteID y = 10"
proof -
  have "complete_session \<in> set (sh_sessions created)"
    and "outcome_of demo_fmt demo_config (ss_request complete_session) (ss_past complete_session) = Inr ()"
    by (simp_all add: created_def complete_session_def talk_CompletePickup)
  from success_is_durable [OF scene_interleaved(3) this scene_confirmed] show ?thesis
    by (simp add: complete_session_def)
qed

text \<open>
  Claim C2. Of requests that exclude each other at most one is ever told success: two completions
  of a pickup, its completion and its cancellation, a second charge for it, and two proofs for one
  payment, wherever their calls overlap.
\<close>

theorem races_have_one_winner:
  assumes "interleaved fmt cfg s" and "ss \<in> set (sh_sessions s)"
    and "outcome_of fmt cfg (ss_request ss) (ss_past ss) = Inr ()"
    and "happens fmt cfg evs s = Some t" and "ss' \<in> set (sh_sessions t)"
    and "conflicting fmt (ss_request ss) (ss_request ss')"
  shows "outcome_of fmt cfg (ss_request ss') (ss_past ss') \<noteq> Inr ()"
proof
  assume "outcome_of fmt cfg (ss_request ss') (ss_past ss') = Inr ()"
  with interleaved_happens [OF assms(4,1)] have t: "interleaved fmt cfg t"
    and p: "promised fmt cfg (ss_request ss') (facts (sh_db t))" using interleaved_promised assms(5) by blast+
  from promises_agree [OF t happens_promised [OF assms(1,4) interleaved_promised [OF assms(1-3)]] p] assms(6)
  show False by blast
qed

text \<open>A cancellation of the completed pickup, up to its answer.\<close>

definition late_session :: session where
  "late_session =
    \<lparr>ss_request = ReqCancelPickup 10,
     ss_past = [(0, Inr (RPickupOpt None)),
       (0, Inr (RPickup (pickupRow_toDomain (scene_pickup 10 PickupCompleted (Some 500)))))],
     ss_work = None, ss_since = 0\<rparr>"

lemma scene_late:
  "happens demo_fmt demo_config [Arrive (ReqCancelPickup 10), Turn 2 0 Reply, Turn 2 0 Reply] created =
     Some (created\<lparr>sh_sessions := sh_sessions created @ [late_session]\<rparr>)"
  by (simp add: scene_defs created_def late_session_def talk_CancelPickup cancel_guard_def PickupRepository_Cancel_def
      type_defs)

theorem races_have_one_winner_witness:
  "outcome_of demo_fmt demo_config (ReqCancelPickup 10) (ss_past late_session) \<noteq> Inr ()"
proof -
  have "complete_session \<in> set (sh_sessions created)"
    and "outcome_of demo_fmt demo_config (ss_request complete_session) (ss_past complete_session) = Inr ()"
    by (simp_all add: created_def complete_session_def talk_CompletePickup)
  from races_have_one_winner [OF scene_interleaved(3) this scene_late, of late_session] show ?thesis
    by (simp add: late_session_def complete_session_def)
qed

section \<open>Rule 1\<close>

text \<open>
  Claim C30. When a pickup appears, the request that created it had opened its transaction at an
  earlier moment of the run at which the household had no pending payment: Rule 1 is checked, inside
  the transaction, for every pickup.
\<close>

theorem rule1_checked:
  assumes "happens fmt cfg evs (at_start now) = Some s" and "happen fmt cfg ev s = Some t"
    and "pickup_map (sh_db s) i = None" and "pickup_map (sh_db t) i = Some p"
  shows "\<exists>evs1 evs2 u ss cp n. evs = evs1 @ evs2 \<and> happens fmt cfg evs1 (at_start now) = Some u \<and>
    ss \<in> set (sh_sessions u) \<and> ss_request ss = ReqCreatePickup cp i \<and> ss_past ss = [(n, Inr RUnit)] \<and>
    cp_HouseholdID cp = pk_HouseholdID p \<and>
    (\<forall>y \<in> ran (payment_map (sh_db u)). pm_HouseholdID y = pk_HouseholdID p \<longrightarrow> pm_Status y \<noteq> PaymentPending)"
proof -
  from adds_checked [OF assms] obtain cp where p: "pk_HouseholdID p = cp_HouseholdID cp"
    and "was_clear fmt cfg evs (at_start now) cp i" by blast
  then show ?thesis unfolding was_clear_def clear_def p by metis
qed

theorem rule1_checked_witness:
  "\<exists>evs u. happens demo_fmt demo_config evs (at_start 0) = Some u \<and>
     (\<exists>ss \<in> set (sh_sessions u). \<exists>cp. ss_request ss = ReqCreatePickup cp 11 \<and> cp_HouseholdID cp = 1)"
proof -
  have run: "happens demo_fmt demo_config (prepare_events @ overlap_events @ [Turn 0 0 Reply]) (at_start 0) = Some inserted"
    using scene_inserted(1) by (simp add: happens_append scene_prepared scene_overlapped)
  have "pickup_map (sh_db inserted) 11 = None" by (simp add: inserted_def look)
  from rule1_checked [OF run scene_inserted(2) this created_rows(2)] show ?thesis
    by (fastforce simp: scene_pickup_def)
qed

text \<open>
  Claim C31. The transaction does not make check and insertion one step: at the default level
  READ COMMITTED a \<open>Complete\<close> that runs as a whole between them, for another pickup of the
  household, charges the household, and the pickup is created all the same while the payment is pending.
\<close>

theorem rule1_race:
  "happens demo_fmt demo_config (prepare_events @ overlap_events) (at_start 0) = Some overlapped \<and>
   happens demo_fmt demo_config create_events overlapped = Some created \<and>
   (\<exists>y. payment_map (sh_db overlapped) 20 = Some y \<and> pm_HouseholdID y = 1 \<and> pm_Status y = PaymentPending) \<and>
   pickup_map (sh_db overlapped) 11 = None \<and>
   (\<exists>p. pickup_map (sh_db created) 11 = Some p \<and> pk_HouseholdID p = 1 \<and> pk_Status p = PickupPending) \<and>
   (\<exists>y. payment_map (sh_db created) 20 = Some y \<and> pm_Status y = PaymentPending)"
proof -
  have "happens demo_fmt demo_config (prepare_events @ overlap_events) (at_start 0) = Some overlapped"
    by (simp add: happens_append scene_prepared scene_overlapped)
  moreover have "pickup_map (sh_db overlapped) 11 = None"
    and "payment_map (sh_db overlapped) 20 = Some (paymentRow_toDomain scene_payment)"
    by (simp_all add: look)
  ultimately show ?thesis
    using scene_created
    by (simp add: scene_payment_def scene_pickup_def pickupRow_toDomain_def paymentRow_toDomain_def)
qed

section \<open>One request\<close>

text \<open>
  Claim C32. The interleavings contain the serial system: with no open transaction about, a request
  whose turns follow each other without interruption does to the tables and to the object store what
  the use case does, and gets its result, under every script of failures.
\<close>

theorem uninterrupted_is_served:
  assumes "interleaved fmt cfg s" and "open_logs (sh_sessions s) = []" and "list_all outcome_ok xs"
    and "answer fmt cfg rq \<lparr>wd_db = sh_db s, wd_tx = None, wd_net = xs, wd_now = sh_now s,
      wd_blobs = sh_blobs s\<rparr> = (r, w)"
  shows "\<exists>evs t. happens fmt cfg (Arrive rq # evs) s = Some t \<and> sh_db t = wd_db w \<and> sh_blobs t = wd_blobs w \<and>
    length (sh_sessions t) = Suc (length (sh_sessions s)) \<and>
    ss_request (last (sh_sessions t)) = rq \<and> outcome_of fmt cfg rq (ss_past (last (sh_sessions t))) = r"
  by (rule served_in_turn [OF assms])

theorem uninterrupted_is_served_witness:
  "\<exists>evs t. happens demo_fmt demo_config (Arrive (ReqCompletePickup 10 20) # evs) prepared = Some t \<and>
     sh_db t = wd_db (serve demo_fmt demo_config (ReqCompletePickup 10 20)
       \<lparr>wd_db = sh_db prepared, wd_tx = None, wd_net = [Reply, Reply, Refused NetError], wd_now = 0,
        wd_blobs = []\<rparr>)"
proof -
  have "open_logs (sh_sessions prepared) = []" "sh_now prepared = 0" "sh_blobs prepared = []"
    by (simp_all add: prepared_def)
  moreover have "list_all outcome_ok [Reply, Reply, Refused NetError]" by (simp add: outcome_ok_def fault_ok_def errors_As_def)
  ultimately show ?thesis
    using uninterrupted_is_served [OF scene_interleaved(1) _ _ prod.collapse [symmetric]]
    by (metis serve_def)
qed

text \<open>
  In every interleaving every session has made at most four calls, and one that has made
  four makes no further one.
\<close>

theorem four_calls:
  assumes "interleaved fmt cfg s"
  shows "list_all (\<lambda>ss. length (ss_past ss) \<le> 4 \<and>
    (length (ss_past ss) = 4 \<longrightarrow> turn fmt cfg n x s ss = None)) (sh_sessions s)"
proof -
  have "turn fmt cfg n x s ss = None" if "length (ss_past ss) = 4" for ss
  proof (cases "turn fmt cfg n x s ss")
    case (Some r)
    then have "turn fmt cfg n x s ss = Some (fst r, snd r)" by simp
    from turn_bounded [OF this] that show ?thesis by linarith
  qed simp
  with interleaved_bounded [OF assms] show ?thesis by (auto simp: list_all_iff)
qed

theorem four_calls_witness: "turn demo_fmt demo_config 0 Reply created complete_session = None"
proof -
  have "complete_session \<in> set (sh_sessions created)" and "length (ss_past complete_session) = 4"
    by (simp_all add: created_def complete_session_def)
  with four_calls [OF scene_interleaved(3), of 0 Reply] show ?thesis by (simp add: list_all_iff)
qed

text \<open>
  Claim C4. No request waits for ever. From every state of every interleaving, whatever transactions
  are open and wait for each other, calls with answers of a healthy network bring all requests to
  their end, with no transaction left open: there is no deadlock.
\<close>

theorem every_request_finishes:
  assumes "interleaved fmt cfg s"
  shows "\<exists>evs t. happens fmt cfg evs s = Some t \<and> list_all (\<lambda>ev. \<exists>k. ev = Turn k (sh_now s) Reply) evs \<and>
    map ss_request (sh_sessions t) = map ss_request (sh_sessions s) \<and>
    list_all (\<lambda>ss. ss_work ss = None \<and>
      upcoming fmt cfg (ss_request ss) (ss_past ss) (sh_now s) = None) (sh_sessions t)"
  using all_finish [OF assms] by (simp add: list_all_iff) metis

theorem every_request_finishes_witness:
  "\<exists>evs t. happens demo_fmt demo_config evs overlapped = Some t \<and>
     map ss_request (sh_sessions t) = [ReqCreatePickup paper_pickup 11, ReqCompletePickup 10 20] \<and>
     list_all (\<lambda>ss. ss_work ss = None) (sh_sessions t)"
proof -
  have "map ss_request (sh_sessions overlapped) = [ReqCreatePickup paper_pickup 11, ReqCompletePickup 10 20]"
    by (simp add: overlapped_def complete_session_def)
  with every_request_finishes [OF scene_interleaved(2)] show ?thesis unfolding list_all_iff by metis
qed

end
