(* ===== verification/HttpSession.thy ===== *)
theory HttpSession
  imports Web Conversation
begin

text \<open>
  HTTP requests as sessions. The server of \<open>app.go\<close> is stated over any driven side; over ports that
  answer from the past, an HTTP request makes the calls of one use case, or none at all.
\<close>

section \<open>The server over any driven side\<close>

definition routes_over ::
  "Libs \<Rightarrow> 'b RatePkg \<Rightarrow> Config \<Rightarrow> 'w services \<Rightarrow> ('w \<Rightarrow> go_error option \<times> 'w) \<Rightarrow> uuid \<Rightarrow> instant \<Rightarrow>
   ('b IPRateLimiter \<times> 'w) route list" where
  "routes_over lib pkg cfg sv ready newID now =
    registerHealth (\<lambda>(l, w). case ready w of (err, w) \<Rightarrow> (err, (l, w))) @
    RegisterRoutes lib (NewHouseholdHandler (household_port (sv_households sv))) newID @
    RegisterPickupRoutes lib (NewPickupHandler (pickup_port (sv_pickups sv))) newID
      (IPRateLimiter_Middleware pkg now) @
    RegisterPaymentRoutes lib
      (NewPaymentHandler (payment_port (lb_String lib) (sv_payments sv))
        \<lparr>up_MaxBytes = cf_UploadLimitBytes cfg, up_AllowedTypes = cf_UploadAllowedTypes cfg\<rparr>) newID @
    RegisterReportRoutes lib (NewReportHandler (report_port (sv_reports sv)))"

definition serve_over ::
  "Libs \<Rightarrow> 'b RatePkg \<Rightarrow> Config \<Rightarrow> logger \<Rightarrow> string \<Rightarrow> duration \<Rightarrow> 'w services \<Rightarrow>
   ('w \<Rightarrow> go_error option \<times> 'w) \<Rightarrow> uuid \<Rightarrow> instant \<Rightarrow> ('b IPRateLimiter \<times> 'w) handler" where
  "serve_over lib pkg cfg logger i d sv ready newID now =
     ErrorHandler (NewServer lib cfg logger i d (routes_over lib pkg cfg sv ready newID now))"

lemma app_serve_over:
  "app_serve lib pkg cfg logger i d newID s =
     serve_over lib pkg cfg logger i d (world_services cfg) (app_ready cfg) newID (wd_now (snd (fst s))) s"
  by (simp add: app_serve_def serve_over_def app_routes_def routes_over_def world_services_def)

section \<open>One use case at most\<close>

text \<open>What happens to the driven side is nothing, or one use case, whatever its state is.\<close>

definition one_use_case :: "(uuid \<Rightarrow> string) \<Rightarrow> 'w services \<Rightarrow> ('w \<Rightarrow> 'w) \<Rightarrow> bool" where
  "one_use_case fmt sv g \<longleftrightarrow>
     (\<forall>w. g w = w) \<or> (\<exists>rq. \<forall>w. g w = snd (Session.dispatch fmt sv rq w))"

lemma one_none: "one_use_case fmt sv (\<lambda>w. w)"
  by (simp add: one_use_case_def)

lemma one_fail: "one_use_case fmt sv (\<lambda>w. fst (snd (fail err (w, c))))"
  by (simp add: one_use_case_def fail_def split: prod.split)

lemma one_panic: "one_use_case fmt sv (\<lambda>w. fst (snd (Panicked r, (w, c))))"
  by (simp add: one_use_case_def)

lemma one_option:
  assumes "one_use_case fmt sv (\<lambda>w. fst (snd (F w)))" and "\<And>x. one_use_case fmt sv (\<lambda>w. fst (snd (G x w)))"
  shows "one_use_case fmt sv (\<lambda>w. fst (snd (case x of None \<Rightarrow> F w | Some y \<Rightarrow> G y w)))"
  using assms by (cases x) simp_all

lemma one_sum:
  assumes "\<And>x. one_use_case fmt sv (\<lambda>w. fst (snd (F x w)))" and "\<And>x. one_use_case fmt sv (\<lambda>w. fst (snd (G x w)))"
  shows "one_use_case fmt sv (\<lambda>w. fst (snd (case x of Inl e \<Rightarrow> F e w | Inr y \<Rightarrow> G y w)))"
  using assms by (cases x) simp_all

lemma one_if:
  assumes "one_use_case fmt sv (\<lambda>w. fst (snd (F w)))" and "one_use_case fmt sv (\<lambda>w. fst (snd (G w)))"
  shows "one_use_case fmt sv (\<lambda>w. fst (snd (if b then F w else G w)))"
  using assms by (cases b) simp_all

lemma one_call:
  assumes "\<And>w. snd (f w) = snd (Session.dispatch fmt sv rq w)" and "\<And>a w. fst (snd (k a w)) = w"
  shows "one_use_case fmt sv (\<lambda>w. fst (snd (case f w of (x, w') \<Rightarrow>
    case x of Inl err \<Rightarrow> fail err (w', c) | Inr a \<Rightarrow> k a w')))"
proof -
  have "fst (snd (case f w of (x, w') \<Rightarrow> case x of Inl err \<Rightarrow> fail err (w', c) | Inr a \<Rightarrow> k a w')) = snd (f w)" for w
    by (cases "f w") (auto simp: assms(2) fail_def split: sum.split prod.split)
  with assms(1) show ?thesis unfolding one_use_case_def by auto
qed

lemmas one_rules = one_none one_fail one_panic one_option one_sum one_if

lemma judged_snd [simp]: "snd (judged x) = snd x"
  by (simp add: judged_def)

section \<open>Handlers\<close>

named_theorems handler_one

lemma HouseholdHandler_Create_one [handler_one]:
  "one_use_case (lb_String lib) sv (\<lambda>w. fst (snd
    (HouseholdHandler_Create lib (NewHouseholdHandler (household_port (sv_households sv))) newID (w, c))))"
  unfolding HouseholdHandler_Create_def prod.case Let_def
  by (intro one_rules one_call [where rq = "ReqCreateHousehold _ newID"])
    (simp_all add: port_defs split: prod.split)

lemma HouseholdHandler_List_one [handler_one]:
  "one_use_case (lb_String lib) sv (\<lambda>w. fst (snd
    (HouseholdHandler_List lib (NewHouseholdHandler (household_port (sv_households sv))) (w, c))))"
  unfolding HouseholdHandler_List_def prod.case Let_def
  by (intro one_rules one_call [where rq = "ReqListHouseholds _"])
    (simp_all add: port_defs split: prod.split)

lemma HouseholdHandler_Get_one [handler_one]:
  "one_use_case (lb_String lib) sv (\<lambda>w. fst (snd
    (HouseholdHandler_Get lib (NewHouseholdHandler (household_port (sv_households sv))) (w, c))))"
  unfolding HouseholdHandler_Get_def prod.case Let_def
  by (intro one_rules one_call [where rq = "ReqGetHousehold _"])
    (simp_all add: port_defs split: prod.split)

lemma HouseholdHandler_Delete_one [handler_one]:
  "one_use_case (lb_String lib) sv (\<lambda>w. fst (snd
    (HouseholdHandler_Delete lib (NewHouseholdHandler (household_port (sv_households sv))) (w, c))))"
  unfolding HouseholdHandler_Delete_def prod.case Let_def
  by (intro one_rules one_call [where rq = "ReqDeleteHousehold _"])
    (simp_all add: port_defs split: prod.split)

lemma PickupHandler_Create_one [handler_one]:
  "one_use_case (lb_String lib) sv (\<lambda>w. fst (snd
    (PickupHandler_Create lib (NewPickupHandler (pickup_port (sv_pickups sv))) newID (w, c))))"
  unfolding PickupHandler_Create_def prod.case Let_def
  by (intro one_rules one_call [where rq = "ReqCreatePickup _ newID"])
    (simp_all add: port_defs split: prod.split)

lemma PickupHandler_List_one [handler_one]:
  "one_use_case (lb_String lib) sv (\<lambda>w. fst (snd
    (PickupHandler_List lib (NewPickupHandler (pickup_port (sv_pickups sv))) (w, c))))"
  unfolding PickupHandler_List_def prod.case Let_def
  by (intro one_rules one_call [where rq = "ReqListPickups _ _"])
    (simp_all add: port_defs split: prod.split)

lemma PickupHandler_Schedule_one [handler_one]:
  "one_use_case (lb_String lib) sv (\<lambda>w. fst (snd
    (PickupHandler_Schedule lib (NewPickupHandler (pickup_port (sv_pickups sv))) (w, c))))"
  unfolding PickupHandler_Schedule_def prod.case Let_def
  by (intro one_rules one_call [where rq = "ReqSchedulePickup _ _"])
    (simp_all add: port_defs split: prod.split)

lemma PickupHandler_Complete_one [handler_one]:
  "one_use_case (lb_String lib) sv (\<lambda>w. fst (snd
    (PickupHandler_Complete lib (NewPickupHandler (pickup_port (sv_pickups sv))) newID (w, c))))"
  unfolding PickupHandler_Complete_def prod.case Let_def
  by (intro one_rules one_call [where rq = "ReqCompletePickup _ newID"])
    (simp_all add: port_defs split: prod.split)

lemma PickupHandler_Cancel_one [handler_one]:
  "one_use_case (lb_String lib) sv (\<lambda>w. fst (snd
    (PickupHandler_Cancel lib (NewPickupHandler (pickup_port (sv_pickups sv))) (w, c))))"
  unfolding PickupHandler_Cancel_def prod.case Let_def
  by (intro one_rules one_call [where rq = "ReqCancelPickup _"])
    (simp_all add: port_defs split: prod.split)

lemma PaymentHandler_Create_one [handler_one]:
  "one_use_case (lb_String lib) sv (\<lambda>w. fst (snd
    (PaymentHandler_Create lib (NewPaymentHandler (payment_port (lb_String lib) (sv_payments sv)) policy) newID (w, c))))"
  unfolding PaymentHandler_Create_def prod.case Let_def
  by (intro one_rules one_call [where rq = "ReqCreatePayment _ newID"])
    (simp_all add: port_defs split: prod.split)

lemma PaymentHandler_List_one [handler_one]:
  "one_use_case (lb_String lib) sv (\<lambda>w. fst (snd
    (PaymentHandler_List lib (NewPaymentHandler (payment_port (lb_String lib) (sv_payments sv)) policy) (w, c))))"
  unfolding PaymentHandler_List_def prod.case Let_def
  by (intro one_rules one_call [where rq = "ReqListPayments _ _"])
    (simp_all add: port_defs split: prod.split)

lemma PaymentHandler_Confirm_one [handler_one]:
  "one_use_case (lb_String lib) sv (\<lambda>w. fst (snd
    (PaymentHandler_Confirm lib (NewPaymentHandler (payment_port (lb_String lib) (sv_payments sv)) policy) newID (w, c))))"
  unfolding PaymentHandler_Confirm_def prod.case Let_def
  by (intro one_rules one_call [where rq = "ReqConfirmPayment _ _ newID"])
    (simp_all add: port_defs split: prod.split)

lemma ReportHandler_WasteSummary_one [handler_one]:
  "one_use_case (lb_String lib) sv (\<lambda>w. fst (snd
    (ReportHandler_WasteSummary (NewReportHandler (report_port (sv_reports sv))) (w, c))))"
  unfolding ReportHandler_WasteSummary_def prod.case Let_def
  by (intro one_rules one_call [where rq = "ReqWasteSummary"])
    (simp_all add: port_defs split: prod.split)

lemma ReportHandler_PaymentSummary_one [handler_one]:
  "one_use_case (lb_String lib) sv (\<lambda>w. fst (snd
    (ReportHandler_PaymentSummary (NewReportHandler (report_port (sv_reports sv))) (w, c))))"
  unfolding ReportHandler_PaymentSummary_def prod.case Let_def
  by (intro one_rules one_call [where rq = "ReqPaymentSummary"])
    (simp_all add: port_defs split: prod.split)

lemma ReportHandler_HouseholdHistory_one [handler_one]:
  "one_use_case (lb_String lib) sv (\<lambda>w. fst (snd
    (ReportHandler_HouseholdHistory lib (NewReportHandler (report_port (sv_reports sv))) (w, c))))"
  unfolding ReportHandler_HouseholdHistory_def prod.case Let_def
  by (intro one_rules one_call [where rq = "ReqHistory _"])
    (simp_all add: port_defs split: prod.split)

section \<open>Routes and middleware\<close>

text \<open>A handler of the server, whose state has the rate limiter in front of the driven side.\<close>

definition modest :: "(uuid \<Rightarrow> string) \<Rightarrow> 'w services \<Rightarrow> ('l \<times> 'w) handler \<Rightarrow> bool" where
  "modest fmt sv h \<longleftrightarrow> (\<forall>l c. one_use_case fmt sv (\<lambda>w. snd (fst (snd (h ((l, w), c))))))"

lemma modest_beside:
  assumes "\<And>c. one_use_case fmt sv (\<lambda>w. fst (snd (h (w, c))))"
  shows "modest fmt sv (beside h)"
  using assms by (simp add: modest_def beside_def prod.case_eq_if)

lemma modest_limited:
  assumes "modest fmt sv h"
  shows "modest fmt sv (IPRateLimiter_Middleware pkg now h)"
proof -
  have "one_use_case fmt sv (\<lambda>w. snd (fst (snd (IPRateLimiter_Middleware pkg now h ((l, w), c)))))" for l c
  proof -
    obtain ok l' where "allow_ip pkg now l (fc_IP c) = (ok, l')" by fastforce
    with assms one_none show ?thesis
      by (cases ok) (simp_all add: IPRateLimiter_Middleware_def modest_def fail_def prod.case_eq_if)
  qed
  then show ?thesis by (simp add: modest_def)
qed

definition modest_route :: "(uuid \<Rightarrow> string) \<Rightarrow> 'w services \<Rightarrow> ('l \<times> 'w) route \<Rightarrow> bool" where
  "modest_route fmt sv r \<longleftrightarrow> modest fmt sv (snd (snd r))"

lemma modest_routeI: "modest fmt sv h \<Longrightarrow> modest_route fmt sv (m, p, h)"
  by (simp add: modest_route_def)

lemma one_ready:
  "one_use_case fmt sv (\<lambda>w. snd (fst (snd (case up w of
     None \<Rightarrow> respond f ((l, w), c) | Some err \<Rightarrow> fail e ((l, w), c)))))"
  unfolding one_use_case_def by (auto simp: fail_def prod.case_eq_if split: option.split)

lemma modest_health:
  "list_all (modest_route fmt sv) (registerHealth (\<lambda>(l, w). case (up w, w) of (err, w) \<Rightarrow> (err, (l, w))))"
  by (simp add: registerHealth_def Get_def modest_route_def modest_def one_none one_ready del: respond_simps)
    (simp add: one_none)

lemma modest_routes:
  "list_all (modest_route (lb_String lib) sv) (routes_over lib pkg cfg sv (\<lambda>w. (up w, w)) newID now)"
  unfolding routes_over_def RegisterRoutes_def RegisterPickupRoutes_def RegisterPaymentRoutes_def
    RegisterReportRoutes_def Get_def Post_def Put_def Delete_def list_all_append list.pred_inject
  by (intro conjI list.pred_inject(1) modest_health modest_routeI modest_limited modest_beside handler_one)

lemma modest_dispatch:
  assumes "list_all (modest_route fmt sv) rs"
  shows "modest fmt sv (Server.dispatch lib rs)"
proof -
  have "one_use_case fmt sv (\<lambda>w. snd (fst (snd (Server.dispatch lib rs ((l, w), c)))))" for l c
    using assms
  proof (induction rs)
    case (Cons r rs)
    obtain m p h where r: "r = (m, p, h)" by (cases r)
    show ?case
      by (cases "if fc_Method c = m then lb_Match lib p (fc_Path c) else None")
        (use Cons in \<open>auto simp: r modest_def modest_route_def\<close>)
  qed (simp add: one_none)
  then show ?thesis by (simp add: modest_def)
qed

lemma modest_middleware:
  assumes "modest fmt sv h"
  shows "modest fmt sv (RequestID logger i h)" "modest fmt sv (Recover h)" "modest fmt sv (AccessLog d h)"
    "modest fmt sv (CORS lib origins h)" "modest fmt sv (Timeout d h)" "modest fmt sv (ErrorHandler h)"
proof -
  note one = assms [unfolded modest_def, rule_format]
  show "modest fmt sv (RequestID logger i h)" "modest fmt sv (Timeout d h)"
    using one by (simp_all add: modest_def RequestID_def Timeout_def Let_def)
  have "fst (snd (Recover h s)) = fst (snd (h s))" "fst (snd (AccessLog d h s)) = fst (snd (h s))"
    "fst (snd (ErrorHandler h s)) = fst (snd (h s))" for s
    by (auto simp: Recover_def AccessLog_def ErrorHandler_def Let_def fail_def
        split: prod.split result.split option.split)
  with one show "modest fmt sv (Recover h)" "modest fmt sv (AccessLog d h)" "modest fmt sv (ErrorHandler h)"
    by (simp_all add: modest_def)
  have "one_use_case fmt sv (\<lambda>w. snd (fst (snd (CORS lib origins h ((l, w), c)))))" for l c
    using one one_none
    by (cases "if fc_Method c = ''OPTIONS'' then lb_Preflight lib origins c else None") (auto simp: CORS_def)
  then show "modest fmt sv (CORS lib origins h)" by (simp add: modest_def)
qed

lemma modest_server:
  "modest (lb_String lib) sv (serve_over lib pkg cfg logger i d sv (\<lambda>w. (up w, w)) newID now)"
  unfolding serve_over_def NewServer_def
  by (intro modest_middleware modest_dispatch modest_routes)

section \<open>The calls of an HTTP request\<close>

text \<open>
  The next call of an HTTP request with the context \<open>c\<close>, after the calls and replies \<open>past\<close>; \<open>up\<close> is what the
  readiness check finds, and \<open>l\<close> the rate limiter when the request arrives.
\<close>

definition http_upcoming ::
  "Libs \<Rightarrow> 'b RatePkg \<Rightarrow> Config \<Rightarrow> logger \<Rightarrow> string \<Rightarrow> duration \<Rightarrow> go_error option \<Rightarrow> uuid \<Rightarrow> instant \<Rightarrow>
   'b IPRateLimiter \<Rightarrow> fctx \<Rightarrow> (instant \<times> response) list \<Rightarrow> instant \<Rightarrow> (ctx \<times> query) option" where
  "http_upcoming lib pkg cfg logger i d up newID now l c past n =
     rp_ask (snd (fst (snd (serve_over lib pkg cfg logger i d (replay_services cfg) (\<lambda>r. (up, r)) newID now
       ((l, \<lparr>rp_past = past, rp_now = n, rp_ask = None\<rparr>), c)))))"

text \<open>
  Claim C7. Whatever an HTTP request is, the server makes the calls of one request to one use case for it,
  whatever the replies and the clock are, or it makes no call. So the interleavings of requests to
  use cases are those of HTTP requests, with middleware, routes and handlers in front.
\<close>

theorem http_request_is_a_session:
  "(\<forall>past n. http_upcoming lib pkg cfg logger i d up newID now l c past n = None) \<or>
   (\<exists>rq. \<forall>past n. http_upcoming lib pkg cfg logger i d up newID now l c past n = upcoming (lb_String lib) cfg rq past n)"
proof -
  have "one_use_case (lb_String lib) (replay_services cfg) (\<lambda>r. snd (fst (snd (serve_over lib pkg cfg logger i d
      (replay_services cfg) (\<lambda>r. (up, r)) newID now ((l, r), c)))))"
    using modest_server [of lib "replay_services cfg" pkg cfg logger i d "\<lambda>r. up"] unfolding modest_def by blast
  then show ?thesis
    unfolding one_use_case_def http_upcoming_def upcoming_def resume_def by force
qed

end
