(* ===== verification/Pages.thy ===== *)
theory Pages
  imports Queries "HOL-Library.Multiset"
begin

text \<open>
  Pages one after the other: what a client sees who walks through a list, when the database may order
  pickups of the same instant differently for every page, and what pages far beyond the end of
  a list are.
\<close>

section \<open>Orders a query may choose\<close>

text \<open>
  \<open>tb_ties\<close> covers all of them: whatever list of the rows is sorted by the key, some order of ties gives it.
\<close>

lemma order_desc_any:
  assumes "mset ys = mset rs" and "distinct (map idf rs)" and "sorted (map (\<lambda>r. - key r) ys)"
  obtains f where "order_desc key (f \<circ> idf) rs = ys"
proof -
  define f where "f = the \<circ> map_of (zip (map idf ys) [0..<length ys])"
  from assms(1,2) have d: "distinct (map idf ys)"
    by (metis distinct_map mset_eq_imp_distinct_iff mset_eq_setD)
  have f: "f (idf (ys ! k)) = k" if "k < length ys" for k
    using map_of_zip_nth [of "map idf ys" "[0..<length ys]" k] d that by (simp add: f_def)
  then have idx: "map (f \<circ> idf) ys = [0..<length ys]"
    by (intro nth_equalityI) simp_all
  then have "distinct (map (f \<circ> idf) ys)" "sorted (map (f \<circ> idf) ys)" by simp_all
  then have "sort_key (f \<circ> idf) rs = ys"
    using assms(1) by (metis distinct_map mset_eq_setD sort_key_inj_key_eq)
  with sort_key_id_if_sorted [OF assms(3)] that [of f] show ?thesis by (simp add: order_desc_def)
qed

text \<open>With distinct keys there is only one.\<close>

lemma order_desc_distinct:
  assumes "distinct (map key rs)"
  shows "order_desc key tie rs = rev (sort_key key rs)"
proof -
  have "sorted (map (\<lambda>r. - key r) (rev (sort_key key rs)))"
    using sorted_sort_key [of key rs] by (simp add: rev_map [symmetric] sorted_wrt_rev sorted_wrt_map)
  then show ?thesis
    using assms unfolding order_desc_def
    by (intro sort_key_inj_key_eq) (auto simp: distinct_map inj_on_def)
qed

text \<open>Two rows with the same key can come in either order, at the same place.\<close>

lemma two_orders:
  assumes d: "distinct (map idf rs)" and "p \<in> set rs" "q \<in> set rs" "p \<noteq> q" "key p = key q"
  obtains f g A B where "order_desc key (f \<circ> idf) rs = A @ p # q # B" "order_desc key (g \<circ> idf) rs = A @ q # p # B"
    "q \<notin> set A" "q \<notin> set B"
proof -
  define xs where "xs = remove1 q (remove1 p rs)"
  define A where "A = sort_key (\<lambda>r. - key r) (filter (\<lambda>r. key p < key r) xs)"
  define B where "B = sort_key (\<lambda>r. - key r) (filter (\<lambda>r. \<not> key p < key r) xs)"
  have dr: "distinct rs" using d by (simp add: distinct_map)
  have split: "mset xs = mset (A @ B)"
    by (simp add: A_def B_def)
  have "add_mset p (mset rs - {#p#}) = mset rs" using assms(2) by simp
  moreover have "q \<in># mset rs - {#p#}" using assms(3,4) by (simp flip: mset_remove1)
  then have "add_mset q (mset rs - {#p#} - {#q#}) = mset rs - {#p#}" by (rule insert_DiffM)
  moreover have "mset xs = mset rs - {#p#} - {#q#}" by (simp add: xs_def)
  ultimately have "mset rs = add_mset p (add_mset q (mset xs))" by metis
  with split have m: "mset (A @ p # q # B) = mset rs" "mset (A @ q # p # B) = mset rs"
    by simp_all
  have s: "sorted (map (\<lambda>r. - key r) (A @ p # q # B))" "sorted (map (\<lambda>r. - key r) (A @ q # p # B))"
    using assms(5) by (auto simp: A_def B_def sorted_append)
  from m(1) dr have "distinct (A @ p # q # B)" by (metis mset_eq_imp_distinct_iff)
  then have "q \<notin> set A" "q \<notin> set B" by auto
  with order_desc_any [OF m(1) d s(1)] order_desc_any [OF m(2) d s(2)] that show ?thesis by metis
qed

section \<open>Walking through the pages\<close>

definition planned :: "(uuid \<Rightarrow> nat) \<Rightarrow> world \<Rightarrow> world" where
  "planned f w = w\<lparr>wd_db := (wd_db w)\<lparr>tb_ties := f\<rparr>\<rparr>"

text \<open>The first \<open>m\<close> pages of \<open>n\<close> pickups; the order of ties for page \<open>k\<close> is \<open>f k\<close>.\<close>

definition walk :: "Config \<Rightarrow> PickupFilter \<Rightarrow> nat \<Rightarrow> nat \<Rightarrow> (nat \<Rightarrow> uuid \<Rightarrow> nat) \<Rightarrow> world \<Rightarrow> Pickup list" where
  "walk cfg flt n m f w =
    concat (map (\<lambda>k. page_items (fst (pickup_List (pickupService cfg) None flt
      \<lparr>Page = word_of_nat (Suc k), PerPage = word_of_nat n\<rparr> (planned (f k) w)))) [0..<m])"

lemma planned_sel [simp]:
  "world_ok (planned f w) = world_ok w" "online (planned f w) = online w"
  "tb_pickups (wd_db (planned f w)) = tb_pickups (wd_db w)" "tb_ties (wd_db (planned f w)) = f"
  by (simp_all add: planned_def world_ok_def net_ok_def online_def)

lemma walk_rows:
  assumes "world_ok w" and "online w" and "text_arg_ok (pf_Status flt)" and "0 < n" and "m * n < 2 ^ 63"
    and "rows = filter (pickup_matches (pf_Status flt) (pf_HouseholdID flt)) (tb_pickups (wd_db w))"
  shows "walk cfg flt n m f w =
    map pickupRow_toDomain (concat (map (\<lambda>k. take n (drop (k * n) (order_desc pw_created_at (f k \<circ> pw_id) rows))) [0..<m]))"
  unfolding walk_def map_concat map_map comp_def
  using assms
  by (intro arg_cong [where f = concat] map_cong refl)
    (simp add: pickup_List_online page_rows_nth [OF assms(4,5)] drop_map take_map comp_def del: of_nat_Suc)

lemma missed_row:
  assumes "ys = A @ p # q # B" and "zs = A @ q # p # B" and "p \<noteq> q" "q \<notin> set A" "q \<notin> set B"
  shows "q \<notin> set (concat (map (\<lambda>k. take 1 (drop (k * 1) (if k \<le> length A then ys else zs))) [0..<m]))"
proof -
  have "q \<notin> set (take 1 (drop k ys))" if "k \<le> length A" for k
    using assms that
    by (cases "k = length A") (auto simp: take_Suc hd_append hd_drop_conv_nth)
  moreover have "q \<notin> set (take 1 (drop k zs))" if "\<not> k \<le> length A" for k
  proof -
    from that obtain j where "k = Suc (length A + j)" by (metis add_Suc_right less_imp_Suc_add not_le)
    with assms show ?thesis
      by (cases j) (auto dest: in_set_takeD in_set_dropD)
  qed
  ultimately show ?thesis by auto
qed

section \<open>Pages beyond all pages\<close>

lemma sint_wrap:
  "sint (word_of_int n :: gint) = (if n mod 2 ^ 64 < 2 ^ 63 then n mod 2 ^ 64 else n mod 2 ^ 64 - 2 ^ 64)"
proof -
  let ?r = "n mod 2 ^ 64"
  have w: "(word_of_int n :: gint) = word_of_int ?r" "(word_of_int n :: gint) = word_of_int (?r - 2 ^ 64)"
    unfolding word_of_int_eq_iff take_bit_eq_mod by simp_all
  have r: "0 \<le> ?r" "?r < 2 ^ 64" by simp_all
  show ?thesis
  proof (cases "?r < 2 ^ 63")
    case True
    with r have "sint (word_of_int ?r :: gint) = ?r" by (intro sint_word_of_int_64) simp_all
    with True w(1) show ?thesis by metis
  next
    case False
    with r have "sint (word_of_int (?r - 2 ^ 64) :: gint) = ?r - 2 ^ 64" by (intro sint_word_of_int_64) simp_all
    with False w(2) show ?thesis by metis
  qed
qed

text \<open>The rows before a page, computed on 64 bits.\<close>

definition rows_before :: "Params \<Rightarrow> int" where
  "rows_before p = ((sint (Page p) - 1) * sint (PerPage p)) mod 2 ^ 64"

lemma sint_Offset_wrap:
  "sint (Offset p) = (if rows_before p < 2 ^ 63 then rows_before p else rows_before p - 2 ^ 64)"
proof -
  have "Offset p = word_of_int ((sint (Page p) - 1) * sint (PerPage p))"
    by (simp add: Offset_def)
  then show ?thesis unfolding rows_before_def using sint_wrap by metis
qed

lemma rows_before_range: "0 \<le> rows_before p" "rows_before p < 2 ^ 64"
  by (simp_all add: rows_before_def)

lemma limit_offset_wrap:
  assumes "0 \<le> sint (Limit p)"
  shows "limit_offset (Limit p) (Offset p) rs =
    (if rows_before p < 2 ^ 63 then Inr (take (nat (sint (Limit p))) (drop (nat (rows_before p)) rs))
     else Inl negative_offset)"
  using assms rows_before_range [of p] by (simp add: limit_offset_def sint_Offset_wrap)

section \<open>Properties\<close>

text \<open>
  Claim C38. Walking through the pages of a list shows every matching pickup exactly once, newest first, whatever
  order the database chooses among equal times for each page, if no two matching pickups were created at
  the same instant. If two were, there are orders with which some pickup is on no page at all, as
  with pages of one: \<open>ORDER BY created_at DESC\<close> has no second key.
\<close>

theorem pickup_pages_cover:
  assumes "world_ok w" and "online w" and "text_arg_ok (pf_Status flt)" and "0 < n" and "m * n < 2 ^ 63"
    and "rows = filter (pickup_matches (pf_Status flt) (pf_HouseholdID flt)) (tb_pickups (wd_db w))"
    and "length rows \<le> m * n"
  shows "(distinct (map pw_created_at rows) \<longrightarrow>
      (\<forall>f. walk cfg flt n m f w = map pickupRow_toDomain (rev (sort_key pw_created_at rows)))) \<and>
    (\<not> distinct (map pw_created_at rows) \<and> n = 1 \<longrightarrow>
      (\<exists>f. \<exists>r \<in> set rows. pickupRow_toDomain r \<notin> set (walk cfg flt n m f w)))"
proof (intro conjI impI allI)
  note walked = walk_rows [OF assms(1-6), of cfg]
  {
    fix f assume "distinct (map pw_created_at rows)"
    then show "walk cfg flt n m f w = map pickupRow_toDomain (rev (sort_key pw_created_at rows))"
      using assms(4,7) by (simp add: walked order_desc_distinct concat_pages)
  next
    assume tied: "\<not> distinct (map pw_created_at rows) \<and> n = 1"
    have ids: "distinct (map pw_id rows)"
      using assms(1,6) by (simp add: world_ok_def schema_okD distinct_map_filter)
    from tied obtain i j where ij: "i < length rows" "j < length rows" "i \<noteq> j"
        "pw_created_at (rows ! i) = pw_created_at (rows ! j)"
      by (auto simp: distinct_conv_nth)
    with nth_eq_iff_index_eq [OF ids, of i j] have "rows ! i \<noteq> rows ! j" by auto
    from two_orders [OF ids nth_mem [OF ij(1)] nth_mem [OF ij(2)] this ij(4)]
    obtain f g A B where f: "order_desc pw_created_at (f \<circ> pw_id) rows = A @ rows ! i # rows ! j # B"
        "order_desc pw_created_at (g \<circ> pw_id) rows = A @ rows ! j # rows ! i # B"
        "rows ! j \<notin> set A" "rows ! j \<notin> set B" by metis
    let ?f = "\<lambda>k. if k \<le> length A then f else g"
    have eq: "order_desc pw_created_at (?f k \<circ> pw_id) rows =
        (if k \<le> length A then A @ rows ! i # rows ! j # B else A @ rows ! j # rows ! i # B)" for k
      using f by simp
    define W where
      "W = concat (map (\<lambda>k. take 1 (drop (k * 1) (order_desc pw_created_at (?f k \<circ> pw_id) rows))) [0..<m])"
    have "rows ! j \<notin> set W"
      unfolding W_def eq by (rule missed_row [OF refl refl \<open>rows ! i \<noteq> rows ! j\<close> f(3,4)])
    moreover have "set W \<subseteq> set rows"
      by (auto simp: W_def dest!: in_set_takeD in_set_dropD)
    moreover have "x = y" if "x \<in> set rows" "y \<in> set rows" "pickupRow_toDomain x = pickupRow_toDomain y" for x y
      using ids that toDomain_sel(1) by (metis distinct_map inj_on_def)
    moreover have "walk cfg flt n m ?f w = map pickupRow_toDomain W"
      using walked [of ?f] unfolding W_def conjunct2 [OF tied] .
    ultimately have "pickupRow_toDomain (rows ! j) \<notin> set (walk cfg flt n m ?f w)"
      using nth_mem [OF ij(2)] by auto
    with nth_mem [OF ij(2)] show "\<exists>f. \<exists>r \<in> set rows. pickupRow_toDomain r \<notin> set (walk cfg flt n m f w)"
      by blast
  }
qed

theorem pickup_pages_cover_witness:
  "walk demo_config \<lparr>pf_Status = Some ''completed'', pf_HouseholdID = None\<rparr> 1 2 (\<lambda>k i. k + unat i) (demo []) =
    [pickupRow_toDomain (demo_pickup_row 13 2 PickupPaper PickupCompleted (Some 600) False 400),
     pickupRow_toDomain (demo_pickup_row 12 2 PickupPlastic PickupCompleted (Some 500) False 300)]"
  using pickup_pages_cover [where w = "demo []" and n = 1 and m = 2 and cfg = demo_config
      and flt = "\<lparr>pf_Status = Some ''completed'', pf_HouseholdID = None\<rparr>", OF _ _ _ _ _ refl]
  by (simp add: world_ok_demo demo_db_def demo_pickup_row_def pickup_matches_def status_defs)

text \<open>
  Claim C40. On a healthy connection a list of households is answered for every page that \<open>Parse\<close> accepts
  as follows. The number of rows before the page is taken modulo \<open>2 ^ 64\<close>; up to \<open>2 ^ 63\<close> the answer is the
  page after that many rows, so a page far beyond the end may show rows of the beginning; from
  \<open>2 ^ 63\<close> on the offset is negative, the database rejects the query, and the answer is an
  internal error (status 500) instead of an empty page.
\<close>

theorem every_page_answered:
  assumes "world_ok w" and "online w" and "params = Parse pageStr perPageStr"
  shows "fst (household_List householdService None params w) =
    (if rows_before params < 2 ^ 63
     then Inr (map householdRow_toDomain (take (nat (sint (PerPage params))) (drop (nat (rows_before params))
            (order_desc hw_created_at (tb_ties (wd_db w) \<circ> hw_id) (tb_households (wd_db w))))),
          length (tb_households (wd_db w)))
     else Inl (App (WithCause (Internal CodeInternal ''database error'') (PgError negative_offset))))"
proof -
  obtain r w' where run: "household_List householdService None params w = (r, w')" by fastforce
  have "0 \<le> sint (Limit params)" using Parse_PerPage_range assms(3) by (simp add: Limit_def less_imp_le)
  note page = limit_offset_wrap [OF this, unfolded Limit_def]
  have err: "map_error (PgError negative_offset) =
      App (WithCause (Internal CodeInternal ''database error'') (PgError negative_offset))"
    by (simp add: map_error_def From_def isUnavailable_def errors_Is_def errors_As_def HasPrefix_def sqlstate_defs)
  show ?thesis
    using ListHouseholds.whole.pool_call [of w params r w'] assms(1,2) run
    by (cases "rows_before params < 2 ^ 63")
      (simp_all add: household_List_flow refines_healthy spec_flow reading_def sql_list_households_def
        sql_count_households_def page err Limit_def)
qed

theorem every_page_answered_witness:
  "fst (household_List householdService None (Parse ''9223372036854775807'' ''10'') (demo [])) =
     Inl (App (WithCause (Internal CodeInternal ''database error'') (PgError negative_offset))) \<and>
   map hh_ID (fst (projr (fst (household_List householdService None (Parse ''288230376151711745'' ''64'') (demo []))))) =
     [2, 1]"
proof -
  have p: "Parse ''9223372036854775807'' ''10'' = \<lparr>Page = 9223372036854775807, PerPage = 10\<rparr>"
    "Parse ''288230376151711745'' ''64'' = \<lparr>Page = 288230376151711745, PerPage = 64\<rparr>"
    by code_simp+
  have r: "rows_before \<lparr>Page = 9223372036854775807, PerPage = 10\<rparr> = 2 ^ 64 - 20"
    "rows_before \<lparr>Page = 288230376151711745, PerPage = 64\<rparr> = 0"
    by (simp_all add: rows_before_def)
  note answer = every_page_answered [of "demo []", OF _ _ refl]
  show ?thesis
    using answer [of "''9223372036854775807''" "''10''"] answer [of "''288230376151711745''" "''64''"]
    by (simp add: p r world_ok_demo demo_db_def order_desc_def)
qed

end
