(* ===== verification/Spec2Isabelle.thy ===== *)
theory Spec2Isabelle
  imports Program AppRun Races HttpSession Pages
begin

text \<open>
  A verification of wst-backend: a Go service that registers households, schedules the pickup
  of their waste, charges for completed pickups and confirms the payments (README.md has the
  business rules 1 to 6). The theories follow the packages of the repository; every definition
  that models code has the name it has there, with the name of its package or receiver in front
  where it would be ambiguous.

  \<^bold>\<open>The program.\<close> HTTP handlers (\<open>internal/adapter/in/http\<close>) parse requests into the commands of
  \<open>internal/core/port/in\<close> and call one of four services (\<open>internal/core/service\<close>). The services
  hold the rules; they reach the database, the object store and the clock through the interfaces
  of \<open>internal/core/port/out\<close>, which \<open>internal/adapter/out\<close> implements. State lives in three
  PostgreSQL tables and in the objects of a bucket; the rules on the status of a pickup and of a
  payment are guarded \<open>UPDATE\<close> statements, and two use cases run in a transaction. A worker runs
  the sweep of stale organic pickups periodically, a janitor evicts idle clients from the rate
  limiter. \<open>cmd/api/main.go\<close> reads the configuration and runs all of it until a signal.

  \<^bold>\<open>Theories.\<close>
  \<^item> \<open>Prelude\<close>: the types of the model (64-bit integers, instants, UUIDs, decimals) and lemmas on
    keyed tables, updates, groups and pages.
  \<^item> \<open>GoErrors\<close> (\<open>internal/pkg/apperr\<close>): error values, \<open>errors.Is\<close> and \<open>errors.As\<close> over the chain of
    causes, kinds and their HTTP status, what a client sees of an error.
  \<^item> \<open>Domain\<close> (\<open>internal/core/domain\<close>), \<open>Pagination\<close> (\<open>internal/pkg/pagination\<close>), \<open>Text\<close>
    (\<open>sanitizeText\<close> over UTF-8, \<open>strings.TrimSpace\<close>), \<open>Config\<close> (\<open>internal/config\<close>, the record and
    \<open>Validate\<close>) and \<open>Env\<close> (\<open>Load\<close> with the parsers of durations, numbers and lists it uses).
  \<^item> \<open>Ports\<close>: commands, and the driven interfaces as records of functions over an arbitrary state.
  \<^item> \<open>HouseholdService\<close>, \<open>PickupService\<close>, \<open>PaymentService\<close>, \<open>ReportService\<close>: the use cases over these
    records.
  \<^item> \<open>Schema\<close>: the migration: rows, constraints, \<open>numeric(14,2)\<close>, \<open>ORDER BY\<close>, \<open>LIMIT\<close> and \<open>OFFSET\<close>.
  \<^item> \<open>Store\<close>: the abstract specification. A store is three finite maps of entities and a clock;
    \<open>spec_...\<close> says for every use case what it returns and stores, or which error it is.
  \<^item> \<open>Contracts\<close>: the interfaces between services and driven side as locales. \<open>port_method\<close>: a
    method carries out an abstract operation exactly when the connection is healthy, and entirely
    or not at all, with a server error, when it is not. \<open>port_sequence\<close> and \<open>transaction_manager\<close>:
    the contract is closed under sequencing and under running in a transaction.
  \<^item> \<open>Postgres\<close>, \<open>PgHousehold\<close>, \<open>PgPickup\<close>, \<open>PgPayment\<close>, \<open>PgReport\<close> (\<open>internal/adapter/out/postgres\<close>):
    error classification, executor, transaction manager, every repository method with its
    statement; the locales \<open>repository_call\<close>, \<open>read_query\<close> and \<open>pickup_transition\<close>, and their
    interpretations on the statements. \<open>Storage\<close>: the MinIO adapter.
  \<^item> \<open>App\<close> (\<open>internal/app/app.go\<close>): the services over the adapters. \<open>Example\<close>: a concrete state.
  \<^item> \<open>UseCases\<close>: each writing use case refines its specification, under every script of failures.
    \<open>Queries\<close>: pages, summaries, histories. \<open>Pages\<close>: walking through a list page by page, and pages far
    beyond its end.
  \<^item> \<open>Machine\<close>: the specification as a state machine with its invariant. \<open>System\<close>: the served
    requests as a step relation, its simulation by the machine, and what follows for every
    reachable state and along every run.

  \<^item> \<open>GoTime\<close>, \<open>Sniff\<close>: of the standard library, printing and parsing of RFC 3339 timestamps and
    \<open>http.DetectContentType\<close>. \<open>Fiber\<close>: requests, responses, JSON values and log entries.
  \<^item> \<open>Presenter\<close>, \<open>Validator\<close>, \<open>Dto\<close>: envelopes and error responses, translation of validation
    errors, request and response types.
  \<^item> \<open>Driving\<close>: the services as the interfaces of \<open>port/in\<close>, and the third-party functions that
    handlers call. \<open>HouseholdHandler\<close> (with reports), \<open>PickupHandler\<close>, \<open>PaymentHandler\<close>: the fifteen
    handlers. \<open>Middleware\<close>, \<open>RateLimit\<close>, \<open>Server\<close>: the five middlewares, routes, dispatching, the chain
    of \<open>NewServer\<close>. \<open>Worker\<close> (\<open>internal/adapter/in/worker\<close>): the scheduler as a run over its events.
  \<^item> \<open>Endpoint\<close>: the contract of a handler as the locale \<open>endpoint\<close> (it returns, and a relation between
    the states before and after, the route and the answer holds), closed under every middleware and
    under dispatching.
  \<^item> \<open>Web\<close>: the routes of \<open>app.go\<close> over the services, the interpretation of \<open>endpoint\<close> on them, the
    contract of the API, and the running program with worker and janitor, which refines \<open>System\<close>.
    \<open>Program\<close>: what its clients see. \<open>Startup\<close>: \<open>NewPool\<close>, \<open>NewMinIO\<close>, \<open>app.New\<close>, \<open>Migrate\<close>, \<open>main\<close>, and
    what \<open>Load\<close> decides. \<open>AppRun\<close>: the four goroutines of \<open>App.Run\<close> beside each other, over the steps of
    \<open>Worker\<close>, \<open>RateLimit\<close> and \<open>Server\<close>; what they do to the state are steps of the program in \<open>Web\<close>
    (\<open>Run_is_program\<close>), and \<open>Run\<close> returns, or a panic of the worker ends it.

  \<^item> \<open>Session\<close>: the same service functions over ports that answer from the replies a request has got so
    far and otherwise note the call to make; so a request becomes a sequence of calls. \<open>Conversation\<close>:
    the calls of every use case, and that a session alone is the use case (\<open>alone_answer\<close>).
  \<^item> \<open>Interleaving\<close>: any number of sessions over the committed tables, one call of one session at a
    time, with arrivals, failures, passing time and restarts. \<open>Timeless\<close>: the state machine of the
    specification without its times, for the invariant. \<open>Effects\<close>: what a single call changes. \<open>Concurrency\<close>: the locale \<open>rely_guarantee\<close>, what a
    session knows, and that it survives the turns of the others. \<open>Overlap\<close>: reachable states, bounds,
    where Rule 1 is checked, requests that exclude each other. \<open>Serial\<close>: a request that nothing interrupts
    does what its use case does. \<open>Dated\<close>: every change of the tables as a step of \<open>Machine\<close>, at the reading of
    the clock that its session took. \<open>Progress\<close>: what the statements of a transaction claim, and that some request
    can always go on. \<open>Scenario\<close>: a concrete run. \<open>Races\<close>: the properties of overlapping requests.
    \<open>HttpSession\<close>: the server of \<open>Web\<close> over any services, and that an HTTP request is a session or makes no call.

  \<^bold>\<open>The state.\<close> \<open>world\<close> has the committed tables, the working copy of the open transaction, the
  clock, the stored objects, and a script of the outcomes of the coming round trips: answered,
  refused before the server acts, or carried out with the answer lost. An exhausted script is a
  healthy connection. PostgreSQL and the object store are not in the repository; of them the
  model has what the source relies on: the documented meaning of the SQL text of the
  repository, of constraints and their SQLSTATEs, of \<open>BEGIN\<close>, \<open>COMMIT\<close> and \<open>ROLLBACK\<close> (a transaction
  works on a copy, a failed statement aborts it, a lost commit may or may not have taken
  place), and of storing an object under a key. A fault is any error a driver can return, with
  the hypothesis (\<open>fault_ok\<close>) that a driver does not return the application's own errors and
  reports constraint violations only for statements that violate one. UUIDs that the program
  draws are arguments, so collisions are covered; the printing of a UUID is an argument too.

  \<^bold>\<open>Third-party packages\<close> that the program calls are arguments. The record \<open>Libs\<close> has the functions of
  Fiber, of the validator and of the UUID package; \<open>libs_ok\<close> states what is documented of them: the
  validator runs the tags of a struct in order (\<open>documented\<close>), a request without route gets a Fiber
  error of at least 400, a preflight the status 204. \<open>RatePkg\<close> is the token bucket, with the law
  \<open>refills\<close> that an idle one behaves like a new one; \<open>Drivers\<close>, \<open>Migrations\<close> and the parser of decimals
  are the rest. Concrete instances (\<open>documented_run\<close>, \<open>token_bucket\<close>, \<open>demo_libs\<close>) show that the
  hypotheses can hold.

  \<^bold>\<open>Overlapping requests.\<close> In \<open>System\<close> and \<open>Program\<close> requests are served one after the other; in
  \<open>Interleaving\<close> their calls alternate in any order. There the two transactions run at READ COMMITTED, the
  level PostgreSQL gives them by default: a statement sees what is committed when it runs, and
  the transaction's own changes. An open transaction is the list of its statements that changed
  something, with their replies, and is run again on the tables as they are; a turn that would change
  such a reply, or that does not fit the open changes of another transaction, does not take place,
  as the row, key and reference locks make it wait. A guarded \<open>UPDATE\<close> that waited is tried again
  on the new row, so its turn is the one after the wait. A session may read the clock at any time
  between its last reply and its call, so the invariant of \<open>Machine\<close>, which compares times with the clock, is
  kept without times (\<open>Timeless\<close>), while every change, times included, is a step of \<open>Machine\<close> at such a
  reading (\<open>interleaving_refines\<close>). A handler
  touches the shared state in its use case only, and \<open>http_request_is_a_session\<close> says so for every sequence
  of replies, which is why sessions are made of requests to use cases. Of the rules, all but Rule 1 hold as strictly as one at a time;
  for Rule 1, \<open>rule1_checked\<close> has what remains and \<open>rule1_race\<close> what is lost.

  \<^bold>\<open>Bounds.\<close> Every definition is total, and the only fuel is that of \<open>alone\<close>: five, since no request
  makes more than four calls (\<open>alone_answer\<close>, \<open>four_calls\<close>). Integers of the program are
  64-bit words where it computes with them (pages and offsets, limits); counts of rows are
  natural numbers, and instants and durations are integers of nanoseconds, whose overflow (after
  the year 2262) is not modelled except in \<open>ParseDuration\<close>. Amounts are rationals until they are
  stored, hundredths of the currency after that; rates of the limiter are rationals.

  \<^bold>\<open>Not modelled.\<close> The order in which waiting transactions go on: a turn that has to wait is not
  taken, and \<open>every_request_finishes\<close> says that there is an order in which everybody gets to the end. A deadline that expires is a failure in the script, not a matter of time. PostgreSQL keeps
  microseconds, so the instants of the model are those after that rounding; the process runs in UTC,
  as its container does. Of Fiber the body limit, the CORS headers and the matching of paths stay
  outside, and so does the socket; of \<open>main\<close> the parsing of flags. Fractions of a duration are
  rounded off exactly, where the library uses floating point. The mocks and test helpers of the
  repository are not part of the program. Of Fiber's \<open>Listen\<close> and \<open>Shutdown\<close> only the documented outcome
  is used: a shutdown makes an open listener return. A shutdown before the listener is open is left
  open, and \<open>Run_returns\<close> excludes it.

  \<^bold>\<open>Order of rows.\<close> SQL leaves the order of rows with equal keys of an \<open>ORDER BY\<close> to the database, and it may
  be another for every query. \<open>tb_ties\<close> is that order, and every choice of it is a step of \<open>System\<close>,
  \<open>Web\<close> and \<open>AppRun\<close>; \<open>pickup_pages_cover\<close> says what that means for the pages of a list. Along an
  interleaving it does not change; none of its properties looks at the rows of a list.
\<close>

end
